(* ===== verification/Prelude.thy ===== *)
theory Prelude
  imports Main "HOL-Library.Sublist" "HOL-Library.List_Lexorder" "HOL-Library.Product_Lexorder"
begin

text \<open>
  Shared vocabulary of the development.

  A Python \<open>str\<close> is a list of Unicode code points, \<open>pystr\<close>. String literals of the
  source are written \<open>lit ''...''\<close>; the few non-ASCII characters of the source's prose
  are spelled by their code points. A Python \<open>dict\<close> with string keys is an association
  list in insertion order (\<open>pydict\<close>). Exceptions are values of \<open>exn\<close>; a fallible
  function returns \<open>exn + 'a\<close>, with \<open>Inl\<close> for a raised exception.
\<close>

named_theorems guard_simps "what a guard of the security layer accepts and refuses"
named_theorems trace_intros "rules that build facts about event traces"
named_theorems find_simps "projections of the diagnostic findings"

section \<open>Text\<close>

type_synonym pystr = "nat list"

definition lit :: "string \<Rightarrow> pystr" where
  "lit s = map of_char s"

text \<open>
  The simplifier never descends into a literal: literals are compared as a whole
  (\<open>lit_eq_iff\<close>) and are unfolded only where \<open>lit_def\<close> is named.
\<close>

lemma lit_weak_cong [cong]: "lit s = lit s"
  by (rule refl)

lemma lit_eq_iff [simp]: "lit a = lit b \<longleftrightarrow> a = b"
  by (simp add: lit_def inj_map_eq_map inj_on_def)

lemma lit_eq_Nil_iff [simp]: "lit a = [] \<longleftrightarrow> a = []" "[] = lit a \<longleftrightarrow> a = []"
  by (simp_all add: lit_def)

lemma lit_Nil [simp]: "lit [] = []"
  by (simp add: lit_def)

lemma lit_append: "lit (a @ b) = lit a @ lit b"
  by (simp add: lit_def)

lemma length_lit: "length (lit s) = length s"
  by (simp add: lit_def)

abbreviation emdash :: pystr where "emdash \<equiv> [0x2014]"
abbreviation warning_sign :: pystr where "warning_sign \<equiv> [0x26A0, 0xFE0F]"
abbreviation approx_sign :: pystr where "approx_sign \<equiv> [0x2248]"
abbreviation newline :: pystr where "newline \<equiv> [10]"
abbreviation dquote :: pystr where "dquote \<equiv> [34]"

text \<open>\<open>'{name}'\<close> inside an f-string.\<close>

definition squote :: "pystr \<Rightarrow> pystr" where
  "squote s = [39] @ s @ [39]"

lemma set_squote [simp]: "set (squote s) = insert 39 (set s)"
  by (auto simp: squote_def)

section \<open>Dictionaries\<close>

type_synonym 'v pydict = "(pystr \<times> 'v) list"

text \<open>\<open>d[k] = v\<close>: overwrite in place, or append a new key at the end.\<close>

fun dict_set :: "'k \<Rightarrow> 'v \<Rightarrow> ('k \<times> 'v) list \<Rightarrow> ('k \<times> 'v) list" where
  "dict_set k v [] = [(k, v)]"
| "dict_set k v ((k', v') # d) = (if k' = k then (k, v) # d else (k', v') # dict_set k v d)"

text \<open>\<open>d.update(e)\<close>.\<close>

definition dict_update :: "('k \<times> 'v) list \<Rightarrow> ('k \<times> 'v) list \<Rightarrow> ('k \<times> 'v) list" where
  "dict_update d e = fold (\<lambda>(k, v) acc. dict_set k v acc) e d"

lemma map_of_dict_set [simp]: "map_of (dict_set k v d) = (map_of d)(k \<mapsto> v)"
  by (induction k v d rule: dict_set.induct) (auto simp: fun_eq_iff)

lemma keys_dict_set: "map fst (dict_set k v d) = (if k \<in> fst ` set d then map fst d else map fst d @ [k])"
  by (induction k v d rule: dict_set.induct) auto

lemma key_set_dict_set [simp]: "fst ` set (dict_set k v d) = insert k (fst ` set d)"
  by (induction k v d rule: dict_set.induct) auto

lemma distinct_dict_set: "distinct (map fst d) \<Longrightarrow> distinct (map fst (dict_set k v d))"
  by (auto simp: keys_dict_set)

lemma map_of_dict_update: "map_of (dict_update d e) = map_of d ++ map_of (rev e)"
proof (induction e arbitrary: d)
  case Nil
  then show ?case by (simp add: dict_update_def)
next
  case (Cons kv e)
  obtain k v where kv: "kv = (k, v)" by force
  have "map_of (dict_update d (kv # e)) = map_of (dict_update (dict_set k v d) e)"
    by (simp add: dict_update_def kv)
  also have "\<dots> = (map_of d)(k \<mapsto> v) ++ map_of (rev e)"
    by (simp only: Cons.IH map_of_dict_set)
  also have "\<dots> = map_of d ++ map_of (rev (kv # e))"
    by (simp add: kv)
  finally show ?case .
qed

lemma dict_set_new: "k \<notin> fst ` set d \<Longrightarrow> dict_set k v d = d @ [(k, v)]"
  by (induction k v d rule: dict_set.induct) auto

lemma dict_update_new: "distinct (map fst (d @ e)) \<Longrightarrow> dict_update d e = d @ e"
proof (induction e arbitrary: d)
  case Nil
  then show ?case by (simp add: dict_update_def)
next
  case (Cons kv e)
  obtain k v where kv: "kv = (k, v)" by force
  from Cons.prems kv have "dict_set k v d = d @ [kv]" by (auto simp: dict_set_new)
  with Cons.IH [of "d @ [kv]"] Cons.prems show ?case by (simp add: dict_update_def kv)
qed

lemma distinct_dict_update: "distinct (map fst d) \<Longrightarrow> distinct (map fst (dict_update d e))"
  unfolding dict_update_def by (induction e arbitrary: d) (auto simp: distinct_dict_set)

text \<open>\<open>d[k].append(x)\<close> on a \<open>defaultdict(list)\<close>, and the grouping loop built from it.\<close>

definition dict_append :: "'k \<Rightarrow> 'v \<Rightarrow> ('k \<times> 'v list) list \<Rightarrow> ('k \<times> 'v list) list" where
  "dict_append k x d = dict_set k ((case map_of d k of None \<Rightarrow> [] | Some xs \<Rightarrow> xs) @ [x]) d"

definition group_pairs :: "('k \<times> 'v) list \<Rightarrow> ('k \<times> 'v list) list" where
  "group_pairs kvs = fold (\<lambda>(k, x) d. dict_append k x d) kvs []"

lemma fold_dict_append:
  assumes "distinct (map fst d)"
  shows "distinct (map fst (fold (\<lambda>(k, x) d. dict_append k x d) kvs d)) \<and>
    fst ` set (fold (\<lambda>(k, x) d. dict_append k x d) kvs d) = fst ` set d \<union> fst ` set kvs \<and>
    (\<forall>k. map_of (fold (\<lambda>(k, x) d. dict_append k x d) kvs d) k =
      (if k \<in> fst ` set d \<union> fst ` set kvs
       then Some ((case map_of d k of None \<Rightarrow> [] | Some xs \<Rightarrow> xs) @ map snd (filter (\<lambda>kv. fst kv = k) kvs))
       else None))"
  using assms
proof (induction kvs arbitrary: d)
  case Nil
  then show ?case by (auto simp: map_of_eq_None_iff split: option.splits)
next
  case (Cons kv kvs)
  obtain k x where kv: "kv = (k, x)" by force
  have d: "distinct (map fst (dict_append k x d))"
    using Cons.prems by (simp add: dict_append_def distinct_dict_set)
  have keys: "fst ` set (dict_append k x d) = insert k (fst ` set d)"
    by (simp add: dict_append_def)
  have m: "map_of (dict_append k x d) k' =
      (if k' = k then Some ((case map_of d k of None \<Rightarrow> [] | Some xs \<Rightarrow> xs) @ [x]) else map_of d k')" for k'
    by (simp add: dict_append_def)
  note IH = Cons.IH [OF d]
  show ?case
  proof (intro conjI allI)
    show "distinct (map fst (fold (\<lambda>(k, x) d. dict_append k x d) (kv # kvs) d))"
      using IH by (simp add: kv)
    show "fst ` set (fold (\<lambda>(k, x) d. dict_append k x d) (kv # kvs) d) = fst ` set d \<union> fst ` set (kv # kvs)"
      using IH by (simp add: kv keys)
    fix k'
    show "map_of (fold (\<lambda>(k, x) d. dict_append k x d) (kv # kvs) d) k' =
      (if k' \<in> fst ` set d \<union> fst ` set (kv # kvs)
       then Some ((case map_of d k' of None \<Rightarrow> [] | Some xs \<Rightarrow> xs) @ map snd (filter (\<lambda>q. fst q = k') (kv # kvs)))
       else None)"
      using IH by (simp add: kv keys m)
  qed
qed

lemma group_pairs_distinct: "distinct (map fst (group_pairs kvs))"
  using fold_dict_append [of "[]" kvs] by (simp add: group_pairs_def)

lemma group_pairs_keys: "fst ` set (group_pairs kvs) = fst ` set kvs"
  using fold_dict_append [of "[]" kvs] by (simp add: group_pairs_def)

lemma group_pairs_mem:
  "(k, xs) \<in> set (group_pairs kvs) \<longleftrightarrow> k \<in> fst ` set kvs \<and> xs = map snd (filter (\<lambda>kv. fst kv = k) kvs)"
proof -
  have "(k, xs) \<in> set (group_pairs kvs) \<longleftrightarrow> map_of (group_pairs kvs) k = Some xs"
    using group_pairs_distinct by (metis map_of_eq_Some_iff)
  then show ?thesis
    using fold_dict_append [of "[]" kvs] by (auto simp: group_pairs_def)
qed

section \<open>Exceptions\<close>

text \<open>
  One constructor per exception class the source raises or catches; the argument is the
  message where the code returns or inspects it. An \<open>except\<close> clause that names a base
  class (\<open>PermissionError\<close>, \<open>LookupError\<close>) is one of the tests below, which follow
  Python's class hierarchy and the source's own subclasses.
\<close>

datatype exn =
    CommandNotAllowedError pystr
  | TokenVerificationError pystr
  | AuthorizationError pystr
  | PermissionError pystr
  | MQConnectionError pystr
  | RuntimeError pystr
  | LookupError pystr
  | KeyError pystr
  | ValueError pystr
  | FileNotFoundError pystr
  | AttributeError pystr
  | TypeError pystr

fun class_name :: "exn \<Rightarrow> pystr" where
  "class_name (CommandNotAllowedError _) = lit ''CommandNotAllowedError''"
| "class_name (TokenVerificationError _) = lit ''TokenVerificationError''"
| "class_name (AuthorizationError _) = lit ''AuthorizationError''"
| "class_name (PermissionError _) = lit ''PermissionError''"
| "class_name (MQConnectionError _) = lit ''MQConnectionError''"
| "class_name (RuntimeError _) = lit ''RuntimeError''"
| "class_name (LookupError _) = lit ''LookupError''"
| "class_name (KeyError _) = lit ''KeyError''"
| "class_name (ValueError _) = lit ''ValueError''"
| "class_name (FileNotFoundError _) = lit ''FileNotFoundError''"
| "class_name (AttributeError _) = lit ''AttributeError''"
| "class_name (TypeError _) = lit ''TypeError''"

fun exn_message :: "exn \<Rightarrow> pystr" where
  "exn_message (CommandNotAllowedError m) = m"
| "exn_message (TokenVerificationError m) = m"
| "exn_message (AuthorizationError m) = m"
| "exn_message (PermissionError m) = m"
| "exn_message (MQConnectionError m) = m"
| "exn_message (RuntimeError m) = m"
| "exn_message (LookupError m) = m"
| "exn_message (KeyError m) = m"
| "exn_message (ValueError m) = m"
| "exn_message (FileNotFoundError m) = m"
| "exn_message (AttributeError m) = m"
| "exn_message (TypeError m) = m"

text \<open>\<open>isinstance(exc, PermissionError)\<close> and \<open>isinstance(exc, LookupError)\<close>.\<close>

fun is_permission_error :: "exn \<Rightarrow> bool" where
  "is_permission_error (CommandNotAllowedError _) = True"
| "is_permission_error (TokenVerificationError _) = True"
| "is_permission_error (AuthorizationError _) = True"
| "is_permission_error (PermissionError _) = True"
| "is_permission_error _ = False"

fun is_lookup_error :: "exn \<Rightarrow> bool" where
  "is_lookup_error (LookupError _) = True"
| "is_lookup_error (KeyError _) = True"
| "is_lookup_error _ = False"

section \<open>Results\<close>

definition bind_res :: "'e + 'a \<Rightarrow> ('a \<Rightarrow> 'e + 'b) \<Rightarrow> 'e + 'b" where
  "bind_res m f = (case m of Inl e \<Rightarrow> Inl e | Inr x \<Rightarrow> f x)"

lemma bind_res_simps [simp]: "bind_res (Inl e) f = Inl e" "bind_res (Inr x) f = f x"
  by (simp_all add: bind_res_def)

lemma bind_res_eq_Inr_iff [simp]: "bind_res m f = Inr y \<longleftrightarrow> (\<exists>x. m = Inr x \<and> f x = Inr y)"
  by (cases m) auto

text \<open>A loop that stops at the first exception.\<close>

fun traverse :: "('a \<Rightarrow> 'e + 'b) \<Rightarrow> 'a list \<Rightarrow> 'e + 'b list" where
  "traverse f [] = Inr []"
| "traverse f (x # xs) = bind_res (f x) (\<lambda>y. bind_res (traverse f xs) (\<lambda>ys. Inr (y # ys)))"

lemma traverse_Inr_iff: "traverse f xs = Inr ys \<longleftrightarrow> list_all2 (\<lambda>x y. f x = Inr y) xs ys"
proof (induction xs arbitrary: ys)
  case Nil
  then show ?case by auto
next
  case (Cons x xs)
  then show ?case by (cases ys) auto
qed

lemma traverse_map: "(\<And>x. x \<in> set xs \<Longrightarrow> f x = Inr (g x)) \<Longrightarrow> traverse f xs = Inr (map g xs)"
  by (induction xs) auto

fun is_ok :: "'e + 'a \<Rightarrow> bool" where
  "is_ok (Inl _) = False"
| "is_ok (Inr _) = True"

section \<open>Lists\<close>

lemma takeWhile_idem_if_all: "(\<And>x. x \<in> set xs \<Longrightarrow> P x) \<Longrightarrow> takeWhile P xs = xs"
  by (induction xs) auto

lemma dropWhile_Nil_iff: "dropWhile P xs = [] \<longleftrightarrow> (\<forall>x \<in> set xs. P x)"
  by (induction xs) auto

lemma hd_dropWhile_not: "dropWhile P xs = y # ys \<Longrightarrow> \<not> P y"
  by (metis hd_dropWhile list.sel(1) list.distinct(1))

lemma length_dropWhile_less: "xs \<noteq> [] \<Longrightarrow> P (hd xs) \<Longrightarrow> length (dropWhile P xs) < length xs"
  by (cases xs) (auto simp: le_imp_less_Suc length_dropWhile_le)

lemma set_concat_map_subset: "(\<And>x. x \<in> set xs \<Longrightarrow> set (f x) \<subseteq> A) \<Longrightarrow> set (concat (map f xs)) \<subseteq> A"
  by auto

lemma concat_map_singleton_if: "concat (map (\<lambda>x. if P x then [x] else []) xs) = filter P xs"
  by (induction xs) auto

end
