(* ===== verification/PyText.thy ===== *)
theory PyText
  imports Prelude
begin

text \<open>
  The string methods of Python that the source uses, on code points: \<open>isspace\<close>,
  \<open>strip\<close>, \<open>split\<close>, \<open>splitlines\<close>, \<open>upper\<close>, \<open>lower\<close>, \<open>replace\<close>, \<open>find\<close>, \<open>join\<close>,
  \<open>int\<close> and \<open>str\<close> of integers.

  White space and line boundaries are Python's full Unicode sets. Case mapping is exact
  for ASCII and for every code point whose upper (lower) case contains an ASCII letter;
  other non-ASCII letters are left alone, which no comparison with an ASCII constant can
  observe. Decimal digits are the ASCII ones.
\<close>

section \<open>Character classes\<close>

definition is_space :: "nat \<Rightarrow> bool" where
  "is_space c \<longleftrightarrow> 9 \<le> c \<and> c \<le> 13 \<or> 28 \<le> c \<and> c \<le> 32 \<or> c = 0x85 \<or> c = 0xA0 \<or> c = 0x1680 \<or>
     0x2000 \<le> c \<and> c \<le> 0x200A \<or> c = 0x2028 \<or> c = 0x2029 \<or> c = 0x202F \<or> c = 0x205F \<or> c = 0x3000"

definition is_linebreak :: "nat \<Rightarrow> bool" where
  "is_linebreak c \<longleftrightarrow> 10 \<le> c \<and> c \<le> 13 \<or> 28 \<le> c \<and> c \<le> 30 \<or> c = 0x85 \<or> c = 0x2028 \<or> c = 0x2029"

definition is_digit :: "nat \<Rightarrow> bool" where
  "is_digit c \<longleftrightarrow> 48 \<le> c \<and> c \<le> 57"

definition is_upper_letter :: "nat \<Rightarrow> bool" where
  "is_upper_letter c \<longleftrightarrow> 65 \<le> c \<and> c \<le> 90"

definition is_lower_letter :: "nat \<Rightarrow> bool" where
  "is_lower_letter c \<longleftrightarrow> 97 \<le> c \<and> c \<le> 122"

text \<open>The class \<open>\\w\<close>: exact up to U+00FF; higher code points count as non-word.\<close>

definition is_word :: "nat \<Rightarrow> bool" where
  "is_word c \<longleftrightarrow> is_digit c \<or> is_upper_letter c \<or> is_lower_letter c \<or> c = 95 \<or>
     c = 0xAA \<or> c = 0xB2 \<or> c = 0xB3 \<or> c = 0xB5 \<or> 0xB9 \<le> c \<and> c \<le> 0xBA \<or> 0xBC \<le> c \<and> c \<le> 0xBE \<or>
     0xC0 \<le> c \<and> c \<le> 0xFF \<and> c \<noteq> 0xD7 \<and> c \<noteq> 0xF7"

lemmas char_class_defs = is_space_def is_linebreak_def is_digit_def is_upper_letter_def
  is_lower_letter_def is_word_def

lemma is_linebreak_is_space: "is_linebreak c \<Longrightarrow> is_space c"
  by (auto simp: char_class_defs)

section \<open>Case mapping\<close>

text \<open>
  The special cases are the dotless i, the long s, the sharp s and the Latin ligatures,
  and the letters whose upper case is an ASCII letter with a combining mark.
\<close>

definition upper_specials :: "(nat \<times> pystr) list" where
  "upper_specials =
     [(0x131, [73]), (0x17F, [83]), (0xDF, [83, 83]), (0xFB00, [70, 70]), (0xFB01, [70, 73]),
      (0xFB02, [70, 76]), (0xFB03, [70, 70, 73]), (0xFB04, [70, 70, 76]), (0xFB05, [83, 84]),
      (0xFB06, [83, 84]), (0x149, [0x2BC, 78]), (0x1F0, [74, 0x30C]), (0x1E96, [72, 0x331]),
      (0x1E97, [84, 0x308]), (0x1E98, [87, 0x30A]), (0x1E99, [89, 0x30A]), (0x1E9A, [65, 0x2BE])]"

definition upper_cp :: "nat \<Rightarrow> pystr" where
  "upper_cp c =
     (if is_lower_letter c then [c - 32]
      else (case map_of upper_specials c of Some w \<Rightarrow> w | None \<Rightarrow> [c]))"

definition lower_cp :: "nat \<Rightarrow> pystr" where
  "lower_cp c =
     (if is_upper_letter c then [c + 32]
      else if c = 0x212A then [107]
      else if c = 0x130 then [105, 0x307]
      else [c])"

definition upper :: "pystr \<Rightarrow> pystr" where
  "upper s = concat (map upper_cp s)"

definition lower :: "pystr \<Rightarrow> pystr" where
  "lower s = concat (map lower_cp s)"

lemma upper_simps [simp]: "upper [] = []" "upper (c # s) = upper_cp c @ upper s"
  by (simp_all add: upper_def)

lemma upper_append: "upper (s @ t) = upper s @ upper t"
  by (simp add: upper_def)

lemma lower_simps [simp]: "lower [] = []" "lower (c # s) = lower_cp c @ lower s"
  by (simp_all add: lower_def)

lemma upper_specials_table:
  "list_all (\<lambda>(c, w). 128 \<le> c \<and> w \<noteq> [] \<and>
     list_all (\<lambda>d. is_upper_letter d \<or> 128 \<le> d \<and> map_of upper_specials d = None) w) upper_specials"
  by (simp add: upper_specials_def is_upper_letter_def)

lemma upper_specials_range:
  "map_of upper_specials c = Some w \<Longrightarrow>
     128 \<le> c \<and> w \<noteq> [] \<and> (\<forall>d \<in> set w. is_upper_letter d \<or> 128 \<le> d \<and> map_of upper_specials d = None)"
  using upper_specials_table by (auto simp: list_all_iff dest!: map_of_SomeD)

lemma upper_specials_ascii [simp]: "c < 128 \<Longrightarrow> map_of upper_specials c = None"
  using upper_specials_range [of c] by (cases "map_of upper_specials c") auto

lemma upper_cp_ne [simp]: "upper_cp c \<noteq> []"
  by (auto simp: upper_cp_def dest: upper_specials_range split: option.splits)

lemma upper_eq_Nil_iff [simp]: "upper s = [] \<longleftrightarrow> s = []"
  by (cases s) auto

lemma upper_cp_fixed:
  assumes "d \<in> set (upper_cp c)"
  shows "upper_cp d = [d]"
proof (cases "is_lower_letter c")
  case True
  with assms have "d = c - 32" by (simp add: upper_cp_def)
  with True show ?thesis by (auto simp: upper_cp_def is_lower_letter_def)
next
  case False
  show ?thesis
  proof (cases "map_of upper_specials c")
    case None
    with False assms show ?thesis by (simp add: upper_cp_def)
  next
    case (Some w)
    with False assms upper_specials_range [OF Some]
    have "is_upper_letter d \<or> 128 \<le> d \<and> map_of upper_specials d = None"
      by (simp add: upper_cp_def)
    then show ?thesis
      by (auto simp: upper_cp_def is_lower_letter_def is_upper_letter_def)
  qed
qed

lemma upper_fixed: "(\<And>d. d \<in> set s \<Longrightarrow> upper_cp d = [d]) \<Longrightarrow> upper s = s"
  by (induction s) auto

lemma upper_idem: "upper (upper s) = upper s"
  by (rule upper_fixed) (auto simp: upper_def dest: upper_cp_fixed)

text \<open>Characters that are no letters survive \<open>upper\<close> and are not produced by it.\<close>

lemma mem_upper_iff:
  assumes "\<not> is_lower_letter c" "\<not> is_upper_letter c" "c < 128"
  shows "c \<in> set (upper s) \<longleftrightarrow> c \<in> set s"
proof -
  have "c \<in> set (upper_cp d) \<longleftrightarrow> c = d" for d
  proof (cases "map_of upper_specials d")
    case None
    with assms show ?thesis
      by (auto simp: upper_cp_def is_lower_letter_def is_upper_letter_def)
  next
    case (Some w)
    from upper_specials_range [OF this] Some assms show ?thesis
      by (auto simp: upper_cp_def is_lower_letter_def)
  qed
  then show ?thesis by (auto simp: upper_def)
qed

section \<open>Strip and split\<close>

definition lstrip :: "pystr \<Rightarrow> pystr" where
  "lstrip s = dropWhile is_space s"

definition rstrip :: "pystr \<Rightarrow> pystr" where
  "rstrip s = rev (dropWhile is_space (rev s))"

definition strip :: "pystr \<Rightarrow> pystr" where
  "strip s = rstrip (lstrip s)"

lemma strip_Nil [simp]: "strip [] = []"
  by (simp add: strip_def lstrip_def rstrip_def)

lemma rstrip_decomp: "\<exists>w. s = rstrip s @ w \<and> (\<forall>c \<in> set w. is_space c)"
proof (intro exI conjI)
  show "s = rstrip s @ rev (takeWhile is_space (rev s))"
    unfolding rstrip_def by (metis rev_append rev_rev_ident takeWhile_dropWhile_id)
  show "\<forall>c \<in> set (rev (takeWhile is_space (rev s))). is_space c"
    by (auto dest: set_takeWhileD)
qed

lemma set_rstrip: "set (rstrip s) \<subseteq> set s"
  unfolding rstrip_def using set_dropWhileD by fastforce

lemma set_lstrip: "set (lstrip s) \<subseteq> set s"
  unfolding lstrip_def using set_dropWhileD by fastforce

lemma set_strip: "set (strip s) \<subseteq> set s"
  unfolding strip_def using set_rstrip set_lstrip by blast

lemma strip_eq_Nil_iff: "strip s = [] \<longleftrightarrow> (\<forall>c \<in> set s. is_space c)"
proof -
  have "rstrip t = [] \<longleftrightarrow> (\<forall>c \<in> set t. is_space c)" for t
    by (simp add: rstrip_def dropWhile_Nil_iff)
  then show ?thesis
    unfolding strip_def lstrip_def
    by (metis dropWhile_Nil_iff hd_dropWhile hd_in_set rstrip_def set_dropWhileD)
qed

text \<open>\<open>s.split()\<close>: the maximal runs of non-space characters.\<close>

function split_ws :: "pystr \<Rightarrow> pystr list" where
  "split_ws s =
     (let t = dropWhile is_space s
      in if t = [] then []
         else takeWhile (\<lambda>c. \<not> is_space c) t # split_ws (dropWhile (\<lambda>c. \<not> is_space c) t))"
  by pat_completeness auto
termination
proof (relation "measure length")
  show "wf (measure (length :: pystr \<Rightarrow> nat))" by simp
next
  fix s t :: pystr
  assume t: "t = dropWhile is_space s" and ne: "t \<noteq> []"
  have "length (dropWhile (\<lambda>c. \<not> is_space c) t) < length t"
    using ne unfolding t by (intro length_dropWhile_less) (simp_all only: hd_dropWhile not_False_eq_True)
  also have "\<dots> \<le> length s" by (simp add: t length_dropWhile_le)
  finally show "(dropWhile (\<lambda>c. \<not> is_space c) t, s) \<in> measure length" by simp
qed

declare split_ws.simps [simp del]

lemma split_ws_space: "is_space c \<Longrightarrow> split_ws (c # s) = split_ws s"
  by (simp add: split_ws.simps [of "c # s"] split_ws.simps [of s])

lemma split_ws_Nil [simp]: "split_ws [] = []"
  by (simp add: split_ws.simps)

lemma split_ws_eq_Nil_iff: "split_ws s = [] \<longleftrightarrow> (\<forall>c \<in> set s. is_space c)"
  by (simp add: split_ws.simps [of s] Let_def dropWhile_Nil_iff)

lemma split_ws_step:
  "dropWhile is_space s = u \<Longrightarrow> u \<noteq> [] \<Longrightarrow>
     split_ws s = takeWhile (\<lambda>c. \<not> is_space c) u # split_ws (dropWhile (\<lambda>c. \<not> is_space c) u)"
  by (subst split_ws.simps) (simp only: Let_def if_False)

lemma split_ws_tokens: "t \<in> set (split_ws s) \<Longrightarrow> t \<noteq> [] \<and> set t \<subseteq> set s \<and> (\<forall>c \<in> set t. \<not> is_space c)"
proof (induction s rule: split_ws.induct)
  case (1 s)
  obtain u where u: "dropWhile is_space s = u" by simp
  have su: "set u \<subseteq> set s" using set_dropWhileD [of _ is_space s] u by blast
  have une: "u \<noteq> []"
  proof
    assume "u = []"
    with "1.prems" u show False by (simp add: split_ws.simps [of s])
  qed
  from "1.prems" split_ws_step [OF u une]
  consider "t = takeWhile (\<lambda>c. \<not> is_space c) u"
    | "t \<in> set (split_ws (dropWhile (\<lambda>c. \<not> is_space c) u))"
    by (auto simp only: list.set insert_iff)
  then show ?case
  proof cases
    case 1
    have "\<not> is_space (hd u)" using une hd_dropWhile [of is_space s] unfolding u by blast
    then have "t \<noteq> []" using 1 une by (cases u) simp_all
    moreover have "c \<in> set u \<and> \<not> is_space c" if "c \<in> set t" for c
      using set_takeWhileD [of c _ u] that unfolding 1 by blast
    ultimately show ?thesis using su by blast
  next
    case 2
    have "t \<noteq> [] \<and> set t \<subseteq> set (dropWhile (\<lambda>c. \<not> is_space c) u) \<and> (\<forall>c \<in> set t. \<not> is_space c)"
      using "1.IH" [OF u [symmetric] une 2] .
    moreover have "set (dropWhile (\<lambda>c. \<not> is_space c) u) \<subseteq> set u"
      by (rule subsetI) (erule set_dropWhileD)
    ultimately show ?thesis using su by blast
  qed
qed

text \<open>\<open>s.split(sep)\<close> for a one-character separator.\<close>

fun split_on :: "nat \<Rightarrow> pystr \<Rightarrow> pystr list" where
  "split_on d [] = [[]]"
| "split_on d (c # s) =
     (if c = d then [] # split_on d s
      else (case split_on d s of [] \<Rightarrow> [[c]] | w # ws \<Rightarrow> (c # w) # ws))"

text \<open>\<open>s.split(sep, 1)[0]\<close>.\<close>

definition before :: "nat \<Rightarrow> pystr \<Rightarrow> pystr" where
  "before d s = takeWhile (\<lambda>c. c \<noteq> d) s"

lemma split_on_ne [simp]: "split_on d s \<noteq> []"
  by (induction s) (auto split: list.splits)

lemma split_on_word: "d \<notin> set w \<Longrightarrow> split_on d w = [w]"
  by (induction w) auto

lemma split_on_no_sep: "w \<in> set (split_on d s) \<Longrightarrow> d \<notin> set w"
  by (induction s arbitrary: w) (auto split: if_splits list.splits)

fun join :: "pystr \<Rightarrow> pystr list \<Rightarrow> pystr" where
  "join sep [] = []"
| "join sep [w] = w"
| "join sep (w # ws) = w @ sep @ join sep ws"

lemma join_split_on: "join [d] (split_on d s) = s"
proof (induction s)
  case Nil
  then show ?case by simp
next
  case (Cons c s)
  obtain w ws where w: "split_on d s = w # ws"
    by (cases "split_on d s") auto
  with Cons.IH show ?case
    by (cases ws) auto
qed

lemma set_join: "set (join sep ws) \<subseteq> set sep \<union> \<Union> (set ` set ws)"
  by (induction sep ws rule: join.induct) auto

section \<open>Lines\<close>

function splitlines :: "pystr \<Rightarrow> pystr list" where
  "splitlines s =
     (if s = [] then []
      else (case dropWhile (\<lambda>c. \<not> is_linebreak c) s of
              [] \<Rightarrow> [s]
            | c # r \<Rightarrow> takeWhile (\<lambda>c. \<not> is_linebreak c) s #
                splitlines (if c = 13 \<and> r \<noteq> [] \<and> hd r = 10 then tl r else r)))"
  by pat_completeness auto
termination
proof (relation "measure length")
  show "wf (measure (length :: pystr \<Rightarrow> nat))" by simp
next
  fix s :: pystr and c :: nat and r :: pystr
  assume "dropWhile (\<lambda>c. \<not> is_linebreak c) s = c # r"
  then have "Suc (length r) \<le> length s"
    by (metis length_Cons length_dropWhile_le)
  moreover have "length (if c = 13 \<and> r \<noteq> [] \<and> hd r = 10 then tl r else r) \<le> length r" by simp
  ultimately have "length (if c = 13 \<and> r \<noteq> [] \<and> hd r = 10 then tl r else r) < length s"
    by linarith
  then show "(if c = 13 \<and> r \<noteq> [] \<and> hd r = 10 then tl r else r, s) \<in> measure length" by simp
qed

declare splitlines.simps [simp del]

lemma splitlines_Nil [simp]: "splitlines [] = []"
  by (simp add: splitlines.simps)

lemma splitlines_no_break: "l \<in> set (splitlines s) \<Longrightarrow> (\<forall>c \<in> set l. \<not> is_linebreak c) \<and> set l \<subseteq> set s"
proof (induction s rule: splitlines.induct)
  case (1 s)
  show ?case
  proof (cases "s = []")
    case True
    with "1.prems" show ?thesis by simp
  next
    case False
    show ?thesis
    proof (cases "dropWhile (\<lambda>c. \<not> is_linebreak c) s")
      case Nil
      with False "1.prems" show ?thesis
        by (auto simp: splitlines.simps [of s] dropWhile_Nil_iff)
    next
      case (Cons c r)
      let ?r = "if c = 13 \<and> r \<noteq> [] \<and> hd r = 10 then tl r else r"
      have sub: "set ?r \<subseteq> set s"
      proof -
        have "set ?r \<subseteq> set r" by (auto dest: list.set_sel(2))
        also have "set r \<subseteq> set s"
          using Cons by (metis set_dropWhileD list.set_intros(2) subsetI)
        finally show ?thesis .
      qed
      from "1.prems" False Cons consider "l = takeWhile (\<lambda>c. \<not> is_linebreak c) s"
        | "l \<in> set (splitlines ?r)"
        by (auto simp: splitlines.simps [of s] split: if_splits)
      then show ?thesis
      proof cases
        case 1
        then show ?thesis by (auto dest: set_takeWhileD)
      next
        case 2
        with "1.IH" [OF False Cons] sub show ?thesis by blast
      qed
    qed
  qed
qed

lemma splitlines_unlines:
  "(\<And>l c. l \<in> set ls \<Longrightarrow> c \<in> set l \<Longrightarrow> \<not> is_linebreak c) \<Longrightarrow> splitlines (concat (map (\<lambda>l. l @ [10]) ls)) = ls"
proof (induction ls)
  case Nil
  then show ?case by simp
next
  case (Cons l ls)
  have l: "\<forall>c \<in> set l. \<not> is_linebreak c" using Cons.prems [of l] by auto
  have nl: "is_linebreak 10" by (simp add: is_linebreak_def)
  let ?r = "concat (map (\<lambda>l. l @ [10]) ls)"
  have t: "takeWhile (\<lambda>c. \<not> is_linebreak c) (l @ 10 # ?r) = l"
    and d: "dropWhile (\<lambda>c. \<not> is_linebreak c) (l @ 10 # ?r) = 10 # ?r"
    using l nl by (simp_all add: takeWhile_append dropWhile_append dropWhile_Nil_iff takeWhile_idem_if_all)
  have "splitlines (l @ 10 # ?r) = l # splitlines ?r"
    by (subst splitlines.simps) (simp add: t d)
  moreover have "splitlines ?r = ls"
    using Cons.prems by (intro Cons.IH) auto
  ultimately show ?case by simp
qed

section \<open>Search and replace\<close>

text \<open>\<open>s.replace(c, r)\<close> for a one-character \<open>c\<close>.\<close>

definition replace_ch :: "nat \<Rightarrow> pystr \<Rightarrow> pystr \<Rightarrow> pystr" where
  "replace_ch c r s = concat (map (\<lambda>x. if x = c then r else [x]) s)"

lemma replace_ch_simps [simp]:
  "replace_ch c r [] = []"
  "replace_ch c r (x # s) = (if x = c then r else [x]) @ replace_ch c r s"
  by (simp_all add: replace_ch_def)

lemma set_replace_ch: "set (replace_ch c r s) = (set s - {c}) \<union> (if c \<in> set s then set r else {})"
  by (induction s) auto

text \<open>\<open>s.find(p, i)\<close> on the suffix from \<open>i\<close>: the offset of the first occurrence.\<close>

fun find_sub :: "pystr \<Rightarrow> pystr \<Rightarrow> nat option" where
  "find_sub p s =
     (if prefix p s then Some 0
      else (case s of [] \<Rightarrow> None | _ # s' \<Rightarrow> map_option Suc (find_sub p s')))"

declare find_sub.simps [simp del]

lemma find_sub_Some: "find_sub p s = Some i \<Longrightarrow> i \<le> length s \<and> prefix p (drop i s)"
proof (induction p s arbitrary: i rule: find_sub.induct)
  case (1 p s)
  then show ?case
    by (auto simp: find_sub.simps [of p s] split: if_splits list.splits)
qed

lemma find_sub_None: "find_sub p s = None \<longleftrightarrow> \<not> sublist p s"
proof (induction s)
  case Nil
  then show ?case by (simp add: find_sub.simps)
next
  case (Cons c s)
  then show ?case
    by (simp add: find_sub.simps [of p "c # s"] sublist_Cons_right)
qed

section \<open>Integers\<close>

fun nat_dec :: "nat \<Rightarrow> pystr" where
  "nat_dec n = (if n < 10 then [48 + n] else nat_dec (n div 10) @ [48 + n mod 10])"

declare nat_dec.simps [simp del]

text \<open>\<open>str(i)\<close>.\<close>

definition str_int :: "int \<Rightarrow> pystr" where
  "str_int i = (if i < 0 then 45 # nat_dec (nat (- i)) else nat_dec (nat i))"

abbreviation str_nat :: "nat \<Rightarrow> pystr" where
  "str_nat n \<equiv> str_int (int n)"

text \<open>
  \<open>int(s)\<close>: surrounding white space, one sign, ASCII digits with single underscores
  between them; \<open>None\<close> is \<open>ValueError\<close>.
\<close>

fun digits_value :: "nat \<Rightarrow> bool \<Rightarrow> pystr \<Rightarrow> nat option" where
  "digits_value acc after_digit [] = (if after_digit then Some acc else None)"
| "digits_value acc after_digit (c # s) =
     (if is_digit c then digits_value (10 * acc + (c - 48)) True s
      else if c = 95 \<and> after_digit then digits_value acc False s
      else None)"

definition parse_int :: "pystr \<Rightarrow> int option" where
  "parse_int s =
     (case strip s of
        [] \<Rightarrow> None
      | c # t \<Rightarrow>
          if c = 45 then map_option (\<lambda>n. - int n) (digits_value 0 False t)
          else if c = 43 then map_option int (digits_value 0 False t)
          else map_option int (digits_value 0 False (c # t)))"

lemma nat_dec_ne [simp]: "nat_dec n \<noteq> []"
  by (subst nat_dec.simps) simp

lemma nat_dec_digits: "c \<in> set (nat_dec n) \<Longrightarrow> is_digit c"
proof (induction n rule: nat_dec.induct)
  case (1 n)
  then show ?case
    by (subst (asm) (2) nat_dec.simps) (auto simp: is_digit_def split: if_splits)
qed

lemma digits_value_append:
  assumes "\<And>c. c \<in> set s \<Longrightarrow> is_digit c" and "s \<noteq> []"
  shows "digits_value acc b (s @ t) = digits_value (the (digits_value acc b s)) True t"
  using assms
proof (induction s arbitrary: acc b)
  case Nil
  then show ?case by simp
next
  case (Cons c s)
  then show ?case by (cases "s = []") auto
qed

lemma digits_value_nat_dec: "digits_value 0 False (nat_dec n) = Some n"
proof (induction n rule: nat_dec.induct)
  case (1 n)
  show ?case
  proof (cases "n < 10")
    case True
    then show ?thesis by (subst nat_dec.simps) (simp add: is_digit_def)
  next
    case False
    then have IH: "digits_value 0 False (nat_dec (n div 10)) = Some (n div 10)"
      by (rule 1)
    have "digits_value 0 False (nat_dec n)
        = digits_value 0 False (nat_dec (n div 10) @ [48 + n mod 10])"
      using False by (subst nat_dec.simps) simp
    also have "\<dots> = digits_value (n div 10) True [48 + n mod 10]"
      using IH by (subst digits_value_append) (auto dest: nat_dec_digits)
    also have "\<dots> = Some n" by (simp add: is_digit_def)
    finally show ?thesis .
  qed
qed

lemma strip_no_space: "(\<And>c. c \<in> set s \<Longrightarrow> \<not> is_space c) \<Longrightarrow> strip s = s"
proof -
  assume ns: "\<And>c. c \<in> set s \<Longrightarrow> \<not> is_space c"
  have "dropWhile is_space t = t" if "\<And>c. c \<in> set t \<Longrightarrow> \<not> is_space c" for t
    using that by (cases t) auto
  from this [of s] this [of "rev s"] ns show ?thesis
    by (simp add: strip_def lstrip_def rstrip_def)
qed

lemma is_digit_not_space: "is_digit c \<Longrightarrow> \<not> is_space c"
  by (auto simp: is_digit_def is_space_def)

lemma set_str_int: "c \<in> set (str_int i) \<Longrightarrow> is_digit c \<or> c = 45"
  by (auto simp: str_int_def dest: nat_dec_digits split: if_splits)

lemma strip_str_int: "strip (str_int i) = str_int i"
  by (rule strip_no_space) (auto dest!: set_str_int is_digit_not_space simp: is_space_def)

lemma parse_int_str_int: "parse_int (str_int i) = Some i"
proof (cases "i < 0")
  case True
  then show ?thesis
    by (simp add: parse_int_def strip_str_int) (simp add: str_int_def digits_value_nat_dec)
next
  case False
  obtain c t where ct: "nat_dec (nat i) = c # t" by (cases "nat_dec (nat i)") auto
  then have "is_digit c" using nat_dec_digits [of c "nat i"] by simp
  then have "c \<noteq> 45" "c \<noteq> 43" by (auto simp: is_digit_def)
  moreover have "strip (nat_dec (nat i)) = nat_dec (nat i)"
    using False strip_str_int [of i] by (simp add: str_int_def)
  ultimately show ?thesis
    using False digits_value_nat_dec [of "nat i"] ct by (simp add: parse_int_def str_int_def)
qed

lemma str_int_inject: "str_int i = str_int j \<longleftrightarrow> i = j"
  by (metis option.inject parse_int_str_int)

section \<open>repr and shlex.quote\<close>

text \<open>
  \<open>repr\<close> of a string. The quote is the apostrophe unless the text has an apostrophe and no
  quotation mark. Control characters up to 160 and the soft hyphen are escaped; above 255 every
  code point is taken as printable.
\<close>

definition hex_digit :: "nat \<Rightarrow> nat" where
  "hex_digit n = (if n < 10 then 48 + n else 87 + n)"

definition repr_char :: "nat \<Rightarrow> nat \<Rightarrow> pystr" where
  "repr_char q c =
     (if c = q \<or> c = 92 then [92, c]
      else if c = 9 then lit [CHR 0x5C, CHR ''t'']
      else if c = 10 then lit [CHR 0x5C, CHR ''n'']
      else if c = 13 then lit [CHR 0x5C, CHR ''r'']
      else if c < 32 \<or> 127 \<le> c \<and> c \<le> 160 \<or> c = 173 then
        [92, 120, hex_digit (c div 16), hex_digit (c mod 16)]
      else [c])"

definition py_repr :: "pystr \<Rightarrow> pystr" where
  "py_repr s =
     (let q = (if 39 \<in> set s \<and> 34 \<notin> set s then 34 else 39)
      in [q] @ concat (map (repr_char q) s) @ [q])"

text \<open>\<open>shlex.quote\<close>: the characters outside the ASCII class are quoted.\<close>

definition shlex_safe :: "nat \<Rightarrow> bool" where
  "shlex_safe c \<longleftrightarrow> c < 128 \<and> (is_word c \<or> c \<in> set (lit ''@%+=:,./-''))"

definition shlex_quote :: "pystr \<Rightarrow> pystr" where
  "shlex_quote s =
     (if s = [] then [39, 39]
      else if list_all shlex_safe s then s
      else [39] @ concat (map (\<lambda>c. if c = 39 then [39, 34, 39, 34, 39] else [c]) s) @ [39])"

definition shlex_join :: "pystr list \<Rightarrow> pystr" where
  "shlex_join argv = join [32] (map shlex_quote argv)"

end
