(* ===== verification/Values.thy ===== *)
theory Values
  imports PyText
begin

text \<open>
  The dynamic values that rows, findings and responses hold. A row of an MQSC reply or a
  diagnostic dictionary is a dictionary of scalars (\<open>cell\<close>); a tool response is a JSON
  value (\<open>pyval\<close>). The functions are the Python built-ins that the source applies to
  them: \<open>get\<close>, truth value, \<open>or\<close>, \<open>str\<close> and \<open>int\<close>.
\<close>

section \<open>Scalars\<close>

datatype cell = CNone | CBool bool | CInt int | CStr pystr

type_synonym row = "cell pydict"

text \<open>\<open>d.get(k)\<close> and \<open>d.get(k, default)\<close>.\<close>

definition get_d :: "row \<Rightarrow> pystr \<Rightarrow> cell \<Rightarrow> cell" where
  "get_d r k d = (case map_of r k of None \<Rightarrow> d | Some v \<Rightarrow> v)"

definition get :: "row \<Rightarrow> pystr \<Rightarrow> cell" where
  "get r k = get_d r k CNone"

fun truthy :: "cell \<Rightarrow> bool" where
  "truthy CNone = False"
| "truthy (CBool b) = b"
| "truthy (CInt i) = (i \<noteq> 0)"
| "truthy (CStr s) = (s \<noteq> [])"

text \<open>\<open>a or b\<close> on cells, on strings and on integers.\<close>

definition cell_or :: "cell \<Rightarrow> cell \<Rightarrow> cell" where
  "cell_or a b = (if truthy a then a else b)"

definition por :: "pystr \<Rightarrow> pystr \<Rightarrow> pystr" where
  "por a b = (if a = [] then b else a)"

fun str_cell :: "cell \<Rightarrow> pystr" where
  "str_cell CNone = lit ''None''"
| "str_cell (CBool b) = (if b then lit ''True'' else lit ''False'')"
| "str_cell (CInt i) = str_int i"
| "str_cell (CStr s) = s"

text \<open>\<open>int(v)\<close>; \<open>None\<close> stands for the \<open>TypeError\<close> or \<open>ValueError\<close>.\<close>

fun int_cell :: "cell \<Rightarrow> int option" where
  "int_cell CNone = None"
| "int_cell (CBool b) = Some (if b then 1 else 0)"
| "int_cell (CInt i) = Some i"
| "int_cell (CStr s) = parse_int s"

text \<open>\<open>try: int(v) except (TypeError, ValueError): default\<close>.\<close>

definition int_or :: "cell \<Rightarrow> int \<Rightarrow> int" where
  "int_or v d = (case int_cell v of None \<Rightarrow> d | Some i \<Rightarrow> i)"

lemma get_d_Nil [simp]: "get_d [] k d = d"
  by (simp add: get_d_def)

lemma get_d_Cons: "get_d ((k', v) # r) k d = (if k = k' then v else get_d r k d)"
  by (auto simp: get_d_def)

lemma get_d_dict_set: "get_d (dict_set k v r) k' d = (if k' = k then v else get_d r k' d)"
  by (simp add: get_d_def)

lemma get_d_cases: "get_d r k d = d \<or> (\<exists>v. (k, v) \<in> set r \<and> get_d r k d = v)"
  by (auto simp: get_d_def split: option.splits dest: map_of_SomeD)

lemma set_por: "set (por a b) \<subseteq> set a \<union> set b"
  by (simp add: por_def)

lemma int_cell_str [simp]: "int_cell (CStr (str_int i)) = Some i"
  by (simp add: parse_int_str_int)

section \<open>JSON values\<close>

datatype pyval =
    PNone
  | PBool bool
  | PInt int
  | PStr pystr
  | PList "pyval list"
  | PTuple "pyval list"
  | PDict "(pystr \<times> pyval) list"

fun of_cell :: "cell \<Rightarrow> pyval" where
  "of_cell CNone = PNone"
| "of_cell (CBool b) = PBool b"
| "of_cell (CInt i) = PInt i"
| "of_cell (CStr s) = PStr s"

definition of_row :: "row \<Rightarrow> pyval" where
  "of_row r = PDict (map (\<lambda>(k, v). (k, of_cell v)) r)"

definition of_strs :: "pystr list \<Rightarrow> pyval" where
  "of_strs ss = PList (map PStr ss)"

fun of_opt_str :: "pystr option \<Rightarrow> pyval" where
  "of_opt_str None = PNone"
| "of_opt_str (Some s) = PStr s"

fun of_opt_int :: "int option \<Rightarrow> pyval" where
  "of_opt_int None = PNone"
| "of_opt_int (Some i) = PInt i"

text \<open>Every string of a value, keys aside.\<close>

fun strings_of :: "pyval \<Rightarrow> pystr list" where
  "strings_of (PStr s) = [s]"
| "strings_of (PList vs) = concat (map strings_of vs)"
| "strings_of (PTuple vs) = concat (map strings_of vs)"
| "strings_of (PDict kvs) = concat (map (\<lambda>kv. strings_of (snd kv)) kvs)"
| "strings_of _ = []"

text \<open>Lookup of a key in a dictionary value.\<close>

fun pv_get :: "pyval \<Rightarrow> pystr \<Rightarrow> pyval option" where
  "pv_get (PDict kvs) k = map_of kvs k"
| "pv_get _ k = None"

end
