(* ===== verification/KCRegistry.thy ===== *)
theory KCRegistry
  imports Values
begin

text \<open>
  \<open>rcs/kc_registry.py\<close>: the curated table from reason codes, message codes and topics to
  pages of the IBM documentation, with its version filter. The lemmas show that every page
  passes the constructor's host check and that the filter never loses all references.
\<close>

record kc_doc_ref =
  doc_title :: pystr
  doc_url :: pystr
  mq_versions :: "pystr list"

definition allowed_hosts :: "pystr list" where
  "allowed_hosts = [lit ''www.ibm.com'']"

text \<open>\<open>KCDocRef.__post_init__\<close>.\<close>

definition doc_ref_post_init :: "kc_doc_ref \<Rightarrow> exn + unit" where
  "doc_ref_post_init r =
     (if \<not> list_ex (\<lambda>h. sublist (lit ''://'' @ h @
       lit ''/'') (doc_url r)) allowed_hosts
      then Inl (ValueError (lit ''KC URL host not in allowlist: '' @ doc_url r))
      else Inr ())"

record kc_registry =
  by_reason :: "(int \<times> kc_doc_ref list) list"
  by_amq :: "kc_doc_ref list pydict"
  by_topic :: "kc_doc_ref list pydict"

definition reason_table :: "(int \<times> kc_doc_ref list) list" where
  "reason_table =
    [(2035,
      [\<lparr> doc_title = lit ''2035 (07F3) MQRC_NOT_AUTHORIZED'',
         doc_url = lit ''https://www.ibm.com/docs/en/ibm-mq/9.4?topic=codes-2035-07f3-rc2035-mqrc-not-authorized'',
         mq_versions = [lit ''9.2'', lit ''9.3'', lit ''9.4''] \<rparr>]),
     (2033,
      [\<lparr> doc_title = lit ''2033 (07F1) MQRC_NO_MSG_AVAILABLE'',
         doc_url = lit ''https://www.ibm.com/docs/en/ibm-mq/9.4?topic=codes-2033-07f1-rc2033-mqrc-no-msg-available'',
         mq_versions = [lit ''9.2'', lit ''9.3'', lit ''9.4''] \<rparr>]),
     (2080,
      [\<lparr> doc_title = lit ''2080 (0820) MQRC_TRUNCATED_MSG_FAILED'',
         doc_url = lit ''https://www.ibm.com/docs/en/ibm-mq/9.4?topic=codes-2080-0820-rc2080-mqrc-truncated-msg-failed'',
         mq_versions = [lit ''9.2'', lit ''9.3'', lit ''9.4''] \<rparr>]),
     (2030,
      [\<lparr> doc_title = lit ''2030 (07EE) MQRC_MSG_TOO_BIG_FOR_Q'',
         doc_url = lit ''https://www.ibm.com/docs/en/ibm-mq/9.4?topic=codes-2030-07ee-rc2030-mqrc-msg-too-big-q'',
         mq_versions = [lit ''9.2'', lit ''9.3'', lit ''9.4''] \<rparr>]),
     (2051,
      [\<lparr> doc_title = lit ''2051 (0803) MQRC_PUT_INHIBITED'',
         doc_url = lit ''https://www.ibm.com/docs/en/ibm-mq/9.4?topic=codes-2051-0803-rc2051-mqrc-put-inhibited'',
         mq_versions = [lit ''9.2'', lit ''9.3'', lit ''9.4''] \<rparr>]),
     (2053,
      [\<lparr> doc_title = lit ''2053 (0805) MQRC_Q_FULL'',
         doc_url = lit ''https://www.ibm.com/docs/en/ibm-mq/9.4?topic=codes-2053-0805-rc2053-mqrc-q-full'',
         mq_versions = [lit ''9.2'', lit ''9.3'', lit ''9.4''] \<rparr>]),
     (2079,
      [\<lparr> doc_title = lit ''2079 (081F) MQRC_TRUNCATED_MSG_ACCEPTED'',
         doc_url = lit ''https://www.ibm.com/docs/en/ibm-mq/9.4?topic=codes-2079-081f-rc2079-mqrc-truncated-msg-accepted'',
         mq_versions = [lit ''9.2'', lit ''9.3'', lit ''9.4''] \<rparr>]),
     (2009,
      [\<lparr> doc_title = lit ''2009 (07D9) MQRC_CONNECTION_BROKEN'',
         doc_url = lit ''https://www.ibm.com/docs/en/ibm-mq/9.4?topic=codes-2009-07d9-rc2009-mqrc-connection-broken'',
         mq_versions = [lit ''9.2'', lit ''9.3'', lit ''9.4''] \<rparr>]),
     (2058,
      [\<lparr> doc_title = lit ''2058 (080A) MQRC_Q_MGR_NAME_ERROR'',
         doc_url = lit ''https://www.ibm.com/docs/en/ibm-mq/9.4?topic=codes-2058-080a-rc2058-mqrc-q-mgr-name-error'',
         mq_versions = [lit ''9.2'', lit ''9.3'', lit ''9.4''] \<rparr>]),
     (2059,
      [\<lparr> doc_title = lit ''2059 (080B) MQRC_Q_MGR_NOT_AVAILABLE'',
         doc_url = lit ''https://www.ibm.com/docs/en/ibm-mq/9.4?topic=codes-2059-080b-rc2059-mqrc-q-mgr-not-available'',
         mq_versions = [lit ''9.2'', lit ''9.3'', lit ''9.4''] \<rparr>]),
     (2161,
      [\<lparr> doc_title = lit ''2161 (0871) MQRC_Q_MGR_QUIESCING'',
         doc_url = lit ''https://www.ibm.com/docs/en/ibm-mq/9.4?topic=codes-2161-0871-rc2161-mqrc-q-mgr-quiescing'',
         mq_versions = [lit ''9.2'', lit ''9.3'', lit ''9.4''] \<rparr>]),
     (2162,
      [\<lparr> doc_title = lit ''2162 (0872) MQRC_Q_MGR_STOPPING'',
         doc_url = lit ''https://www.ibm.com/docs/en/ibm-mq/9.4?topic=codes-2162-0872-rc2162-mqrc-q-mgr-stopping'',
         mq_versions = [lit ''9.2'', lit ''9.3'', lit ''9.4''] \<rparr>]),
     (2085,
      [\<lparr> doc_title = lit ''2085 (0825) MQRC_UNKNOWN_OBJECT_NAME'',
         doc_url = lit ''https://www.ibm.com/docs/en/ibm-mq/9.4?topic=codes-2085-0825-rc2085-mqrc-unknown-object-name'',
         mq_versions = [lit ''9.2'', lit ''9.3'', lit ''9.4''] \<rparr>]),
     (2087,
      [\<lparr> doc_title = lit ''2087 (0827) MQRC_UNKNOWN_REMOTE_Q_MGR'',
         doc_url = lit ''https://www.ibm.com/docs/en/ibm-mq/9.4?topic=codes-2087-0827-rc2087-mqrc-unknown-remote-q-mgr'',
         mq_versions = [lit ''9.2'', lit ''9.3'', lit ''9.4''] \<rparr>]),
     (2189,
      [\<lparr> doc_title = lit ''2189 (088D) MQRC_CLUSTER_RESOLUTION_ERROR'',
         doc_url = lit ''https://www.ibm.com/docs/en/ibm-mq/9.4?topic=codes-2189-088d-rc2189-mqrc-cluster-resolution-error'',
         mq_versions = [lit ''9.2'', lit ''9.3'', lit ''9.4''] \<rparr>]),
     (2016,
      [\<lparr> doc_title = lit ''2016 (07E0) MQRC_GET_INHIBITED'',
         doc_url = lit ''https://www.ibm.com/docs/en/ibm-mq/9.4?topic=codes-2016-07e0-rc2016-mqrc-get-inhibited'',
         mq_versions = [lit ''9.2'', lit ''9.3'', lit ''9.4''] \<rparr>]),
     (2192,
      [\<lparr> doc_title = lit ''2192 (0890) MQRC_PAGESET_FULL (STORAGE_MEDIUM_FULL)'',
         doc_url = lit ''https://www.ibm.com/docs/en/ibm-mq/9.4?topic=codes-2192-0890-rc2192-mqrc-storage-medium-full'',
         mq_versions = [lit ''9.2'', lit ''9.3'', lit ''9.4''] \<rparr>]),
     (2042,
      [\<lparr> doc_title = lit ''2042 (07FA) MQRC_OBJECT_IN_USE'',
         doc_url = lit ''https://www.ibm.com/docs/en/ibm-mq/9.4?topic=codes-2042-07fa-rc2042-mqrc-object-in-use'',
         mq_versions = [lit ''9.2'', lit ''9.3'', lit ''9.4''] \<rparr>]),
     (2393,
      [\<lparr> doc_title = lit ''2393 (0959) MQRC_SSL_INITIALIZATION_ERROR'',
         doc_url = lit ''https://www.ibm.com/docs/en/ibm-mq/9.4?topic=codes-2393-0959-rc2393-mqrc-ssl-initialization-error'',
         mq_versions = [lit ''9.2'', lit ''9.3'', lit ''9.4''] \<rparr>]),
     (2397,
      [\<lparr> doc_title = lit ''2397 (095D) MQRC_JSSE_ERROR'',
         doc_url = lit ''https://www.ibm.com/docs/en/ibm-mq/9.4?topic=codes-2397-095d-rc2397-mqrc-jsse-error'',
         mq_versions = [lit ''9.2'', lit ''9.3'', lit ''9.4''] \<rparr>]),
     (2400,
      [\<lparr> doc_title = lit ''2400 (0960) MQRC_UNSUPPORTED_CIPHER_SUITE'',
         doc_url = lit ''https://www.ibm.com/docs/en/ibm-mq/9.4?topic=codes-2400-0960-rc2400-mqrc-unsupported-cipher-suite'',
         mq_versions = [lit ''9.2'', lit ''9.3'', lit ''9.4''] \<rparr>])]"

definition amq_table :: "kc_doc_ref list pydict" where
  "amq_table =
    [(lit ''AMQ9202'',
      [\<lparr> doc_title = lit ''AMQ9202E: Remote host not available'',
         doc_url = lit ''https://www.ibm.com/docs/en/ibm-mq/9.4?topic=messages-amq9202e'',
         mq_versions = [lit ''9.2'', lit ''9.3'', lit ''9.4''] \<rparr>]),
     (lit ''AMQ9208'',
      [\<lparr> doc_title = lit ''AMQ9208E: Error on receive from host'',
         doc_url = lit ''https://www.ibm.com/docs/en/ibm-mq/9.4?topic=messages-amq9208e'',
         mq_versions = [lit ''9.2'', lit ''9.3'', lit ''9.4''] \<rparr>]),
     (lit ''AMQ9503'',
      [\<lparr> doc_title = lit ''AMQ9503E: Channel negotiation failed'',
         doc_url = lit ''https://www.ibm.com/docs/en/ibm-mq/9.4?topic=messages-amq9503e'',
         mq_versions = [lit ''9.2'', lit ''9.3'', lit ''9.4''] \<rparr>]),
     (lit ''AMQ9456'',
      [\<lparr> doc_title = lit ''AMQ9456E: Update not received from full repository'',
         doc_url = lit ''https://www.ibm.com/docs/en/ibm-mq/9.4?topic=messages-amq9456e'',
         mq_versions = [lit ''9.2'', lit ''9.3'', lit ''9.4''] \<rparr>]),
     (lit ''AMQ9484'',
      [\<lparr> doc_title = lit ''AMQ9484E: Cluster channel error'',
         doc_url = lit ''https://www.ibm.com/docs/en/ibm-mq/9.4?topic=messages-amq9484e'',
         mq_versions = [lit ''9.2'', lit ''9.3'', lit ''9.4''] \<rparr>]),
     (lit ''AMQ9508'',
      [\<lparr> doc_title = lit ''AMQ9508E: Program cannot connect to queue manager'',
         doc_url = lit ''https://www.ibm.com/docs/en/ibm-mq/9.4?topic=messages-amq9508e'',
         mq_versions = [lit ''9.2'', lit ''9.3'', lit ''9.4''] \<rparr>]),
     (lit ''AMQ9764'',
      [\<lparr> doc_title = lit ''AMQ9764E: Cluster send channel not started'',
         doc_url = lit ''https://www.ibm.com/docs/en/ibm-mq/9.4?topic=messages-amq9764e'',
         mq_versions = [lit ''9.2'', lit ''9.3'', lit ''9.4''] \<rparr>]),
     (lit ''AMQ3209'',
      [\<lparr> doc_title = lit ''AMQ3209I: Native HA replica is not in sync'',
         doc_url = lit ''https://www.ibm.com/docs/en/ibm-mq/9.4?topic=messages-amq3209i'',
         mq_versions = [lit ''9.3'', lit ''9.4''] \<rparr>])]"

definition topic_table :: "kc_doc_ref list pydict" where
  "topic_table =
    [(lit ''cluster_partial_repository'',
      [\<lparr> doc_title = lit ''Repositories in a cluster'',
         doc_url = lit ''https://www.ibm.com/docs/en/ibm-mq/9.4?topic=clusters-cluster-repositories'',
         mq_versions = [lit ''9.2'', lit ''9.3'', lit ''9.4''] \<rparr>]),
     (lit ''cluster_refresh'',
      [\<lparr> doc_title = lit ''REFRESH CLUSTER (refresh cluster)'',
         doc_url = lit ''https://www.ibm.com/docs/en/ibm-mq/9.4?topic=commands-refresh-cluster'',
         mq_versions = [lit ''9.2'', lit ''9.3'', lit ''9.4''] \<rparr>]),
     (lit ''cluster_stale_entry'',
      [\<lparr> doc_title = lit ''Troubleshooting cluster problems'',
         doc_url = lit ''https://www.ibm.com/docs/en/ibm-mq/9.4?topic=clusters-troubleshooting'',
         mq_versions = [lit ''9.2'', lit ''9.3'', lit ''9.4''] \<rparr>]),
     (lit ''native_ha_overview'',
      [\<lparr> doc_title = lit ''Native HA'',
         doc_url = lit ''https://www.ibm.com/docs/en/ibm-mq/9.4?topic=ha-native'',
         mq_versions = [lit ''9.3'', lit ''9.4''] \<rparr>]),
     (lit ''native_ha_quorum_lost'',
      [\<lparr> doc_title = lit ''Troubleshooting Native HA'',
         doc_url = lit ''https://www.ibm.com/docs/en/ibm-mq/9.4?topic=ha-troubleshooting-native'',
         mq_versions = [lit ''9.3'', lit ''9.4''] \<rparr>]),
     (lit ''native_ha_log_replication'',
      [\<lparr> doc_title = lit ''Native HA log replication'',
         doc_url = lit ''https://www.ibm.com/docs/en/ibm-mq/9.4?topic=native-ha-log-replication'',
         mq_versions = [lit ''9.3'', lit ''9.4''] \<rparr>]),
     (lit ''native_ha_crr'',
      [\<lparr> doc_title = lit ''Cross-region replication for Native HA'',
         doc_url = lit ''https://www.ibm.com/docs/en/ibm-mq/9.4?topic=ha-cross-region-replication'',
         mq_versions = [lit ''9.4''] \<rparr>]),
     (lit ''rdqm_overview'',
      [\<lparr> doc_title = lit ''RDQM high availability'',
         doc_url = lit ''https://www.ibm.com/docs/en/ibm-mq/9.4?topic=availability-rdqm-high'',
         mq_versions = [lit ''9.2'', lit ''9.3'', lit ''9.4''] \<rparr>]),
     (lit ''rdqm_troubleshooting'',
      [\<lparr> doc_title = lit ''Troubleshooting RDQM'',
         doc_url = lit ''https://www.ibm.com/docs/en/ibm-mq/9.4?topic=rdqm-troubleshooting'',
         mq_versions = [lit ''9.2'', lit ''9.3'', lit ''9.4''] \<rparr>]),
     (lit ''rdqm_split_brain'',
      [\<lparr> doc_title = lit ''Resolving DRBD split-brain on RDQM'',
         doc_url = lit ''https://www.ibm.com/docs/en/ibm-mq/9.4?topic=rdqm-resolving-drbd-split-brain'',
         mq_versions = [lit ''9.2'', lit ''9.3'', lit ''9.4''] \<rparr>]),
     (lit ''rdqm_pacemaker'',
      [\<lparr> doc_title = lit ''Pacemaker on RDQM'',
         doc_url = lit ''https://www.ibm.com/docs/en/ibm-mq/9.4?topic=rdqm-pacemaker'',
         mq_versions = [lit ''9.2'', lit ''9.3'', lit ''9.4''] \<rparr>]),
     (lit ''zos_qsg_overview'',
      [\<lparr> doc_title = lit ''Queue sharing groups (z/OS)'',
         doc_url = lit ''https://www.ibm.com/docs/en/ibm-mq/9.4?topic=zos-queue-sharing-groups'',
         mq_versions = [lit ''9.2'', lit ''9.3'', lit ''9.4''] \<rparr>]),
     (lit ''zos_chin'',
      [\<lparr> doc_title = lit ''The channel initiator on z/OS'',
         doc_url = lit ''https://www.ibm.com/docs/en/ibm-mq/9.4?topic=zos-channel-initiator'',
         mq_versions = [lit ''9.2'', lit ''9.3'', lit ''9.4''] \<rparr>]),
     (lit ''zos_pageset'',
      [\<lparr> doc_title = lit ''Managing page sets on z/OS'',
         doc_url = lit ''https://www.ibm.com/docs/en/ibm-mq/9.4?topic=zos-managing-page-sets'',
         mq_versions = [lit ''9.2'', lit ''9.3'', lit ''9.4''] \<rparr>]),
     (lit ''zos_bufferpool'',
      [\<lparr> doc_title = lit ''Buffer pools on z/OS'',
         doc_url = lit ''https://www.ibm.com/docs/en/ibm-mq/9.4?topic=zos-buffer-pools'',
         mq_versions = [lit ''9.2'', lit ''9.3'', lit ''9.4''] \<rparr>]),
     (lit ''zos_cf_structure'',
      [\<lparr> doc_title = lit ''Coupling facility structures (z/OS)'',
         doc_url = lit ''https://www.ibm.com/docs/en/ibm-mq/9.4?topic=zos-coupling-facility-structures'',
         mq_versions = [lit ''9.2'', lit ''9.3'', lit ''9.4''] \<rparr>]),
     (lit ''miqm_overview'',
      [\<lparr> doc_title = lit ''Multi-instance queue managers'',
         doc_url = lit ''https://www.ibm.com/docs/en/ibm-mq/9.4?topic=availability-multi-instance-queue-managers'',
         mq_versions = [lit ''9.2'', lit ''9.3'', lit ''9.4''] \<rparr>]),
     (lit ''miqm_troubleshooting'',
      [\<lparr> doc_title = lit ''Troubleshooting multi-instance queue managers'',
         doc_url = lit ''https://www.ibm.com/docs/en/ibm-mq/9.4?topic=availability-troubleshooting-multi-instance'',
         mq_versions = [lit ''9.2'', lit ''9.3'', lit ''9.4''] \<rparr>])]"

definition default_registry :: kc_registry where
  "default_registry = \<lparr> by_reason = reason_table, by_amq = amq_table, by_topic = topic_table \<rparr>"

section \<open>Lookups\<close>

text \<open>\<open>d.get(k, [])\<close> on a table.\<close>

definition refs_at :: "('k \<times> kc_doc_ref list) list \<Rightarrow> 'k \<Rightarrow> kc_doc_ref list" where
  "refs_at t k = (case map_of t k of None \<Rightarrow> [] | Some rs \<Rightarrow> rs)"

text \<open>\<open>".".join(version.split(".")[:2])\<close>.\<close>

definition major_minor :: "pystr \<Rightarrow> pystr" where
  "major_minor v = join (lit ''.'') (take 2 (split_on 46 v))"

definition filter_version :: "kc_doc_ref list \<Rightarrow> pystr option \<Rightarrow> kc_doc_ref list" where
  "filter_version refs version =
     (case version of
        None \<Rightarrow> refs
      | Some v \<Rightarrow>
          if v = [] then refs
          else let kept = filter (\<lambda>r. major_minor v \<in> set (mq_versions r)) refs
               in if kept = [] then refs else kept)"

definition lookup_reason :: "kc_registry \<Rightarrow> int \<Rightarrow> pystr option \<Rightarrow> kc_doc_ref list" where
  "lookup_reason registry reason mq_version = filter_version (refs_at (by_reason registry) reason) mq_version"

definition lookup_amq :: "kc_registry \<Rightarrow> pystr \<Rightarrow> pystr option \<Rightarrow> kc_doc_ref list" where
  "lookup_amq registry code mq_version = filter_version (refs_at (by_amq registry) (upper code)) mq_version"

definition lookup_topic :: "kc_registry \<Rightarrow> pystr \<Rightarrow> pystr option \<Rightarrow> kc_doc_ref list" where
  "lookup_topic registry topic mq_version = filter_version (refs_at (by_topic registry) topic) mq_version"

text \<open>\<open>seen.setdefault(ref.url, ref)\<close> over the three tables.\<close>

definition set_default :: "kc_doc_ref \<Rightarrow> kc_doc_ref pydict \<Rightarrow> kc_doc_ref pydict" where
  "set_default r seen = (if map_of seen (doc_url r) = None then seen @ [(doc_url r, r)] else seen)"

definition bucket_refs :: "('k \<times> kc_doc_ref list) list \<Rightarrow> kc_doc_ref list" where
  "bucket_refs t = concat (map snd t)"

definition registry_refs :: "kc_registry \<Rightarrow> kc_doc_ref list" where
  "registry_refs registry =
     bucket_refs (by_reason registry) @ bucket_refs (by_amq registry) @
       bucket_refs (by_topic registry)"

definition all_refs :: "kc_registry \<Rightarrow> kc_doc_ref list" where
  "all_refs registry = map snd (fold set_default (registry_refs registry) [])"

definition reason_codes :: "kc_registry \<Rightarrow> int list" where
  "reason_codes registry = sort (map fst (by_reason registry))"

definition amq_codes :: "kc_registry \<Rightarrow> pystr list" where
  "amq_codes registry = sort (map fst (by_amq registry))"

section \<open>The version filter\<close>

lemma filter_version_sub: "set (filter_version refs v) \<subseteq> set refs"
  by (auto simp: filter_version_def Let_def split: option.splits if_splits)

lemma filter_version_ne: "filter_version refs v = [] \<longleftrightarrow> refs = []"
  by (auto simp: filter_version_def Let_def split: option.splits)

lemma refs_at_sub: "set (refs_at t k) \<subseteq> set (bucket_refs t)"
  by (auto simp: refs_at_def bucket_refs_def split: option.splits dest!: sym [of "Some _"] map_of_SomeD)

lemma lookups_sub:
  "set (lookup_reason registry c v) \<subseteq> set (registry_refs registry)"
  "set (lookup_amq registry a v) \<subseteq> set (registry_refs registry)"
  "set (lookup_topic registry t v) \<subseteq> set (registry_refs registry)"
proof -
  have "set (filter_version (refs_at t k) v) \<subseteq> set (bucket_refs t)"
    for t :: "('k \<times> kc_doc_ref list) list" and k
    using filter_version_sub refs_at_sub by (rule subset_trans)
  note sub = this
  show "set (lookup_reason registry c v) \<subseteq> set (registry_refs registry)"
    unfolding lookup_reason_def registry_refs_def set_append using sub by (rule le_supI1)
  show "set (lookup_amq registry a v) \<subseteq> set (registry_refs registry)"
    unfolding lookup_amq_def registry_refs_def set_append using sub by (intro le_supI2 le_supI1)
  show "set (lookup_topic registry t v) \<subseteq> set (registry_refs registry)"
    unfolding lookup_topic_def registry_refs_def set_append using sub by (intro le_supI2)
qed

section \<open>Every reference\<close>

text \<open>
  What holds of the dictionary \<open>seen\<close> while the references \<open>done\<close> have been entered.
\<close>

definition seen_ok :: "kc_doc_ref pydict \<Rightarrow> kc_doc_ref list \<Rightarrow> bool" where
  "seen_ok seen rs \<longleftrightarrow>
     distinct (map fst seen) \<and> list_all (\<lambda>(u, r). u = doc_url r \<and> r \<in> set rs) seen \<and>
     fst ` set seen = doc_url ` set rs"

lemma set_default_ok: "seen_ok seen rs \<Longrightarrow> seen_ok (set_default r seen) (rs @ [r])"
  by (force simp: seen_ok_def set_default_def list_all_iff map_of_eq_None_iff
      dest: map_of_SomeD)

lemma fold_set_default: "seen_ok seen rs \<Longrightarrow> seen_ok (fold set_default refs seen) (rs @
  refs)"
proof (induction refs arbitrary: seen rs)
  case Nil
  then show ?case by simp
next
  case (Cons r refs)
  from Cons.IH [OF set_default_ok [OF Cons.prems]] show ?case by simp
qed

lemma seen_ok_urls: "seen_ok seen rs \<Longrightarrow> map doc_url (map snd seen) = map fst seen"
  by (auto simp: seen_ok_def list_all_iff)

section \<open>Properties\<close>

text \<open>The seeded tables.\<close>

lemma ibm_url:
  "sublist (lit ''://'' @ lit ''www.ibm.com'' @ lit ''/'')
     (lit (''https'' @ ''://'' @ ''www.ibm.com'' @ ''/'' @ s))"
  unfolding lit_append sublist_def by (intro exI [of _ "lit ''https''"] exI [of _ "lit s"]) simp

lemma ibm_hosted [simp]:
  "doc_ref_post_init \<lparr> doc_title = t,
     doc_url = lit (CHR ''h'' # CHR ''t'' # CHR ''t'' # CHR ''p'' # CHR ''s'' # CHR '':'' # CHR ''/'' #
       CHR ''/'' # CHR ''w'' # CHR ''w'' # CHR ''w'' # CHR ''.'' # CHR ''i'' # CHR ''b'' # CHR ''m'' #
       CHR ''.'' # CHR ''c'' # CHR ''o'' # CHR ''m'' # CHR ''/'' # s),
     mq_versions = vs \<rparr> = Inr ()"
proof -
  have "''https'' @ ''://'' @ ''www.ibm.com'' @ ''/'' @ s =
      CHR ''h'' # CHR ''t'' # CHR ''t'' # CHR ''p'' # CHR ''s'' # CHR '':'' # CHR ''/'' #
       CHR ''/'' # CHR ''w'' # CHR ''w'' # CHR ''w'' # CHR ''.'' # CHR ''i'' # CHR ''b'' # CHR ''m'' #
       CHR ''.'' # CHR ''c'' # CHR ''o'' # CHR ''m'' # CHR ''/'' # s" by simp
  with ibm_url [of s] show ?thesis by (simp only:) (simp add: doc_ref_post_init_def allowed_hosts_def)
qed

lemma tables_hosted:
  "list_all (\<lambda>r. doc_ref_post_init r = Inr ()) (bucket_refs reason_table)"
  "list_all (\<lambda>r. doc_ref_post_init r = Inr ()) (bucket_refs amq_table)"
  "list_all (\<lambda>r. doc_ref_post_init r = Inr ()) (bucket_refs topic_table)"
  by (simp_all add: bucket_refs_def reason_table_def amq_table_def topic_table_def)

text \<open>Every documentation reference that the seeded registry can return, for any reason
  code, message code or topic and any queue manager version, passes the constructor's host check,
  so constructing the registry raises nothing and no finding links to another host's page.\<close>
theorem registry_links_hosted:
  assumes "r \<in> set (lookup_reason default_registry c v) \<or> r \<in> set (lookup_amq default_registry a v) \<or>
    r \<in> set (lookup_topic default_registry t v)"
  shows "doc_ref_post_init r = Inr () \<and> sublist (lit ''://www.ibm.com/'') (doc_url r)"
proof -
  have "r \<in> set (registry_refs default_registry)"
    using assms lookups_sub by blast
  then have ok: "doc_ref_post_init r = Inr ()"
    using tables_hosted by (auto simp: registry_refs_def default_registry_def list_all_iff)
  moreover have "lit ''://'' @ lit ''www.ibm.com'' @ lit ''/'' = lit ''://www.ibm.com/''"
    by (simp add: lit_append [symmetric])
  ultimately show ?thesis
    by (auto simp: doc_ref_post_init_def allowed_hosts_def split: if_splits)
qed

lemma registry_links_hosted_witness:
  "doc_ref_post_init (hd (lookup_reason default_registry 2035 (Some (lit ''9.4'')))) = Inr ()"
proof -
  have "lookup_reason default_registry 2035 (Some (lit ''9.4'')) \<noteq> []"
    by (simp add: lookup_reason_def filter_version_ne refs_at_def default_registry_def reason_table_def)
  then show ?thesis
    using registry_links_hosted [of "hd (lookup_reason default_registry 2035 (Some (lit ''9.4'')))"
        2035 "Some (lit ''9.4'')"] by simp
qed

text \<open>The version filter never hides a documented code: a lookup is empty only when the
  table has no entry for the code, and otherwise returns references of that entry which all name
  the requested version, or the whole entry when none does.\<close>
theorem version_filter_total:
  "(lookup_reason registry c v = [] \<longleftrightarrow> refs_at (by_reason registry) c = []) \<and>
   (lookup_reason registry c (Some ver) = refs_at (by_reason registry) c \<or>
    ver \<noteq> [] \<and> lookup_reason registry c (Some ver) =
      filter (\<lambda>r. major_minor ver \<in> set (mq_versions r)) (refs_at (by_reason registry) c))"
  by (simp add: lookup_reason_def filter_version_ne) (simp add: filter_version_def Let_def)

text \<open>\<open>all_refs\<close> lists every page of the three tables exactly once: no two entries share a
  URL, every entry comes from a table, and every URL of a table is listed.\<close>
theorem all_refs_deduplicated:
  "distinct (map doc_url (all_refs registry)) \<and>
   set (all_refs registry) \<subseteq> set (registry_refs registry) \<and>
   doc_url ` set (all_refs registry) = doc_url ` set (registry_refs registry)"
proof -
  have "seen_ok [] []" by (simp add: seen_ok_def)
  from fold_set_default [OF this, of "registry_refs registry"]
  have ok: "seen_ok (fold set_default (registry_refs registry) []) (registry_refs registry)" by simp
  note urls = seen_ok_urls [OF ok]
  from ok have "set (all_refs registry) \<subseteq> set (registry_refs registry)"
    by (auto simp: all_refs_def seen_ok_def list_all_iff)
  moreover have "distinct (map doc_url (all_refs registry))"
    unfolding all_refs_def urls using ok by (simp only: seen_ok_def)
  moreover have "doc_url ` set (all_refs registry) = doc_url ` set (registry_refs registry)"
  proof -
    have "doc_url ` set (all_refs registry) = set (map doc_url (all_refs registry))" by simp
    also have "\<dots> = fst ` set (fold set_default (registry_refs registry) [])"
      unfolding all_refs_def urls by simp
    also have "\<dots> = doc_url ` set (registry_refs registry)"
      using ok by (simp add: seen_ok_def)
    finally show ?thesis .
  qed
  ultimately show ?thesis by blast
qed

end
