(* ===== verification/Regex.thy ===== *)
theory Regex
  imports PyText
begin

text \<open>
  The part of Python's \<open>re\<close> module that the source uses: a backtracking matcher over
  patterns built from character classes, sequences, ordered alternatives, greedy and lazy
  stars, groups and anchors.

  \<open>rx_run\<close> returns every way a pattern can match at a position in the order in which
  the backtracking engine tries them, so the head of the list is the engine's answer.
  \<open>rx_rel\<close> is the declarative meaning of a pattern, and \<open>rx_run_iff_rel\<close> shows that
  the matcher finds exactly the declarative matches. The rest derives what the clients
  use: where a match lies, which characters it can consume, and what substitution does.
\<close>

section \<open>Patterns\<close>

text \<open>
  \<open>RBos\<close> is \<open>^\<close>, \<open>REos\<close> is \<open>$\<close> (the end, or just before a final newline); \<open>RBol\<close> and
  \<open>REol\<close> are the same anchors under \<open>re.MULTILINE\<close>. \<open>RWordB\<close> is \<open>\\b\<close>, \<open>RBehind P\<close>
  a look-behind of one character, \<open>RAhead r\<close> a look-ahead.
\<close>

datatype rx =
    REps
  | RCls "nat \<Rightarrow> bool"
  | RSeq rx rx
  | RAlt rx rx
  | RStar rx
  | RLazy rx
  | RGrp nat rx
  | RBos
  | REos
  | RBol
  | REol
  | RWordB
  | RBehind "nat \<Rightarrow> bool"
  | RAhead rx

text \<open>
  A matcher state: the text before the position (nearest character first), the text
  after it, and the groups captured so far (latest first).
\<close>

type_synonym mstate = "pystr \<times> pystr \<times> (nat \<times> pystr) list"

definition at_word_boundary :: "pystr \<Rightarrow> pystr \<Rightarrow> bool" where
  "at_word_boundary b a \<longleftrightarrow>
     ((b \<noteq> [] \<and> is_word (hd b)) \<noteq> (a \<noteq> [] \<and> is_word (hd a)))"

text \<open>
  The greedy star tries the body first and stops last, the lazy star the other way round.
  An iteration that consumes nothing is not repeated. The first argument bounds the number
  of iterations; the remaining length is always enough (\<open>rx_run_star\<close>, \<open>rx_run_lazy\<close>).
\<close>

fun star_run :: "nat \<Rightarrow> (mstate \<Rightarrow> mstate list) \<Rightarrow> mstate \<Rightarrow> mstate list" where
  "star_run 0 f s = [s]"
| "star_run (Suc n) f s =
     concat (map (star_run n f) (filter (\<lambda>t. length (fst (snd t)) < length (fst (snd s))) (f s))) @ [s]"

fun lazy_run :: "nat \<Rightarrow> (mstate \<Rightarrow> mstate list) \<Rightarrow> mstate \<Rightarrow> mstate list" where
  "lazy_run 0 f s = [s]"
| "lazy_run (Suc n) f s =
     s # concat (map (lazy_run n f) (filter (\<lambda>t. length (fst (snd t)) < length (fst (snd s))) (f s)))"

primrec rx_run :: "rx \<Rightarrow> mstate \<Rightarrow> mstate list" where
  "rx_run REps s = [s]"
| "rx_run (RCls P) s =
     (case s of (b, a, g) \<Rightarrow>
        (case a of [] \<Rightarrow> [] | c # a' \<Rightarrow> if P c then [(c # b, a', g)] else []))"
| "rx_run (RSeq r1 r2) s = concat (map (rx_run r2) (rx_run r1 s))"
| "rx_run (RAlt r1 r2) s = rx_run r1 s @ rx_run r2 s"
| "rx_run (RStar r) s = star_run (length (fst (snd s))) (rx_run r) s"
| "rx_run (RLazy r) s = lazy_run (length (fst (snd s))) (rx_run r) s"
| "rx_run (RGrp n r) s =
     map (\<lambda>(b, a, g). (b, a, (n, take (length (fst (snd s)) - length a) (fst (snd s))) # g))
       (rx_run r s)"
| "rx_run RBos s = (if fst s = [] then [s] else [])"
| "rx_run REos s = (if fst (snd s) = [] \<or> fst (snd s) = [10] then [s] else [])"
| "rx_run RBol s = (if fst s = [] \<or> hd (fst s) = 10 then [s] else [])"
| "rx_run REol s = (if fst (snd s) = [] \<or> hd (fst (snd s)) = 10 then [s] else [])"
| "rx_run RWordB s = (if at_word_boundary (fst s) (fst (snd s)) then [s] else [])"
| "rx_run (RBehind P) s = (if fst s \<noteq> [] \<and> P (hd (fst s)) then [s] else [])"
| "rx_run (RAhead r) s = (if rx_run r s \<noteq> [] then [s] else [])"

section \<open>Derived patterns\<close>

definition chr_is :: "char \<Rightarrow> nat \<Rightarrow> bool" where
  "chr_is c x \<longleftrightarrow> x = of_char c"

definition chr_in :: "string \<Rightarrow> nat \<Rightarrow> bool" where
  "chr_in cs x \<longleftrightarrow> x \<in> set (lit cs)"

definition cp_range :: "nat \<Rightarrow> nat \<Rightarrow> nat \<Rightarrow> bool" where
  "cp_range lo hi x \<longleftrightarrow> lo \<le> x \<and> x \<le> hi"

text \<open>
  \<open>re.IGNORECASE\<close> on an ASCII literal: both cases, and the four further letters that
  Python's matcher identifies with ASCII ones.
\<close>

definition same_letter :: "nat \<Rightarrow> nat \<Rightarrow> bool" where
  "same_letter l x \<longleftrightarrow>
     x = l \<or> is_lower_letter l \<and> (x = l - 32 \<or> l = 105 \<and> (x = 0x130 \<or> x = 0x131) \<or>
       l = 115 \<and> x = 0x17F \<or> l = 107 \<and> x = 0x212A) \<or>
     is_upper_letter l \<and> (x = l + 32 \<or> l = 73 \<and> (x = 0x130 \<or> x = 0x131) \<or>
       l = 83 \<and> x = 0x17F \<or> l = 75 \<and> x = 0x212A)"

primrec RLit :: "pystr \<Rightarrow> rx" where
  "RLit [] = REps"
| "RLit (c # s) = RSeq (RCls (\<lambda>x. x = c)) (RLit s)"

primrec RLitI :: "pystr \<Rightarrow> rx" where
  "RLitI [] = REps"
| "RLitI (c # s) = RSeq (RCls (same_letter c)) (RLitI s)"

definition ROpt :: "rx \<Rightarrow> rx" where
  "ROpt r = RAlt r REps"

definition RPlus :: "rx \<Rightarrow> rx" where
  "RPlus r = RSeq r (RStar r)"

primrec RRep :: "nat \<Rightarrow> rx \<Rightarrow> rx" where
  "RRep 0 r = REps"
| "RRep (Suc n) r = RSeq r (RRep n r)"

text \<open>\<open>r{0,n}\<close>, greedy; \<open>r{1,n}\<close> is \<open>RSeq r (RUpTo (n - 1) r)\<close>.\<close>

primrec RUpTo :: "nat \<Rightarrow> rx \<Rightarrow> rx" where
  "RUpTo 0 r = REps"
| "RUpTo (Suc n) r = RAlt (RSeq r (RUpTo n r)) REps"

section \<open>Matching, searching, substituting\<close>

definition first_match :: "rx \<Rightarrow> pystr \<Rightarrow> pystr \<Rightarrow> mstate option" where
  "first_match r b a = (case rx_run r (b, a, []) of [] \<Rightarrow> None | t # _ \<Rightarrow> Some t)"

text \<open>\<open>pattern.match(s)\<close>.\<close>

definition re_match :: "rx \<Rightarrow> pystr \<Rightarrow> mstate option" where
  "re_match r s = first_match r [] s"

text \<open>\<open>pattern.search(s)\<close>: the text before the match and the state after it.\<close>

fun search_from :: "rx \<Rightarrow> pystr \<Rightarrow> pystr \<Rightarrow> (pystr \<times> mstate) option" where
  "search_from r b a =
     (case first_match r b a of
        Some t \<Rightarrow> Some (b, t)
      | None \<Rightarrow> (case a of [] \<Rightarrow> None | c # a' \<Rightarrow> search_from r (c # b) a'))"

declare search_from.simps [simp del]

definition re_search :: "rx \<Rightarrow> pystr \<Rightarrow> (pystr \<times> mstate) option" where
  "re_search r s = search_from r [] s"

text \<open>\<open>m.group(n)\<close>: \<open>None\<close> when the group took no part in the match.\<close>

definition m_group :: "nat \<Rightarrow> mstate \<Rightarrow> pystr option" where
  "m_group n t = map_of (snd (snd t)) n"

text \<open>The text of a match that started with \<open>a\<close> ahead and left \<open>a'\<close>.\<close>

definition consumed :: "pystr \<Rightarrow> pystr \<Rightarrow> pystr" where
  "consumed a a' = take (length a - length a') a"

text \<open>
  \<open>pattern.sub(f, s)\<close>. No pattern of the source that is substituted can match the empty
  string; an empty match copies one character.
\<close>

function sub_from :: "(pystr \<Rightarrow> pystr) \<Rightarrow> rx \<Rightarrow> pystr \<Rightarrow> pystr \<Rightarrow> pystr" where
  "sub_from f r b a =
     (case a of
        [] \<Rightarrow> []
      | c # a0 \<Rightarrow>
          (case first_match r b a of
             None \<Rightarrow> c # sub_from f r (c # b) a0
           | Some (b', a', g) \<Rightarrow>
               if length a' < length a then f (consumed a a') @ sub_from f r b' a'
               else c # sub_from f r (c # b) a0))"
  by pat_completeness auto
termination
  by (relation "measure (\<lambda>(f, r, b, a). length a)") auto

declare sub_from.simps [simp del]

definition re_sub :: "(pystr \<Rightarrow> pystr) \<Rightarrow> rx \<Rightarrow> pystr \<Rightarrow> pystr" where
  "re_sub f r s = sub_from f r [] s"

text \<open>\<open>pattern.finditer(s)\<close>: the matched text and the state of each match, left to right.\<close>

function find_from :: "rx \<Rightarrow> pystr \<Rightarrow> pystr \<Rightarrow> (pystr \<times> mstate) list" where
  "find_from r b a =
     (case a of
        [] \<Rightarrow> []
      | c # a0 \<Rightarrow>
          (case first_match r b a of
             None \<Rightarrow> find_from r (c # b) a0
           | Some (b', a', g) \<Rightarrow>
               if length a' < length a then (consumed a a', (b', a', g)) # find_from r b' a'
               else find_from r (c # b) a0))"
  by pat_completeness auto
termination
  by (relation "measure (\<lambda>(r, b, a). length a)") auto

declare find_from.simps [simp del]

definition re_finditer :: "rx \<Rightarrow> pystr \<Rightarrow> (pystr \<times> mstate) list" where
  "re_finditer r s = find_from r [] s"

section \<open>Declarative meaning\<close>

text \<open>
  \<open>rx_rel r b w a\<close>: with \<open>b\<close> before (reversed) and \<open>w @ a\<close> after the position, the pattern
  can match the word \<open>w\<close>.
\<close>

inductive rx_rel :: "rx \<Rightarrow> pystr \<Rightarrow> pystr \<Rightarrow> pystr \<Rightarrow> bool" where
  rel_eps: "rx_rel REps b [] a"
| rel_cls: "P c \<Longrightarrow> rx_rel (RCls P) b [c] a"
| rel_seq: "rx_rel r1 b w1 (w2 @ a) \<Longrightarrow> rx_rel r2 (rev w1 @ b) w2 a \<Longrightarrow> rx_rel (RSeq r1 r2) b (w1 @ w2) a"
| rel_alt1: "rx_rel r1 b w a \<Longrightarrow> rx_rel (RAlt r1 r2) b w a"
| rel_alt2: "rx_rel r2 b w a \<Longrightarrow> rx_rel (RAlt r1 r2) b w a"
| rel_star_stop: "rx_rel (RStar r) b [] a"
| rel_star_step: "rx_rel r b w1 (w2 @ a) \<Longrightarrow> w1 \<noteq> [] \<Longrightarrow> rx_rel (RStar r) (rev w1 @ b) w2 a \<Longrightarrow>
     rx_rel (RStar r) b (w1 @ w2) a"
| rel_lazy_stop: "rx_rel (RLazy r) b [] a"
| rel_lazy_step: "rx_rel r b w1 (w2 @ a) \<Longrightarrow> w1 \<noteq> [] \<Longrightarrow> rx_rel (RLazy r) (rev w1 @ b) w2 a \<Longrightarrow>
     rx_rel (RLazy r) b (w1 @ w2) a"
| rel_grp: "rx_rel r b w a \<Longrightarrow> rx_rel (RGrp n r) b w a"
| rel_bos: "rx_rel RBos [] [] a"
| rel_eos: "a = [] \<or> a = [10] \<Longrightarrow> rx_rel REos b [] a"
| rel_bol: "b = [] \<or> hd b = 10 \<Longrightarrow> rx_rel RBol b [] a"
| rel_eol: "a = [] \<or> hd a = 10 \<Longrightarrow> rx_rel REol b [] a"
| rel_wordb: "at_word_boundary b a \<Longrightarrow> rx_rel RWordB b [] a"
| rel_behind: "b \<noteq> [] \<Longrightarrow> P (hd b) \<Longrightarrow> rx_rel (RBehind P) b [] a"
| rel_ahead: "rx_rel r b w a' \<Longrightarrow> a = w @ a' \<Longrightarrow> rx_rel (RAhead r) b [] a"

inductive_cases rx_rel_cases:
  "rx_rel REps b w a" "rx_rel (RCls P) b w a" "rx_rel (RSeq r1 r2) b w a"
  "rx_rel (RAlt r1 r2) b w a" "rx_rel (RGrp n r) b w a" "rx_rel RBos b w a"
  "rx_rel REos b w a" "rx_rel RBol b w a" "rx_rel REol b w a" "rx_rel RWordB b w a"
  "rx_rel (RBehind P) b w a" "rx_rel (RAhead r) b w a"

section \<open>The matcher is sound and complete\<close>

definition sound_at :: "(mstate \<Rightarrow> mstate list) \<Rightarrow> (pystr \<Rightarrow> pystr \<Rightarrow> pystr \<Rightarrow> bool) \<Rightarrow> bool" where
  "sound_at f R \<longleftrightarrow>
     (\<forall>b a g b' a' g'. (b', a', g') \<in> set (f (b, a, g)) \<longrightarrow> (\<exists>w. a = w @ a' \<and> b' = rev w @ b \<and> R b w a'))"

definition complete_at :: "(mstate \<Rightarrow> mstate list) \<Rightarrow> (pystr \<Rightarrow> pystr \<Rightarrow> pystr \<Rightarrow> bool) \<Rightarrow> bool" where
  "complete_at f R \<longleftrightarrow>
     (\<forall>b w a g. R b w a \<longrightarrow> (\<exists>g'. (rev w @ b, a, g') \<in> set (f (b, w @ a, g))))"

lemma sound_atD:
  "sound_at f R \<Longrightarrow> (b', a', g') \<in> set (f (b, a, g)) \<Longrightarrow> \<exists>w. a = w @ a' \<and> b' = rev w @ b \<and> R b w a'"
  unfolding sound_at_def by blast

lemma complete_atD:
  "complete_at f R \<Longrightarrow> R b w a \<Longrightarrow> \<exists>g'. (rev w @ b, a, g') \<in> set (f (b, w @ a, g))"
  unfolding complete_at_def by blast

lemma sound_star:
  assumes "sound_at f (rx_rel r)"
  shows "sound_at (star_run n f) (rx_rel (RStar r)) \<and> sound_at (lazy_run n f) (rx_rel (RLazy r))"
proof (induction n)
  case 0
  then show ?case by (auto simp: sound_at_def intro: rx_rel.intros)
next
  case (Suc n)
  have "\<exists>w. a = w @ a' \<and> b' = rev w @ b \<and> rx_rel (RStar r) b w a'"
    if "(b', a', g') \<in> set (star_run (Suc n) f (b, a, g))" for b a g b' a' g'
  proof (cases "(b', a', g') = (b, a, g)")
    case True
    then show ?thesis by (auto intro: rel_star_stop)
  next
    case False
    with that obtain b1 a1 g1 where one: "(b1, a1, g1) \<in> set (f (b, a, g))" "length a1 < length a"
      and two: "(b', a', g') \<in> set (star_run n f (b1, a1, g1))" by auto
    from sound_atD [OF assms one(1)] obtain w1
      where w1: "a = w1 @ a1" "b1 = rev w1 @ b" "rx_rel r b w1 a1" by blast
    from sound_atD [OF conjunct1 [OF Suc.IH] two] obtain w2
      where w2: "a1 = w2 @ a'" "b' = rev w2 @ b1" "rx_rel (RStar r) b1 w2 a'" by blast
    from w1(1) one(2) have "w1 \<noteq> []" by auto
    then have "rx_rel (RStar r) b (w1 @ w2) a'"
      using w1 w2 by (intro rel_star_step) auto
    with w1 w2 show ?thesis by (intro exI [of _ "w1 @ w2"]) simp
  qed
  moreover have "\<exists>w. a = w @ a' \<and> b' = rev w @ b \<and> rx_rel (RLazy r) b w a'"
    if "(b', a', g') \<in> set (lazy_run (Suc n) f (b, a, g))" for b a g b' a' g'
  proof (cases "(b', a', g') = (b, a, g)")
    case True
    then show ?thesis by (auto intro: rel_lazy_stop)
  next
    case False
    with that obtain b1 a1 g1 where one: "(b1, a1, g1) \<in> set (f (b, a, g))" "length a1 < length a"
      and two: "(b', a', g') \<in> set (lazy_run n f (b1, a1, g1))" by auto
    from sound_atD [OF assms one(1)] obtain w1
      where w1: "a = w1 @ a1" "b1 = rev w1 @ b" "rx_rel r b w1 a1" by blast
    from sound_atD [OF conjunct2 [OF Suc.IH] two] obtain w2
      where w2: "a1 = w2 @ a'" "b' = rev w2 @ b1" "rx_rel (RLazy r) b1 w2 a'" by blast
    from w1(1) one(2) have "w1 \<noteq> []" by auto
    then have "rx_rel (RLazy r) b (w1 @ w2) a'"
      using w1 w2 by (intro rel_lazy_step) auto
    with w1 w2 show ?thesis by (intro exI [of _ "w1 @ w2"]) simp
  qed
  ultimately show ?case unfolding sound_at_def by blast
qed

lemma rx_run_sound: "sound_at (rx_run r) (rx_rel r)"
proof (induction r)
  case (RCls P)
  then show ?case by (auto simp: sound_at_def intro: rx_rel.intros split: list.splits if_splits)
next
  case (RSeq r1 r2)
  show ?case
    unfolding sound_at_def
  proof (intro allI impI)
    fix b a g b' a' g'
    assume "(b', a', g') \<in> set (rx_run (RSeq r1 r2) (b, a, g))"
    then obtain b1 a1 g1 where one: "(b1, a1, g1) \<in> set (rx_run r1 (b, a, g))"
      and two: "(b', a', g') \<in> set (rx_run r2 (b1, a1, g1))" by auto
    from sound_atD [OF RSeq.IH(1) one] sound_atD [OF RSeq.IH(2) two] obtain w1 w2
      where w: "a = w1 @ a1" "b1 = rev w1 @ b" "rx_rel r1 b w1 a1"
        "a1 = w2 @ a'" "b' = rev w2 @ b1" "rx_rel r2 b1 w2 a'" by blast
    then show "\<exists>w. a = w @ a' \<and> b' = rev w @ b \<and> rx_rel (RSeq r1 r2) b w a'"
      by (intro exI [of _ "w1 @ w2"]) (auto intro: rel_seq)
  qed
next
  case (RAlt r1 r2)
  then show ?case unfolding sound_at_def by (fastforce intro: rx_rel.intros)
next
  case (RGrp n r)
  then show ?case unfolding sound_at_def by (fastforce intro: rx_rel.intros)
next
  case (RStar r)
  show ?case
    using sound_star [OF RStar.IH] by (auto simp: sound_at_def)
next
  case (RLazy r)
  show ?case
    using sound_star [OF RLazy.IH] by (auto simp: sound_at_def)
next
  case (RAhead r)
  show ?case
    unfolding sound_at_def
  proof (intro allI impI)
    fix b a g b' a' g'
    assume asm: "(b', a', g') \<in> set (rx_run (RAhead r) (b, a, g))"
    then have eq: "(b', a', g') = (b, a, g)" and "rx_run r (b, a, g) \<noteq> []"
      by (auto split: if_splits)
    then obtain b1 a1 g1 where "(b1, a1, g1) \<in> set (rx_run r (b, a, g))"
      by (metis list.set_intros(1) neq_Nil_conv prod_cases3)
    from sound_atD [OF RAhead.IH this] eq
    show "\<exists>w. a = w @ a' \<and> b' = rev w @ b \<and> rx_rel (RAhead r) b w a'"
      by (auto intro: rel_ahead)
  qed
qed (auto simp: sound_at_def intro: rx_rel.intros split: if_splits)

lemma star_run_complete:
  "rx_rel r0 b w a \<Longrightarrow> r0 = RStar r \<Longrightarrow> complete_at f (rx_rel r) \<Longrightarrow> length w \<le> n \<Longrightarrow>
     \<exists>g'. (rev w @ b, a, g') \<in> set (star_run n f (b, w @ a, g))"
proof (induction arbitrary: n g rule: rx_rel.induct)
  case (rel_star_stop r' b a)
  then show ?case by (cases n) auto
next
  case (rel_star_step r' b w1 w2 a)
  then obtain m where n: "n = Suc m" by (cases n) auto
  from rel_star_step.hyps(1) rel_star_step.prems(1) have "rx_rel r b w1 (w2 @ a)" by simp
  from complete_atD [OF rel_star_step.prems(2) this] obtain g1
    where g1: "(rev w1 @ b, w2 @ a, g1) \<in> set (f (b, w1 @ w2 @ a, g))" by blast
  from rel_star_step.prems n rel_star_step.hyps(2) have "length w2 \<le> m" by (cases w1) auto
  with rel_star_step.IH(2) rel_star_step.prems obtain g2
    where g2: "(rev w2 @ rev w1 @ b, a, g2) \<in> set (star_run m f (rev w1 @ b, w2 @ a, g1))" by blast
  have "length (w2 @ a) < length (w1 @ w2 @ a)" using rel_star_step.hyps(2) by simp
  with g1 g2 have "(rev w2 @ rev w1 @ b, a, g2) \<in> set (star_run n f (b, w1 @ w2 @ a, g))"
    unfolding n by (simp only: star_run.simps) fastforce
  then show ?case by auto
qed auto

lemma lazy_run_complete:
  "rx_rel r0 b w a \<Longrightarrow> r0 = RLazy r \<Longrightarrow> complete_at f (rx_rel r) \<Longrightarrow> length w \<le> n \<Longrightarrow>
     \<exists>g'. (rev w @ b, a, g') \<in> set (lazy_run n f (b, w @ a, g))"
proof (induction arbitrary: n g rule: rx_rel.induct)
  case (rel_lazy_stop r' b a)
  then show ?case by (cases n) auto
next
  case (rel_lazy_step r' b w1 w2 a)
  then obtain m where n: "n = Suc m" by (cases n) auto
  from rel_lazy_step.hyps(1) rel_lazy_step.prems(1) have "rx_rel r b w1 (w2 @ a)" by simp
  from complete_atD [OF rel_lazy_step.prems(2) this] obtain g1
    where g1: "(rev w1 @ b, w2 @ a, g1) \<in> set (f (b, w1 @ w2 @ a, g))" by blast
  from rel_lazy_step.prems n rel_lazy_step.hyps(2) have "length w2 \<le> m" by (cases w1) auto
  with rel_lazy_step.IH(2) rel_lazy_step.prems obtain g2
    where g2: "(rev w2 @ rev w1 @ b, a, g2) \<in> set (lazy_run m f (rev w1 @ b, w2 @ a, g1))" by blast
  have "length (w2 @ a) < length (w1 @ w2 @ a)" using rel_lazy_step.hyps(2) by simp
  with g1 g2 have "(rev w2 @ rev w1 @ b, a, g2) \<in> set (lazy_run n f (b, w1 @ w2 @ a, g))"
    unfolding n by (simp only: lazy_run.simps) fastforce
  then show ?case by auto
qed auto

lemma rx_run_complete: "complete_at (rx_run r) (rx_rel r)"
proof (induction r)
  case (RSeq r1 r2)
  show ?case
    unfolding complete_at_def
  proof (intro allI impI)
    fix b w a g
    assume "rx_rel (RSeq r1 r2) b w a"
    then obtain w1 w2 where w: "w = w1 @ w2" "rx_rel r1 b w1 (w2 @ a)" "rx_rel r2 (rev w1 @ b) w2 a"
      by (rule rx_rel_cases)
    with RSeq.IH obtain g1 where g1: "(rev w1 @ b, w2 @ a, g1) \<in> set (rx_run r1 (b, w1 @ w2 @ a, g))"
      unfolding complete_at_def by blast
    from w RSeq.IH obtain g2
      where "(rev w2 @ rev w1 @ b, a, g2) \<in> set (rx_run r2 (rev w1 @ b, w2 @ a, g1))"
      unfolding complete_at_def by blast
    with g1 w show "\<exists>g'. (rev w @ b, a, g') \<in> set (rx_run (RSeq r1 r2) (b, w @ a, g))"
      by (auto intro!: exI [of _ g2] bexI)
  qed
next
  case (RAlt r1 r2)
  then show ?case unfolding complete_at_def
    by (auto elim!: rx_rel_cases) blast+
next
  case (RStar r)
  show ?case
    using star_run_complete [OF _ refl RStar.IH] by (auto simp: complete_at_def)
next
  case (RLazy r)
  show ?case
    using lazy_run_complete [OF _ refl RLazy.IH] by (auto simp: complete_at_def)
next
  case (RGrp n r)
  show ?case
    unfolding complete_at_def
  proof (intro allI impI)
    fix b w a g
    assume "rx_rel (RGrp n r) b w a"
    then have "rx_rel r b w a" by (rule rx_rel_cases)
    from complete_atD [OF RGrp.IH this, of g] obtain g'
      where "(rev w @ b, a, g') \<in> set (rx_run r (b, w @ a, g))" by blast
    then show "\<exists>g'. (rev w @ b, a, g') \<in> set (rx_run (RGrp n r) (b, w @ a, g))"
      by (force simp: image_iff)
  qed
next
  case (RAhead r)
  show ?case
    unfolding complete_at_def
  proof (intro allI impI)
    fix b w a g
    assume "rx_rel (RAhead r) b w a"
    then obtain w1 a' where w: "w = []" "rx_rel r b w1 a'" "a = w1 @ a'"
      by (auto elim: rx_rel_cases)
    then have "rx_run r (b, a, g) \<noteq> []"
      using complete_atD [OF RAhead.IH w(2), of g] by fastforce
    with w show "\<exists>g'. (rev w @ b, a, g') \<in> set (rx_run (RAhead r) (b, w @ a, g))" by auto
  qed
qed (auto simp: complete_at_def elim!: rx_rel_cases)

theorem rx_run_iff_rel:
  "(\<exists>g'. (rev w @ b, a, g') \<in> set (rx_run r (b, w @ a, g))) \<longleftrightarrow> rx_rel r b w a"
proof
  assume "\<exists>g'. (rev w @ b, a, g') \<in> set (rx_run r (b, w @ a, g))"
  then show "rx_rel r b w a"
    using sound_atD [OF rx_run_sound] by (metis append_same_eq)
next
  assume "rx_rel r b w a"
  then show "\<exists>g'. (rev w @ b, a, g') \<in> set (rx_run r (b, w @ a, g))"
    using rx_run_complete unfolding complete_at_def by blast
qed

section \<open>Evaluation\<close>

text \<open>The remaining length is enough fuel, so the stars satisfy their source-level equations.\<close>

lemma star_run_fuel_mono:
  "length (fst (snd s)) \<le> n \<Longrightarrow> n \<le> m \<Longrightarrow> star_run m f s = star_run n f s"
proof (induction n arbitrary: m s)
  case 0
  then show ?case by (cases m) auto
next
  case (Suc n)
  then obtain k where m: "m = Suc k" "n \<le> k" by (cases m) auto
  have "star_run k f t = star_run n f t" if "length (fst (snd t)) < length (fst (snd s))" for t
    using Suc.IH [of t k] Suc.prems(1) m(2) that by simp
  then show ?case
    unfolding m by (auto intro!: arg_cong [where f = concat] map_cong)
qed

lemma lazy_run_fuel_mono:
  "length (fst (snd s)) \<le> n \<Longrightarrow> n \<le> m \<Longrightarrow> lazy_run m f s = lazy_run n f s"
proof (induction n arbitrary: m s)
  case 0
  then show ?case by (cases m) auto
next
  case (Suc n)
  then obtain k where m: "m = Suc k" "n \<le> k" by (cases m) auto
  have "lazy_run k f t = lazy_run n f t" if "length (fst (snd t)) < length (fst (snd s))" for t
    using Suc.IH [of t k] Suc.prems(1) m(2) that by simp
  then show ?case
    unfolding m by (auto intro!: arg_cong [where f = concat] map_cong)
qed

lemma rx_run_star:
  "rx_run (RStar r) s =
     concat (map (rx_run (RStar r)) (filter (\<lambda>t. length (fst (snd t)) < length (fst (snd s))) (rx_run r s))) @ [s]"
proof (cases "length (fst (snd s))")
  case 0
  then show ?thesis by simp
next
  case (Suc k)
  have "star_run k (rx_run r) t = rx_run (RStar r) t" if "length (fst (snd t)) < Suc k" for t
    using star_run_fuel_mono [of t "length (fst (snd t))" k] that by simp
  with Suc show ?thesis
    by (auto intro!: arg_cong [where f = concat] map_cong)
qed

lemma rx_run_lazy:
  "rx_run (RLazy r) s =
     s # concat (map (rx_run (RLazy r)) (filter (\<lambda>t. length (fst (snd t)) < length (fst (snd s))) (rx_run r s)))"
proof (cases "length (fst (snd s))")
  case 0
  then show ?thesis by simp
next
  case (Suc k)
  have "lazy_run k (rx_run r) t = rx_run (RLazy r) t" if "length (fst (snd t)) < Suc k" for t
    using lazy_run_fuel_mono [of t "length (fst (snd t))" k] that by simp
  with Suc show ?thesis
    by (auto intro!: arg_cong [where f = concat] map_cong)
qed

text \<open>Closed matches are evaluated by \<open>simp add: rx_eval del: rx_star_fuel\<close>.\<close>

lemmas rx_star_fuel = rx_run.simps(5,6)

lemmas rx_eval = rx_run_star rx_run_lazy first_match_def re_match_def chr_in_def lit_def
  is_space_def is_word_def is_digit_def is_upper_letter_def is_lower_letter_def RPlus_def ROpt_def

text \<open>
  A greedy star over one character class is the longest run of the class, then every
  shorter one; the first answer is the one Python returns.
\<close>

lemma rx_run_star_cls_Nil: "rx_run (RStar (RCls P)) (b, [], g) = [(b, [], g)]"
  by (simp add: rx_run_star)

lemma rx_run_star_cls_Cons:
  "rx_run (RStar (RCls P)) (b, c # a, g) =
     (if P c then rx_run (RStar (RCls P)) (c # b, a, g) @ [(b, c # a, g)] else [(b, c # a, g)])"
  by (subst rx_run_star) (simp del: rx_run.simps(5))

lemma star_cls_greedy:
  "\<exists>rest. rx_run (RStar (RCls P)) (b, a, g) = (rev (takeWhile P a) @ b, dropWhile P a, g) # rest"
proof (induction a arbitrary: b)
  case Nil
  then show ?case by (simp add: rx_run_star_cls_Nil del: rx_run.simps(5))
next
  case (Cons c a)
  from Cons.IH [of "c # b"] show ?case
    by (cases "P c") (auto simp: rx_run_star_cls_Cons simp del: rx_run.simps(5))
qed

section \<open>Where matches lie\<close>

inductive_simps rel_simps [simp]:
  "rx_rel REps b w a"
  "rx_rel (RCls P) b w a"
  "rx_rel RBos b w a"
  "rx_rel REos b w a"
  "rx_rel RWordB b w a"
  "rx_rel (RBehind P) b w a"

inductive_simps rel_seq_iff: "rx_rel (RSeq r1 r2) b w a"
inductive_simps rel_alt_iff: "rx_rel (RAlt r1 r2) b w a"
inductive_simps rel_grp_iff: "rx_rel (RGrp n r) b w a"

lemma first_match_Some:
  assumes "first_match r b a = Some (b', a', g)"
  shows "a = consumed a a' @ a' \<and> b' = rev (consumed a a') @ b \<and> rx_rel r b (consumed a a') a'"
proof -
  from assms have "(b', a', g) \<in> set (rx_run r (b, a, []))"
    by (auto simp: first_match_def split: list.splits)
  from sound_atD [OF rx_run_sound this] obtain w
    where w: "a = w @ a'" "b' = rev w @ b" "rx_rel r b w a'" by blast
  then have "consumed a a' = w" by (simp add: consumed_def)
  with w show ?thesis by simp
qed

lemma first_match_None: "first_match r b a = None \<longleftrightarrow> (\<forall>w a'. a = w @ a' \<longrightarrow> \<not> rx_rel r b w a')"
proof
  assume "first_match r b a = None"
  then have "rx_run r (b, a, []) = []" by (auto simp: first_match_def split: list.splits)
  then show "\<forall>w a'. a = w @ a' \<longrightarrow> \<not> rx_rel r b w a'"
    using complete_atD [OF rx_run_complete, of r b _ _ "[]"] by force
next
  assume none: "\<forall>w a'. a = w @ a' \<longrightarrow> \<not> rx_rel r b w a'"
  show "first_match r b a = None"
  proof (cases "first_match r b a")
    case None
    then show ?thesis .
  next
    case (Some t)
    obtain b' a' g where "t = (b', a', g)" by (cases t)
    with Some first_match_Some none show ?thesis by blast
  qed
qed

lemma re_match_Some_iff: "(\<exists>t. re_match r s = Some t) \<longleftrightarrow> (\<exists>w a. s = w @ a \<and> rx_rel r [] w a)"
  unfolding re_match_def using first_match_None [of r "[]" s] by (cases "first_match r [] s") auto

text \<open>Which characters a match can consume.\<close>

primrec rx_may :: "rx \<Rightarrow> nat \<Rightarrow> bool" where
  "rx_may REps c = False"
| "rx_may (RCls P) c = P c"
| "rx_may (RSeq r1 r2) c = (rx_may r1 c \<or> rx_may r2 c)"
| "rx_may (RAlt r1 r2) c = (rx_may r1 c \<or> rx_may r2 c)"
| "rx_may (RStar r) c = rx_may r c"
| "rx_may (RLazy r) c = rx_may r c"
| "rx_may (RGrp n r) c = rx_may r c"
| "rx_may RBos c = False"
| "rx_may REos c = False"
| "rx_may RBol c = False"
| "rx_may REol c = False"
| "rx_may RWordB c = False"
| "rx_may (RBehind P) c = False"
| "rx_may (RAhead r) c = False"

lemma rx_rel_may: "rx_rel r b w a \<Longrightarrow> c \<in> set w \<Longrightarrow> rx_may r c"
  by (induction rule: rx_rel.induct) auto

lemma rx_may_RLit [simp]: "rx_may (RLit s) c \<longleftrightarrow> c \<in> set s"
  by (induction s) auto

lemma rx_may_RRep [simp]: "rx_may (RRep n r) c \<longleftrightarrow> n \<noteq> 0 \<and> rx_may r c"
  by (induction n) auto

lemma rx_may_RUpTo [simp]: "rx_may (RUpTo n r) c \<longleftrightarrow> n \<noteq> 0 \<and> rx_may r c"
  by (induction n) auto

lemma rx_may_ROpt [simp]: "rx_may (ROpt r) c \<longleftrightarrow> rx_may r c"
  by (simp add: ROpt_def)

lemma rx_may_RPlus [simp]: "rx_may (RPlus r) c \<longleftrightarrow> rx_may r c"
  by (simp add: RPlus_def)

section \<open>What substitution does\<close>

lemma consumed_append: "a = w @ a' \<Longrightarrow> consumed a a' = w"
  by (simp add: consumed_def)

lemma sub_from_Nil [simp]: "sub_from f r b [] = []"
  by (simp add: sub_from.simps)

lemma sub_from_None:
  "first_match r b (c # a) = None \<Longrightarrow> sub_from f r b (c # a) = c # sub_from f r (c # b) a"
  by (simp add: sub_from.simps [of f r b "c # a"])

lemma sub_from_Some:
  "first_match r b a = Some (b', a', g) \<Longrightarrow> length a' < length a \<Longrightarrow>
     sub_from f r b a = f (consumed a a') @ sub_from f r b' a'"
  by (cases a) (simp_all add: sub_from.simps [of f r b "_ # _"])

lemma set_sub_from: "set (sub_from f r b a) \<subseteq> set a \<union> \<Union> {set (f w) |w. \<exists>b a'. rx_rel r b w a'}"
proof (induction f r b a rule: sub_from.induct)
  case (1 f r b a)
  let ?U = "\<Union> {set (f w) |w. \<exists>b a'. rx_rel r b w a'}"
  show ?case
  proof (cases a)
    case Nil
    then show ?thesis by simp
  next
    case (Cons c a0)
    show ?thesis
    proof (cases "first_match r b a")
      case None
      with "1.IH"(1) [OF Cons None] Cons show ?thesis by (auto simp: sub_from_None)
    next
      case (Some t)
      obtain b' a' g where t: "t = (b', a', g)" by (cases t)
      show ?thesis
      proof (cases "length a' < length a")
        case True
        have m: "a = consumed a a' @ a'" "rx_rel r b (consumed a a') a'"
          using first_match_Some Some t by blast+
        have "set (sub_from f r b' a') \<subseteq> set a' \<union> ?U"
          using "1.IH"(2) [OF Cons Some t [symmetric] refl True] .
        moreover have "set a' \<subseteq> set a" by (metis m(1) set_append sup_ge2)
        moreover have "set (f (consumed a a')) \<subseteq> ?U" using m(2) by blast
        ultimately show ?thesis
          using sub_from_Some [of r b a b' a' g f] Some t True by auto
      next
        case False
        with "1.IH"(3) [OF Cons Some t [symmetric] refl False] Cons Some t show ?thesis
          by (auto simp: sub_from.simps [of f r b "c # a0"])
      qed
    qed
  qed
qed

lemma set_re_sub_const: "set (re_sub (\<lambda>_. rep) r s) \<subseteq> set s \<union> set rep"
  unfolding re_sub_def using set_sub_from [of "\<lambda>_. rep" r "[]" s] by blast

lemma set_sub_from_keep:
  assumes "\<And>w. set (f w) \<subseteq> set w \<union> R"
  shows "set (sub_from f r b a) \<subseteq> set a \<union> R"
  using assms
proof (induction f r b a rule: sub_from.induct)
  case (1 f r b a)
  show ?case
  proof (cases a)
    case Nil
    then show ?thesis by simp
  next
    case (Cons c a0)
    show ?thesis
    proof (cases "first_match r b a")
      case None
      with "1.IH"(1) [OF Cons None "1.prems"] Cons show ?thesis by (auto simp: sub_from_None)
    next
      case (Some t)
      obtain b' a' g where t: "t = (b', a', g)" by (cases t)
      show ?thesis
      proof (cases "length a' < length a")
        case True
        have m: "a = consumed a a' @ a'"
          using first_match_Some Some t by blast
        then have "set a = set (consumed a a') \<union> set a'" by (metis set_append)
        moreover have "set (sub_from f r b' a') \<subseteq> set a' \<union> R"
          using "1.IH"(2) [OF Cons Some t [symmetric] refl True "1.prems"] .
        moreover have "set (f (consumed a a')) \<subseteq> set (consumed a a') \<union> R" by (rule "1.prems")
        ultimately show ?thesis
          using sub_from_Some [of r b a b' a' g f] Some t True by auto
      next
        case False
        with "1.IH"(3) [OF Cons Some t [symmetric] refl False "1.prems"] Cons Some t show ?thesis
          by (auto simp: sub_from.simps [of f r b "c # a0"])
      qed
    qed
  qed
qed

lemma set_re_sub_keep: "(\<And>w. set (f w) \<subseteq> set w \<union> R) \<Longrightarrow> set (re_sub f r s) \<subseteq> set s \<union> R"
  unfolding re_sub_def by (rule set_sub_from_keep)

text \<open>Deleting the matches of a one-character pattern is a filter.\<close>

lemma first_match_cls:
  "first_match (RCls P) b a = (case a of [] \<Rightarrow> None | c # a' \<Rightarrow> if P c then Some (c # b, a', []) else None)"
  by (simp add: first_match_def split: list.splits)

lemma sub_from_cls: "sub_from (\<lambda>_. []) (RCls P) b a = filter (\<lambda>c. \<not> P c) a"
proof (induction a arbitrary: b)
  case Nil
  then show ?case by simp
next
  case (Cons c a)
  show ?case
  proof (cases "P c")
    case True
    with Cons.IH show ?thesis
      by (subst sub_from_Some [where b' = "c # b" and a' = a and g = "[]"]) (auto simp: first_match_cls)
  next
    case False
    with Cons.IH show ?thesis by (simp add: sub_from_None first_match_cls)
  qed
qed

lemma re_sub_cls: "re_sub (\<lambda>_. []) (RCls P) s = filter (\<lambda>c. \<not> P c) s"
  by (simp add: re_sub_def sub_from_cls)

text \<open>A text without a match is left alone.\<close>

definition rx_free :: "rx \<Rightarrow> pystr \<Rightarrow> pystr \<Rightarrow> bool" where
  "rx_free r b s \<longleftrightarrow> (\<forall>u w v. s = u @ w @ v \<longrightarrow> w \<noteq> [] \<longrightarrow> \<not> rx_rel r (rev u @ b) w v)"

lemma rx_free_Cons: "rx_free r b (c # s) \<Longrightarrow> rx_free r (c # b) s"
  unfolding rx_free_def
proof (intro allI impI)
  fix u w v
  assume free: "\<forall>u w v. c # s = u @ w @ v \<longrightarrow> w \<noteq> [] \<longrightarrow> \<not> rx_rel r (rev u @ b) w v"
    and s: "s = u @ w @ v" and w: "w \<noteq> []"
  from free [rule_format, of "c # u" w v] s w show "\<not> rx_rel r (rev u @ c # b) w v" by simp
qed

lemma sub_from_free: "rx_free r b s \<Longrightarrow> sub_from f r b s = s"
proof (induction s arbitrary: b)
  case Nil
  then show ?case by simp
next
  case (Cons c s)
  note IH = Cons.IH [OF rx_free_Cons [OF Cons.prems]]
  show ?case
  proof (cases "first_match r b (c # s)")
    case None
    with IH show ?thesis by (simp add: sub_from_None)
  next
    case (Some t)
    obtain b' a' g where t: "t = (b', a', g)" by (cases t)
    have m: "c # s = consumed (c # s) a' @ a'" "rx_rel r b (consumed (c # s) a') a'"
      using first_match_Some Some t by blast+
    have "\<not> length a' < length (c # s)"
    proof
      assume "length a' < length (c # s)"
      then have "consumed (c # s) a' \<noteq> []" by (simp add: consumed_def)
      with Cons.prems m show False
        unfolding rx_free_def by (metis append_Nil rev.simps(1))
    qed
    with Some t IH show ?thesis by (simp add: sub_from.simps [of f r b "c # s"])
  qed
qed

text \<open>Characters that every match consumes; a text without one of them has no match.\<close>

primrec rx_must :: "rx \<Rightarrow> nat \<Rightarrow> bool" where
  "rx_must REps c = False"
| "rx_must (RCls P) c = (\<forall>x. P x \<longrightarrow> x = c)"
| "rx_must (RSeq r1 r2) c = (rx_must r1 c \<or> rx_must r2 c)"
| "rx_must (RAlt r1 r2) c = (rx_must r1 c \<and> rx_must r2 c)"
| "rx_must (RStar r) c = False"
| "rx_must (RLazy r) c = False"
| "rx_must (RGrp n r) c = rx_must r c"
| "rx_must RBos c = False"
| "rx_must REos c = False"
| "rx_must RBol c = False"
| "rx_must REol c = False"
| "rx_must RWordB c = False"
| "rx_must (RBehind P) c = False"
| "rx_must (RAhead r) c = False"

lemma rx_rel_must: "rx_rel r b w a \<Longrightarrow> rx_must r c \<Longrightarrow> c \<in> set w"
  by (induction rule: rx_rel.induct) auto

lemma rx_must_free: "rx_must r c \<Longrightarrow> c \<notin> set s \<Longrightarrow> rx_free r b s"
  unfolding rx_free_def using rx_rel_must by fastforce

lemma re_sub_without: "rx_must r c \<Longrightarrow> c \<notin> set s \<Longrightarrow> re_sub f r s = s"
  unfolding re_sub_def by (rule sub_from_free) (rule rx_must_free)

lemma rx_must_RLit: "rx_must (RLit s) c \<longleftrightarrow> c \<in> set s"
  by (induction s) auto

lemma rx_must_RLitI: "c \<in> set s \<Longrightarrow> \<not> is_lower_letter c \<Longrightarrow> \<not> is_upper_letter c \<Longrightarrow> rx_must (RLitI s) c"
  by (induction s) (auto simp: same_letter_def)

lemma rx_must_RPlus [simp]: "rx_must (RPlus r) c = rx_must r c"
  by (simp add: RPlus_def)

lemma rx_must_ROpt [simp]: "rx_must (ROpt r) c = False"
  by (simp add: ROpt_def)

end
