(* ===== verification/Sanitizer.thy ===== *)
theory Sanitizer
  imports Regex Values
begin

text \<open>
  \<open>security/sanitizer.py\<close>: the filter that every returned string passes. Unicode NFKC
  normalisation is the function argument \<open>nfkc\<close>; every guarantee below holds for any such
  function, because the deletions come after it.
\<close>

section \<open>Patterns\<close>

text \<open>\<open>\\x1B(?:[@-Z\\-_]|\[[0-?]*[ -/]*[@-~])\<close>, with its three ranges as intervals.\<close>

definition ansi_escape :: rx where
  "ansi_escape =
     RSeq (RCls (\<lambda>c. c = 0x1B))
       (RAlt (RCls (\<lambda>c. cp_range 64 90 c \<or> cp_range 92 95 c))
             (RSeq (RLit [91])
               (RSeq (RStar (RCls (cp_range 48 63)))
                 (RSeq (RStar (RCls (cp_range 32 47))) (RCls (cp_range 64 126))))))"

definition control_char :: "nat \<Rightarrow> bool" where
  "control_char c \<longleftrightarrow> c \<le> 8 \<or> c = 11 \<or> c = 12 \<or> cp_range 14 31 c \<or> c = 127"

definition zero_width :: "nat \<Rightarrow> bool" where
  "zero_width c \<longleftrightarrow>
     cp_range 0x200B 0x200F c \<or> cp_range 0x202A 0x202E c \<or> cp_range 0x2060 0x206F c \<or> c = 0xFEFF"

definition tag_char :: "nat \<Rightarrow> bool" where
  "tag_char c \<longleftrightarrow> cp_range 0xE0000 0xE007F c"

definition url_char :: "nat \<Rightarrow> bool" where
  "url_char c \<longleftrightarrow> \<not> is_space c \<and> c \<noteq> 60 \<and> c \<noteq> 62 \<and> c \<noteq> 34 \<and> c \<noteq> 39 \<and> c \<noteq> 41"

definition url_pattern :: rx where
  "url_pattern =
     RSeq (RLitI (lit ''http'')) (RSeq (ROpt (RLitI (lit ''s'')))
       (RSeq (RLit (lit ''://'')) (RPlus (RCls url_char))))"

definition injection_markers :: "rx list" where
  "injection_markers =
     [RSeq RWordB (RSeq (RLitI (lit ''ignore '')) (RSeq (ROpt (RLitI (lit ''all '')))
        (RSeq (RLitI (lit ''previous instruction'')) (RSeq (ROpt (RLitI (lit ''s''))) RWordB)))),
      RSeq RWordB (RSeq (RLitI (lit ''disregard '')) (RSeq (ROpt (RLitI (lit ''the '')))
        (RSeq (RAlt (RLitI (lit ''prior'')) (RLitI (lit ''above''))) (RSeq (RLitI (lit '' ''))
          (RSeq (RAlt (RLitI (lit ''prompt''))
                      (RSeq (RLitI (lit ''instruction'')) (ROpt (RLitI (lit ''s''))))) RWordB))))),
      RSeq RWordB (RSeq (RLitI (lit ''you are now'')) RWordB),
      RSeq RWordB (RSeq (RLitI (lit ''new instruction'')) (RSeq (ROpt (RLitI (lit ''s'')))
        (RSeq (RLitI (lit '':'')) (RStar (RCls is_space))))),
      RSeq (RLitI (lit ''<'')) (RSeq (ROpt (RLitI (lit ''/''))) (RLitI (lit ''system>''))),
      RSeq (RLitI (lit ''<'')) (RSeq (ROpt (RLitI (lit ''/''))) (RLitI (lit ''assistant>''))),
      RSeq (RLitI (lit ''<'')) (RSeq (ROpt (RLitI (lit ''/''))) (RLitI (lit ''user>''))),
      RLitI (lit ''[[SYSTEM]]''),
      RSeq (RLitI (lit ''###'')) (RSeq (RStar (RCls is_space)) (RLitI (lit ''system'')))]"

definition redacted :: pystr where
  "redacted = lit ''[REDACTED:injection_pattern]''"

definition max_string_len :: nat where
  "max_string_len = 8192"

section \<open>Operations\<close>

definition scrub_injection_markers :: "pystr \<Rightarrow> pystr" where
  "scrub_injection_markers text = fold (\<lambda>pattern t. re_sub (\<lambda>_. redacted) pattern t) injection_markers text"

definition url_allowed :: "pystr list \<Rightarrow> pystr \<Rightarrow> bool" where
  "url_allowed hosts url \<longleftrightarrow> list_ex (\<lambda>host. sublist (lit ''://'' @ host) (lower url)) hosts"

definition drop_disallowed_urls :: "pystr \<Rightarrow> pystr list \<Rightarrow> pystr" where
  "drop_disallowed_urls text hosts =
     re_sub (\<lambda>url. if url_allowed hosts url then url else lit ''[REDACTED:url]'') url_pattern text"

definition strip_invisible :: "pystr \<Rightarrow> pystr" where
  "strip_invisible s =
     (let s = re_sub (\<lambda>_. []) ansi_escape s;
          s = re_sub (\<lambda>_. []) (RCls control_char) s;
          s = re_sub (\<lambda>_. []) (RCls zero_width) s
      in re_sub (\<lambda>_. []) (RCls tag_char) s)"

definition truncate :: "nat \<Rightarrow> pystr \<Rightarrow> pystr" where
  "truncate max_len s =
     (if max_len < length s then take max_len s @ [0x2026] @ lit ''[truncated]'' else s)"

definition sanitize_str :: "(pystr \<Rightarrow> pystr) \<Rightarrow> pystr list \<Rightarrow> nat \<Rightarrow> pystr \<Rightarrow> pystr" where
  "sanitize_str nfkc hosts max_len value =
     (let s = strip_invisible (nfkc value);
          s = scrub_injection_markers s;
          s = drop_disallowed_urls s hosts
      in truncate max_len s)"

fun sanitize_mq_output :: "(pystr \<Rightarrow> pystr) \<Rightarrow> pystr list \<Rightarrow> nat \<Rightarrow> pyval \<Rightarrow> pyval" where
  "sanitize_mq_output nfkc hosts max_len (PStr s) = PStr (sanitize_str nfkc hosts max_len s)"
| "sanitize_mq_output nfkc hosts max_len (PDict kvs) =
     PDict (map (\<lambda>(k, v). (k, sanitize_mq_output nfkc hosts max_len v)) kvs)"
| "sanitize_mq_output nfkc hosts max_len (PList vs) =
     PList (map (sanitize_mq_output nfkc hosts max_len) vs)"
| "sanitize_mq_output nfkc hosts max_len (PTuple vs) =
     PTuple (map (sanitize_mq_output nfkc hosts max_len) vs)"
| "sanitize_mq_output nfkc hosts max_len v = v"

text \<open>The call with the default keyword arguments.\<close>

definition sanitize :: "(pystr \<Rightarrow> pystr) \<Rightarrow> pyval \<Rightarrow> pyval" where
  "sanitize nfkc v = sanitize_mq_output nfkc [lit ''www.ibm.com''] max_string_len v"

definition quarantine_envelope :: "(pystr \<Rightarrow> pystr) \<Rightarrow> pyval \<Rightarrow> pyval" where
  "quarantine_envelope nfkc content =
     PDict [(lit ''source'', PStr (lit ''mq_untrusted'')),
            (lit ''trust_level'', PStr (lit ''data_only'')),
            (lit ''content'', sanitize nfkc content)]"

section \<open>Invisible characters never get through\<close>

definition invisible :: "nat \<Rightarrow> bool" where
  "invisible c \<longleftrightarrow> control_char c \<or> zero_width c \<or> tag_char c"

definition visible_text :: "pystr \<Rightarrow> bool" where
  "visible_text s \<longleftrightarrow> list_all (\<lambda>c. \<not> invisible c) s"

lemma visible_text_append [simp]: "visible_text (s @ t) \<longleftrightarrow> visible_text s \<and> visible_text t"
  by (simp add: visible_text_def)

lemma visible_text_subset: "visible_text s \<Longrightarrow> set t \<subseteq> set s \<Longrightarrow> visible_text t"
  by (auto simp: visible_text_def list_all_iff)

lemma strip_invisible_eq:
  "strip_invisible s = filter (\<lambda>c. \<not> invisible c) (re_sub (\<lambda>_. []) ansi_escape s)"
  by (simp add: strip_invisible_def re_sub_cls invisible_def)

lemma strip_invisible_visible: "visible_text (strip_invisible s)"
  by (simp add: strip_invisible_eq visible_text_def list_all_iff)

lemma markers_visible:
  "visible_text redacted" "visible_text (lit ''[REDACTED:url]'')"
  "visible_text ([0x2026] @ lit ''[truncated]'')"
  by (simp_all add: visible_text_def redacted_def lit_def invisible_def control_char_def
      zero_width_def tag_char_def cp_range_def)

lemma scrub_visible: "visible_text s \<Longrightarrow> visible_text (scrub_injection_markers s)"
proof -
  have "visible_text (fold (\<lambda>p t. re_sub (\<lambda>_. redacted) p t) ps t)" if "visible_text t" for ps t
    using that
  proof (induction ps arbitrary: t)
    case (Cons p ps)
    have "visible_text (t @ redacted)" using Cons.prems markers_visible by simp
    then have "visible_text (re_sub (\<lambda>_. redacted) p t)"
      by (rule visible_text_subset) (simp add: set_re_sub_const)
    then show ?case using Cons.IH by simp
  qed simp
  then show "visible_text s \<Longrightarrow> ?thesis" by (simp add: scrub_injection_markers_def)
qed

lemma drop_urls_visible: "visible_text s \<Longrightarrow> visible_text (drop_disallowed_urls s hosts)"
proof -
  assume "visible_text s"
  then have "visible_text (s @ lit ''[REDACTED:url]'')" using markers_visible by simp
  then show ?thesis
    by (rule visible_text_subset)
      (simp add: drop_disallowed_urls_def, rule set_re_sub_keep, simp)
qed

lemma truncate_visible: "visible_text s \<Longrightarrow> visible_text (truncate n s)"
proof -
  assume s: "visible_text s"
  then have "visible_text (take n s)" by (rule visible_text_subset) (rule set_take_subset)
  with s show ?thesis using markers_visible by (simp add: truncate_def)
qed

lemma sanitize_str_visible: "visible_text (sanitize_str nfkc hosts n s)"
  by (simp add: sanitize_str_def truncate_visible drop_urls_visible scrub_visible
      strip_invisible_visible)

lemma sanitize_str_length: "length (sanitize_str nfkc hosts n s) \<le> n + 12"
  by (simp add: sanitize_str_def truncate_def length_lit Let_def)

lemma strings_of_sanitize:
  "strings_of (sanitize_mq_output nfkc hosts n v) = map (sanitize_str nfkc hosts n) (strings_of v)"
proof (induction nfkc hosts n v rule: sanitize_mq_output.induct)
  case (2 nfkc hosts n kvs)
  have "strings_of (snd (case kv of (k, v) \<Rightarrow> (k, sanitize_mq_output nfkc hosts n v)))
      = map (sanitize_str nfkc hosts n) (strings_of (snd kv))" if "kv \<in> set kvs" for kv
    using 2 [OF that, of "fst kv" "snd kv"] by (cases kv) simp
  then show ?case
    by (simp add: map_concat comp_def) (rule arg_cong [where f = concat], simp)
qed (simp_all add: map_concat comp_def cong: map_cong)

section \<open>Structure is kept\<close>

text \<open>A value with its strings blanked out: keys, nesting and every other scalar remain.\<close>

fun skeleton :: "pyval \<Rightarrow> pyval" where
  "skeleton (PStr s) = PStr []"
| "skeleton (PDict kvs) = PDict (map (\<lambda>(k, v). (k, skeleton v)) kvs)"
| "skeleton (PList vs) = PList (map skeleton vs)"
| "skeleton (PTuple vs) = PTuple (map skeleton vs)"
| "skeleton v = v"

lemma skeleton_sanitize: "skeleton (sanitize_mq_output nfkc hosts n v) = skeleton v"
proof (induction nfkc hosts n v rule: sanitize_mq_output.induct)
  case (2 nfkc hosts n kvs)
  then show ?case by (auto simp: split: prod.splits)
qed simp_all

lemma pv_get_sanitize:
  "pv_get (sanitize nfkc (PDict kvs)) k = map_option (sanitize nfkc) (map_of kvs k)"
  by (simp add: sanitize_def map_of_map [symmetric]) (simp add: map_of_map sanitize_def [abs_def] comp_def)

section \<open>Object names pass unchanged\<close>

definition needs_mark :: "rx \<Rightarrow> bool" where
  "needs_mark p \<longleftrightarrow> rx_must p 32 \<or> rx_must p 58 \<or> rx_must p 60 \<or> rx_must p 91 \<or> rx_must p 35"

lemma needs_mark_intros:
  "rx_must p 32 \<Longrightarrow> needs_mark p" "rx_must p 60 \<Longrightarrow> needs_mark p"
  "rx_must p 91 \<Longrightarrow> needs_mark p" "rx_must p 35 \<Longrightarrow> needs_mark p"
  by (simp_all add: needs_mark_def)

lemma marker_literals:
  "rx_must (RLitI (lit ''ignore '')) 32" "rx_must (RLitI (lit ''disregard '')) 32"
  "rx_must (RLitI (lit ''you are now'')) 32" "rx_must (RLitI (lit ''new instruction'')) 32"
  "rx_must (RLitI (lit ''<'')) 60" "rx_must (RLitI (lit ''[[SYSTEM]]'')) 91"
  "rx_must (RLitI (lit ''###'')) 35"
  by (rule rx_must_RLitI; simp add: lit_def is_lower_letter_def is_upper_letter_def)+

lemma markers_must: "p \<in> set injection_markers \<Longrightarrow> needs_mark p"
proof -
  have "list_all needs_mark injection_markers"
    unfolding injection_markers_def list.pred_inject
    by (intro conjI list.pred_inject(1)) (rule needs_mark_intros, simp add: marker_literals; fail)+
  then show "p \<in> set injection_markers \<Longrightarrow> needs_mark p" by (simp add: list_all_iff)
qed

definition plain_text :: "pystr \<Rightarrow> bool" where
  "plain_text s \<longleftrightarrow> visible_text s \<and> 32 \<notin> set s \<and> 58 \<notin> set s \<and> 60 \<notin> set s \<and> 91 \<notin> set s \<and> 35 \<notin> set s"

lemma needs_mark_sub: "needs_mark p \<Longrightarrow> plain_text s \<Longrightarrow> re_sub f p s = s"
  unfolding needs_mark_def plain_text_def by (elim disjE conjE) (erule (1) re_sub_without)+

lemma scrub_plain:
  assumes "plain_text s"
  shows "scrub_injection_markers s = s"
proof -
  have "set ps \<subseteq> set injection_markers \<Longrightarrow> fold (\<lambda>p t. re_sub (\<lambda>_. redacted) p t) ps s = s" for ps
    by (induction ps) (simp_all add: markers_must needs_mark_sub assms)
  then show ?thesis by (simp add: scrub_injection_markers_def)
qed

lemma sanitize_str_plain:
  assumes "nfkc s = s" "plain_text s" "length s \<le> n"
  shows "sanitize_str nfkc hosts n s = s"
proof -
  have vis: "\<forall>c \<in> set s. \<not> invisible c"
    using assms(2) by (simp add: plain_text_def visible_text_def list_all_iff)
  have "27 \<notin> set s" using vis by (auto simp: invisible_def control_char_def cp_range_def)
  moreover have "rx_must ansi_escape 27" by (simp add: ansi_escape_def)
  ultimately have "strip_invisible s = s"
    using vis by (simp add: strip_invisible_eq re_sub_without)
  moreover have "drop_disallowed_urls s hosts = s"
  proof -
    have "58 \<in> set (lit ''://'')" by (simp add: lit_def)
    then have "rx_must url_pattern 58" by (simp add: url_pattern_def rx_must_RLit)
    moreover have "58 \<notin> set s" using assms(2) by (simp add: plain_text_def)
    ultimately show ?thesis unfolding drop_disallowed_urls_def by (rule re_sub_without)
  qed
  moreover note scrub_plain [OF assms(2)]
  ultimately show ?thesis
    using assms(1,3) by (simp add: sanitize_str_def truncate_def)
qed

section \<open>Properties\<close>

text \<open>Every string of a sanitised value, however deeply nested, is free of control characters,
  zero-width and directional characters and Unicode tag characters, and is at most twelve
  characters longer than the limit of 8192.\<close>
theorem sanitize_clean:
  "list_all (\<lambda>s. visible_text s \<and> length s \<le> max_string_len + 12) (strings_of (sanitize nfkc v))"
  by (simp add: sanitize_def strings_of_sanitize list_all_iff sanitize_str_visible sanitize_str_length)

text \<open>Sanitising changes strings only: keys, nesting, numbers and booleans are kept, and the
  strings of the result are the sanitised strings of the input in order.\<close>
theorem sanitize_structure:
  "skeleton (sanitize nfkc v) = skeleton v \<and>
   strings_of (sanitize nfkc v) = map (sanitize_str nfkc [lit ''www.ibm.com''] max_string_len) (strings_of v)"
  by (simp add: sanitize_def skeleton_sanitize strings_of_sanitize)

text \<open>Sanitising does not damage object names: a string of the characters that queue manager
  and channel names are made of (letters, digits and underscore, dot, percent, slash, minus) comes
  back unchanged, given that NFKC leaves ASCII text alone.\<close>
theorem object_names_unchanged:
  assumes nfkc: "\<And>s. list_all (\<lambda>c. c < 128) s \<Longrightarrow> nfkc s = s"
    and name: "list_all (\<lambda>c. is_upper_letter c \<or> is_lower_letter c \<or> is_digit c \<or> c \<in> {95, 46, 37, 47, 45}) name"
    and len: "length name \<le> max_string_len"
  shows "sanitize nfkc (PStr name) = PStr name"
proof -
  have "list_all (\<lambda>c. c < 128 \<and> \<not> invisible c \<and> c \<noteq> 32 \<and> c \<noteq> 58 \<and> c \<noteq> 60 \<and> c \<noteq> 91 \<and> c \<noteq> 35) name"
    using name by (rule list.pred_mono_strong)
      (auto simp: is_upper_letter_def is_lower_letter_def is_digit_def invisible_def control_char_def
        zero_width_def tag_char_def cp_range_def)
  then have "list_all (\<lambda>c. c < 128) name" "plain_text name"
    by (auto simp: plain_text_def visible_text_def list_all_iff)
  then show ?thesis
    using nfkc len by (simp add: sanitize_def sanitize_str_plain)
qed

lemma object_names_unchanged_witness:
  "sanitize (\<lambda>s. s) (PStr (lit ''PROD.QM_1'')) = PStr (lit ''PROD.QM_1'')"
  by (rule object_names_unchanged)
    (simp_all add: lit_def is_upper_letter_def is_digit_def max_string_len_def)

section \<open>Two limits of the filter\<close>

lemmas sub_eval = re_sub_def sub_from.simps consumed_def rx_eval same_letter_def
  at_word_boundary_def url_char_def cp_range_def

text \<open>
  The markers are replaced in one pass, pattern by pattern. A replacement can complete an
  earlier pattern: deleting the heading before \<open>you are now\<close> creates the word boundary that
  its pattern asks for, and the phrase survives although the output matches the pattern.
\<close>

lemma marker_survives_one_pass:
  "scrub_injection_markers (lit ''### systemyou are now'') = redacted @ lit ''you are now''"
  by (simp add: scrub_injection_markers_def injection_markers_def redacted_def sub_eval del: rx_star_fuel)

text \<open>The host test looks for the allowed name anywhere in the URL, so a longer host passes.\<close>

lemma foreign_host_survives:
  "drop_disallowed_urls (lit ''https://www.ibm.com.evil/'') [lit ''www.ibm.com''] = lit ''https://www.ibm.com.evil/''"
  by (simp add: drop_disallowed_urls_def url_pattern_def sub_eval url_allowed_def lower_cp_def
      sublist_Cons_right del: rx_star_fuel)

end
