(* ===== verification/Allowlist.thy ===== *)
theory Allowlist
  imports Regex
begin

text \<open>
  \<open>security/allowlist.py\<close>: the read-only gate in front of every MQSC and shell command.
  The verb tables, the comment stripper and the shell argument patterns are the source's;
  the lemmas say which commands get through, on the text that is executed and not on the
  stripped text that the gate inspects.
\<close>

section \<open>The policy\<close>

definition mqsc_allowed_verbs :: "pystr list" where
  "mqsc_allowed_verbs = [lit ''DISPLAY'', lit ''DIS'', lit ''PING'']"

definition mqsc_denied_verbs :: "pystr list" where
  "mqsc_denied_verbs =
     [lit ''ALTER'', lit ''DEFINE'', lit ''DELETE'', lit ''START'', lit ''STOP'', lit ''SUSPEND'',
      lit ''RESUME'', lit ''REFRESH'', lit ''RESET'', lit ''CLEAR'', lit ''MOVE'', lit ''RECOVER'',
      lit ''SET'', lit ''BACKUP'', lit ''END'', lit ''ARCHIVE'', lit ''RECORD'', lit ''REVERIFY'',
      lit ''CHANGE'']"

text \<open>\<open>[;\\n\\r\\x00]\<close>.\<close>

definition mqsc_forbidden_char :: "nat \<Rightarrow> bool" where
  "mqsc_forbidden_char c \<longleftrightarrow> c = 59 \<or> c = 10 \<or> c = 13 \<or> c = 0"

text \<open>\<open>\\*.*$|--.*$\<close> with \<open>re.MULTILINE\<close>.\<close>

definition dot :: rx where
  "dot = RCls (\<lambda>c. c \<noteq> 10)"

definition mqsc_comment :: rx where
  "mqsc_comment =
     RAlt (RSeq (RCls (\<lambda>c. c = 42)) (RSeq (RStar dot) REol))
          (RSeq (RLit [45, 45]) (RSeq (RStar dot) REol))"

definition strip_mqsc_comments :: "pystr \<Rightarrow> pystr" where
  "strip_mqsc_comments command = strip (re_sub (\<lambda>_. []) mqsc_comment command)"

definition assert_mqsc_allowed :: "pystr \<Rightarrow> exn + unit" where
  "assert_mqsc_allowed command =
     (if command = [] \<or> strip command = [] then
        Inl (CommandNotAllowedError (lit ''empty MQSC command''))
      else if \<exists>c \<in> set command. mqsc_forbidden_char c then
        Inl (CommandNotAllowedError (lit ''MQSC contains forbidden character (;, newline, NUL)''))
      else
        let cleaned = strip_mqsc_comments command in
        if cleaned = [] then
          Inl (CommandNotAllowedError (lit ''MQSC command is empty after comment strip''))
        else
          let tokens = split_ws cleaned; verb = upper (hd tokens) in
          if verb \<in> set mqsc_denied_verbs then
            Inl (CommandNotAllowedError (lit ''MQSC verb '' @ squote verb @ lit '' is denied (read-only mode)''))
          else if verb \<notin> set mqsc_allowed_verbs then
            Inl (CommandNotAllowedError (lit ''MQSC verb '' @ squote verb @ lit '' is not in allowlist''))
          else if verb = lit ''PING'' then
            let second = (if 2 \<le> length tokens then before 40 (upper (tokens ! 1)) else []) in
            if second \<noteq> lit ''CHANNEL'' then
              Inl (CommandNotAllowedError (lit ''PING is only allowed as '' @ squote (lit ''PING CHANNEL'')))
            else Inr ()
          else Inr ())"

text \<open>\<open>[A-Z0-9._%/]\<close>, the characters of MQ object names.\<close>

definition mq_name_char :: "nat \<Rightarrow> bool" where
  "mq_name_char c \<longleftrightarrow> is_upper_letter c \<or> is_digit c \<or> c = 46 \<or> c = 95 \<or> c = 37 \<or> c = 47"

definition dspmq_flag :: rx where
  "dspmq_flag =
     RAlt (RSeq (RLit (lit ''-'')) (RCls (chr_in ''mnosxa'')))
          (RSeq (RLit (lit ''-o'')) (RSeq (RPlus (RCls is_space)) (RPlus (RCls is_word))))"

definition mq_name_48 :: rx where
  "mq_name_48 = RSeq (RCls mq_name_char) (RUpTo 47 (RCls mq_name_char))"

text \<open>\<open>_SHELL_ALLOWED\<close>: every pattern is \<open>^...$\<close>; the table holds what stands between.\<close>

definition anchored :: "rx \<Rightarrow> rx" where
  "anchored r = RSeq RBos (RSeq r REos)"

definition shell_bodies :: "(pystr \<times> rx) list" where
  "shell_bodies =
     [(lit ''dspmq'',
         RGrp 1 (RAlt REps
           (RSeq (RGrp 2 dspmq_flag)
             (RStar (RGrp 3 (RSeq (RPlus (RCls is_space)) (RGrp 4 dspmq_flag))))))),
      (lit ''dspmqinf'', mq_name_48),
      (lit ''dspmqver'',
         RGrp 1 (RAlt REps (RSeq (RLit (lit ''-'')) (RCls (chr_in ''pf''))))),
      (lit ''rdqmstatus'',
         RGrp 1 (RAlt REps (RSeq (RLit (lit ''-m'')) (RSeq (RPlus (RCls is_space)) mq_name_48)))),
      (lit ''crm_mon'',
         RGrp 1 (RAlt REps (RSeq (RLit (lit ''-'')) (RPlus (RCls (chr_in ''1rnfA'')))))),
      (lit ''drbdadm'',
         RSeq (RLit (lit ''status''))
           (ROpt (RGrp 1 (RSeq (RPlus (RCls is_space))
             (RPlus (RCls (\<lambda>c. is_lower_letter c \<or> is_digit c \<or> c = 95 \<or> c = 45)))))))]"

definition shell_pattern :: "pystr \<Rightarrow> rx option" where
  "shell_pattern binary = map_option anchored (map_of shell_bodies binary)"

text \<open>
  The message of the last branch shows the arguments with \<open>repr\<close>; quoting stands for it.
\<close>

definition assert_shell_allowed :: "pystr list \<Rightarrow> exn + unit" where
  "assert_shell_allowed argv =
     (case argv of
        [] \<Rightarrow> Inl (CommandNotAllowedError (lit ''empty argv''))
      | binary # rest \<Rightarrow>
          (case shell_pattern binary of
             None \<Rightarrow> Inl (CommandNotAllowedError (lit ''binary '' @ squote binary @ lit '' not in shell allowlist''))
           | Some pat \<Rightarrow>
               let args = join (lit '' '') rest in
               (case re_match pat args of
                  None \<Rightarrow> Inl (CommandNotAllowedError
                    (lit ''arguments for '' @ squote binary @ lit '' failed validation: '' @ py_repr args))
                | Some _ \<Rightarrow> Inr ())))"

abbreviation mqsc_ok :: "pystr \<Rightarrow> bool" where
  "mqsc_ok command \<equiv> assert_mqsc_allowed command = Inr ()"

abbreviation shell_ok :: "pystr list \<Rightarrow> bool" where
  "shell_ok argv \<equiv> assert_shell_allowed argv = Inr ()"

section \<open>The comment stripper cuts at the first comment\<close>

fun cut_comment :: "pystr \<Rightarrow> pystr" where
  "cut_comment [] = []"
| "cut_comment (c # s) = (if c = 42 \<or> c = 45 \<and> s \<noteq> [] \<and> hd s = 45 then [] else c # cut_comment s)"

lemma comment_tail_run:
  assumes "10 \<notin> set a"
  shows "\<exists>rest. rx_run (RSeq (RStar dot) REol) (b, a, g) = (rev a @ b, [], g) # rest"
proof -
  have "takeWhile (\<lambda>c. c \<noteq> 10) a = a" "dropWhile (\<lambda>c. c \<noteq> 10) a = []"
    using assms by (auto simp: takeWhile_idem_if_all dropWhile_Nil_iff)
  with star_cls_greedy [of "\<lambda>c. c \<noteq> 10" b a g] show ?thesis
    by (auto simp: dot_def simp del: rx_run.simps(5))
qed

lemma comment_first_match:
  assumes "10 \<notin> set (c # s)"
  shows "first_match mqsc_comment b (c # s) =
     (if c = 42 \<or> c = 45 \<and> s \<noteq> [] \<and> hd s = 45 then Some (rev s @ c # b, [], []) else None)"
proof -
  have star: "\<exists>rest. rx_run (RSeq (RStar dot) REol) (c # b, s, []) = (rev s @ c # b, [], []) # rest"
    using assms by (intro comment_tail_run) auto
  have dash: "\<exists>rest. rx_run (RSeq (RStar dot) REol) (d # c # b, s', []) = (rev s' @ d # c # b, [], []) # rest"
    if "s = d # s'" for d s'
    using assms that by (intro comment_tail_run) auto
  show ?thesis
  proof (cases s)
    case Nil
    then show ?thesis
      using star by (auto simp: first_match_def mqsc_comment_def simp del: rx_run.simps(3,5))
        (auto simp: rx_run.simps(3) simp del: rx_run.simps(5))
  next
    case (Cons d s')
    with star dash [OF Cons] show ?thesis
      by (auto simp: first_match_def mqsc_comment_def rx_run.simps(3) [of "RCls _"]
          rx_run.simps(3) [of "RLit _"] simp del: rx_run.simps(3,5))
        (auto simp: rx_run.simps(3) simp del: rx_run.simps(5))
  qed
qed

lemma sub_comment: "10 \<notin> set s \<Longrightarrow> sub_from (\<lambda>_. []) mqsc_comment b s = cut_comment s"
proof (induction s arbitrary: b)
  case Nil
  then show ?case by simp
next
  case (Cons c s)
  show ?case
  proof (cases "c = 42 \<or> c = 45 \<and> s \<noteq> [] \<and> hd s = 45")
    case True
    with comment_first_match [OF Cons.prems, of b] show ?thesis
      by (subst sub_from_Some) auto
  next
    case False
    with comment_first_match [OF Cons.prems, of b] Cons show ?thesis
      by (subst sub_from_None) auto
  qed
qed

lemma strip_mqsc_comments_eq: "10 \<notin> set s \<Longrightarrow> strip_mqsc_comments s = strip (cut_comment s)"
  by (simp add: strip_mqsc_comments_def re_sub_def sub_comment)

lemma cut_comment_prefix: "\<exists>q. s = cut_comment s @ q \<and> (q = [] \<or> hd q = 42 \<or> prefix [45, 45] q)"
proof (induction s)
  case Nil
  then show ?case by simp
next
  case (Cons c s)
  show ?case
  proof (cases "c = 42 \<or> c = 45 \<and> s \<noteq> [] \<and> hd s = 45")
    case True
    then show ?thesis by (cases s) auto
  next
    case False
    with Cons show ?thesis by auto
  qed
qed

lemma cut_comment_append:
  "(\<And>c. c \<in> set p \<Longrightarrow> c \<noteq> 42 \<and> c \<noteq> 45) \<Longrightarrow> cut_comment (p @ s) = p @ cut_comment s"
  by (induction p) auto

section \<open>Words of a command\<close>

lemma first_word:
  "split_ws s \<noteq> [] \<Longrightarrow> hd (split_ws s) = takeWhile (\<lambda>c. \<not> is_space c) (dropWhile is_space s)"
  by (subst (asm) split_ws.simps, subst split_ws.simps) (auto simp: Let_def split: if_splits)

lemma takeWhile_cut_comment:
  assumes "P 42" "P 45"
  shows "takeWhile P (cut_comment s) = cut_comment (takeWhile P s)"
proof (induction s)
  case Nil
  then show ?case by simp
next
  case (Cons c s)
  then show ?case using assms by (cases s) auto
qed

lemma dropWhile_cut_comment:
  assumes "\<not> P 42" "\<not> P 45"
  shows "dropWhile P (cut_comment s) = cut_comment (dropWhile P s)"
  using assms by (induction s) auto

lemma first_word_cut_comment:
  assumes "split_ws (cut_comment s) \<noteq> []"
  shows "split_ws s \<noteq> [] \<and> hd (split_ws (cut_comment s)) = cut_comment (hd (split_ws s))"
proof -
  obtain q where "s = cut_comment s @ q" using cut_comment_prefix by blast
  then have "set (cut_comment s) \<subseteq> set s" by (metis set_append sup_ge1)
  with assms have ne: "split_ws s \<noteq> []" unfolding split_ws_eq_Nil_iff by blast
  have "hd (split_ws (cut_comment s))
      = takeWhile (\<lambda>c. \<not> is_space c) (dropWhile is_space (cut_comment s))"
    using assms by (rule first_word)
  also have "\<dots> = cut_comment (takeWhile (\<lambda>c. \<not> is_space c) (dropWhile is_space s))"
    by (simp add: dropWhile_cut_comment takeWhile_cut_comment is_space_def)
  also have "takeWhile (\<lambda>c. \<not> is_space c) (dropWhile is_space s) = hd (split_ws s)"
    using first_word [OF ne] by simp
  finally show ?thesis using ne by blast
qed

lemma cut_comment_id: "42 \<notin> set s \<Longrightarrow> 45 \<notin> set s \<Longrightarrow> cut_comment s = s"
  using cut_comment_append [of s "[]"] by auto

lemma split_ws_append_space: "(\<And>c. c \<in> set w \<Longrightarrow> is_space c) \<Longrightarrow> split_ws (s @ w) = split_ws s"
proof (induction s rule: split_ws.induct)
  case (1 s)
  obtain u where u: "dropWhile is_space s = u" by simp
  show ?case
  proof (cases "u = []")
    case True
    then have "\<forall>c \<in> set s. is_space c" using u by (simp add: dropWhile_Nil_iff)
    with 1(2) have "split_ws (s @ w) = []" "split_ws s = []"
      by (auto simp: split_ws_eq_Nil_iff)
    then show ?thesis by simp
  next
    case False
    let ?t = "dropWhile (\<lambda>c. \<not> is_space c) u"
    have uw: "dropWhile is_space (s @ w) = u @ w"
      using False u by (metis dropWhile_append dropWhile_append1 dropWhile_eq_Nil_conv)
    have tw: "takeWhile (\<lambda>c. \<not> is_space c) (u @ w) = takeWhile (\<lambda>c. \<not> is_space c) u"
      using 1(2) by (cases w) (auto simp: takeWhile_append takeWhile_idem_if_all)
    have dw: "split_ws (dropWhile (\<lambda>c. \<not> is_space c) (u @ w)) = split_ws ?t"
    proof (cases "?t = []")
      case True
      then have "dropWhile (\<lambda>c. \<not> is_space c) (u @ w) = w"
        using 1(2) by (cases w) (auto simp: dropWhile_append dropWhile_Nil_iff)
      moreover have "split_ws w = []" using 1(2) by (simp add: split_ws_eq_Nil_iff)
      ultimately show ?thesis by (simp only: True split_ws_Nil)
    next
      case False
      then have "dropWhile (\<lambda>c. \<not> is_space c) (u @ w) = ?t @ w"
        by (auto simp: dropWhile_append dropWhile_Nil_iff)
      then show ?thesis using 1(1) [OF u [symmetric] \<open>u \<noteq> []\<close>] 1(2) by simp
    qed
    have "u @ w \<noteq> []" using False by simp
    from split_ws_step [OF uw this] split_ws_step [OF u False] tw dw show ?thesis by simp
  qed
qed

lemma split_ws_dropWhile: "split_ws (dropWhile is_space s) = split_ws s"
  by (induction s) (auto simp: split_ws_space)

lemma split_ws_strip: "split_ws (strip s) = split_ws s"
proof -
  obtain w where w: "lstrip s = rstrip (lstrip s) @ w" "\<forall>c \<in> set w. is_space c"
    using rstrip_decomp by blast
  have "split_ws s = split_ws (lstrip s)"
    unfolding lstrip_def by (rule split_ws_dropWhile [symmetric])
  also have "\<dots> = split_ws (rstrip (lstrip s))"
    using w split_ws_append_space by metis
  finally show ?thesis by (simp add: strip_def)
qed

section \<open>Which MQSC commands pass\<close>

definition allowed_words :: "pystr list \<Rightarrow> bool" where
  "allowed_words ws \<longleftrightarrow>
     ws \<noteq> [] \<and>
     (upper (hd ws) = lit ''DISPLAY'' \<or> upper (hd ws) = lit ''DIS'' \<or>
      upper (hd ws) = lit ''PING'' \<and> 2 \<le> length ws \<and> before 40 (upper (ws ! 1)) = lit ''CHANNEL'')"

lemma verbs_disjoint: "v \<in> set mqsc_allowed_verbs \<Longrightarrow> v \<notin> set mqsc_denied_verbs"
  by (auto simp: mqsc_allowed_verbs_def mqsc_denied_verbs_def)

lemma mqsc_ok_iff:
  "mqsc_ok c \<longleftrightarrow> (\<forall>x \<in> set c. \<not> mqsc_forbidden_char x) \<and> allowed_words (split_ws (cut_comment c))"
proof (cases "\<exists>x \<in> set c. mqsc_forbidden_char x")
  case True
  then show ?thesis by (auto simp: assert_mqsc_allowed_def)
next
  case False
  then have nl: "10 \<notin> set c" by (auto simp: mqsc_forbidden_char_def)
  let ?ws = "split_ws (cut_comment c)"
  have ws: "split_ws (strip_mqsc_comments c) = ?ws"
    by (simp add: strip_mqsc_comments_eq [OF nl] split_ws_strip)
  have empty: "strip_mqsc_comments c = [] \<longleftrightarrow> ?ws = []"
    by (simp add: strip_mqsc_comments_eq [OF nl] strip_eq_Nil_iff split_ws_eq_Nil_iff)
  have blank: "?ws = []" if "strip c = []"
    using that cut_comment_prefix [of c]
    unfolding strip_eq_Nil_iff split_ws_eq_Nil_iff by (metis UnCI set_append)
  show ?thesis
  proof (cases "?ws = []")
    case True
    then show ?thesis using False empty
      by (auto simp: assert_mqsc_allowed_def allowed_words_def Let_def)
  next
    case nonempty: False
    with blank have "strip c \<noteq> []" by blast
    moreover from this have "c \<noteq> []" by auto
    ultimately show ?thesis using False empty nonempty ws
      by (auto simp: assert_mqsc_allowed_def allowed_words_def Let_def mqsc_allowed_verbs_def
          mqsc_denied_verbs_def)
  qed
qed

lemma mqsc_refusal: "\<not> mqsc_ok c \<Longrightarrow> \<exists>m. assert_mqsc_allowed c = Inl (CommandNotAllowedError m)"
  by (auto simp: assert_mqsc_allowed_def Let_def split: if_splits)

lemma mqsc_ok_no_forbidden: "mqsc_ok c \<Longrightarrow> x \<in> set c \<Longrightarrow> \<not> mqsc_forbidden_char x"
  by (simp add: mqsc_ok_iff)

lemma mqsc_ok_first_word:
  assumes "mqsc_ok c"
  shows "split_ws c \<noteq> [] \<and> upper (cut_comment (hd (split_ws c))) \<in> set mqsc_allowed_verbs"
  using assms first_word_cut_comment [of c]
  unfolding mqsc_ok_iff allowed_words_def mqsc_allowed_verbs_def by auto

text \<open>The two shapes of commands that the diagnostics build.\<close>

lemma split_ws_word:
  assumes "t \<noteq> []" "\<And>c. c \<in> set t \<Longrightarrow> \<not> is_space c" "r = [] \<or> is_space (hd r)"
  shows "split_ws (t @ r) = t # split_ws r"
proof -
  have "dropWhile is_space (t @ r) = t @ r"
    using assms by (cases t) auto
  from split_ws_step [OF this] assms
  have "split_ws (t @ r) = takeWhile (\<lambda>c. \<not> is_space c) (t @ r) #
      split_ws (dropWhile (\<lambda>c. \<not> is_space c) (t @ r))" by simp
  moreover have "takeWhile (\<lambda>c. \<not> is_space c) (t @ r) = t" "dropWhile (\<lambda>c. \<not> is_space c) (t @ r) = r"
    using assms by (cases r; auto simp: takeWhile_append dropWhile_append dropWhile_Nil_iff)+
  ultimately show ?thesis by simp
qed

lemma display_ok [guard_simps]:
  assumes "\<And>c. c \<in> set r \<Longrightarrow> \<not> mqsc_forbidden_char c"
  shows "mqsc_ok (lit ''DISPLAY '' @ r)"
proof -
  have cut: "cut_comment (lit ''DISPLAY '' @ r) = lit ''DISPLAY'' @ 32 # cut_comment r"
    by (subst cut_comment_append) (auto simp: lit_def)
  have "split_ws (cut_comment (lit ''DISPLAY '' @ r)) = lit ''DISPLAY'' # split_ws (32 # cut_comment r)"
    unfolding cut by (rule split_ws_word) (auto simp: lit_def is_space_def)
  moreover have "upper (lit ''DISPLAY'') = lit ''DISPLAY''"
    by (simp add: lit_def upper_cp_def is_lower_letter_def)
  ultimately have "allowed_words (split_ws (cut_comment (lit ''DISPLAY '' @ r)))"
    by (simp add: allowed_words_def)
  then show ?thesis using assms
    by (auto simp: mqsc_ok_iff) (auto simp: lit_def mqsc_forbidden_char_def)
qed

lemma ping_channel_ok [guard_simps]:
  assumes "\<And>c. c \<in> set r \<Longrightarrow> \<not> mqsc_forbidden_char c"
  shows "mqsc_ok (lit ''PING CHANNEL('' @ r)"
proof -
  have cut: "cut_comment (lit ''PING CHANNEL('' @ r) = lit ''PING'' @ 32 # lit ''CHANNEL('' @ cut_comment r"
    by (subst cut_comment_append) (auto simp: lit_def)
  obtain w ws where w: "split_ws (lit ''CHANNEL('' @ cut_comment r) = (lit ''CHANNEL('' @ w) # ws"
  proof -
    have ne: "split_ws (lit ''CHANNEL('' @ cut_comment r) \<noteq> []"
      by (simp add: split_ws_eq_Nil_iff lit_def is_space_def)
    from first_word [OF this]
    have "hd (split_ws (lit ''CHANNEL('' @ cut_comment r))
        = lit ''CHANNEL('' @ takeWhile (\<lambda>c. \<not> is_space c) (cut_comment r)"
      by (simp add: lit_def is_space_def)
    with ne show ?thesis using that by (metis list.collapse)
  qed
  have "split_ws (cut_comment (lit ''PING CHANNEL('' @ r))
      = lit ''PING'' # split_ws (32 # lit ''CHANNEL('' @ cut_comment r)"
    unfolding cut by (rule split_ws_word) (auto simp: lit_def is_space_def)
  also have "split_ws (32 # lit ''CHANNEL('' @ cut_comment r) = (lit ''CHANNEL('' @ w) # ws"
    using w by (simp add: split_ws_space is_space_def)
  finally have words: "split_ws (cut_comment (lit ''PING CHANNEL('' @ r)) = lit ''PING'' # (lit ''CHANNEL('' @ w) # ws" .
  have "upper (lit ''PING'') = lit ''PING''" "before 40 (upper (lit ''CHANNEL('' @ w)) = lit ''CHANNEL''"
    by (simp_all add: lit_def upper_cp_def is_lower_letter_def before_def upper_append)
  with words have "allowed_words (split_ws (cut_comment (lit ''PING CHANNEL('' @ r)))"
    by (simp add: allowed_words_def)
  then show ?thesis using assms
    by (auto simp: mqsc_ok_iff) (auto simp: lit_def mqsc_forbidden_char_def)
qed

section \<open>Which shell commands pass\<close>

definition shell_safe_char :: "nat \<Rightarrow> bool" where
  "shell_safe_char c \<longleftrightarrow> is_space c \<or> is_word c \<or> c = 45 \<or> c = 46 \<or> c = 37 \<or> c = 47"

lemma anchored_match:
  "(\<exists>t. re_match (anchored r) s = Some t) \<longleftrightarrow> (\<exists>w a. s = w @ a \<and> rx_rel r [] w a \<and> (a = [] \<or> a = [10]))"
  unfolding re_match_Some_iff anchored_def rel_seq_iff by (auto; blast)

lemma shell_ok_iff:
  "shell_ok argv \<longleftrightarrow>
     (\<exists>binary rest body w a. argv = binary # rest \<and> map_of shell_bodies binary = Some body \<and>
        join (lit '' '') rest = w @ a \<and> rx_rel body [] w a \<and> (a = [] \<or> a = [10]))"
proof (cases argv)
  case Nil
  then show ?thesis by (simp add: assert_shell_allowed_def)
next
  case (Cons binary rest)
  show ?thesis
  proof (cases "map_of shell_bodies binary")
    case None
    with Cons show ?thesis by (simp add: assert_shell_allowed_def shell_pattern_def)
  next
    case (Some body)
    have "shell_ok argv \<longleftrightarrow> (\<exists>t. re_match (anchored body) (join (lit '' '') rest) = Some t)"
      using Cons Some by (auto simp: assert_shell_allowed_def shell_pattern_def Let_def split: option.splits)
    then show ?thesis
      unfolding anchored_match using Cons Some by auto
  qed
qed

lemma safe_classes:
  "mq_name_char c \<Longrightarrow> shell_safe_char c" "is_space c \<Longrightarrow> shell_safe_char c"
  "is_word c \<Longrightarrow> shell_safe_char c" "is_lower_letter c \<Longrightarrow> shell_safe_char c"
  "is_digit c \<Longrightarrow> shell_safe_char c"
  by (auto simp: shell_safe_char_def mq_name_char_def is_word_def)

lemma safe_table:
  "list_all shell_safe_char (lit ''-'')" "list_all shell_safe_char (lit ''-o'')"
  "list_all shell_safe_char (lit ''-m'')" "list_all shell_safe_char (lit ''status'')"
  "list_all shell_safe_char (lit ''mnosxa'')" "list_all shell_safe_char (lit ''pf'')"
  "list_all shell_safe_char (lit ''1rnfA'')" "list_all shell_safe_char [95, 45]"
  by (simp_all add: lit_def shell_safe_char_def is_word_def is_digit_def is_lower_letter_def
      is_upper_letter_def)

lemma safe_literals:
  "c \<in> set (lit ''-'') \<Longrightarrow> shell_safe_char c" "c \<in> set (lit ''-o'') \<Longrightarrow> shell_safe_char c"
  "c \<in> set (lit ''-m'') \<Longrightarrow> shell_safe_char c" "c \<in> set (lit ''status'') \<Longrightarrow> shell_safe_char c"
  "chr_in ''mnosxa'' c \<Longrightarrow> shell_safe_char c" "chr_in ''pf'' c \<Longrightarrow> shell_safe_char c"
  "chr_in ''1rnfA'' c \<Longrightarrow> shell_safe_char c" "shell_safe_char 95" "shell_safe_char 45"
  using safe_table unfolding list_all_iff chr_in_def by simp_all

lemma shell_bodies_safe: "(binary, body) \<in> set shell_bodies \<Longrightarrow> rx_may body c \<Longrightarrow> shell_safe_char c"
  unfolding shell_bodies_def dspmq_flag_def mq_name_48_def
  by (auto intro: safe_classes safe_literals)

lemma shell_ok_safe:
  assumes "shell_ok (binary # rest)" and "c \<in> set (join (lit '' '') rest)"
  shows "shell_safe_char c"
proof -
  from assms(1) obtain body w a where body: "map_of shell_bodies binary = Some body"
    and j: "join (lit '' '') rest = w @ a" and m: "rx_rel body [] w a" and a: "a = [] \<or> a = [10]"
    by (auto simp: shell_ok_iff)
  from assms(2) j a consider "c \<in> set w" | "c = 10" by auto
  then show ?thesis
  proof cases
    case 1
    with m have "rx_may body c" by (rule rx_rel_may)
    with body show ?thesis by (blast intro: shell_bodies_safe map_of_SomeD)
  next
    case 2
    then show ?thesis by (simp add: shell_safe_char_def is_space_def)
  qed
qed

text \<open>The argument vectors that the diagnostics run.\<close>

lemmas shell_eval = assert_shell_allowed_def shell_pattern_def shell_bodies_def anchored_def
  dspmq_flag_def mq_name_48_def mq_name_char_def rx_eval

lemma shell_ok_used [guard_simps]:
  "shell_ok [lit ''rdqmstatus'']"
  "shell_ok [lit ''dspmq'', lit ''-o'', lit ''standby'']"
  "shell_ok [lit ''dspmq'', lit ''-x'']"
  "shell_ok [lit ''crm_mon'', lit ''-1'']"
  "shell_ok [lit ''drbdadm'', lit ''status'']"
  by (simp_all add: shell_eval del: rx_star_fuel)

section \<open>Properties\<close>

text \<open>C10: The MQSC gate is deny-by-default and exact: a command gets through iff it holds no
  separator, line break or NUL, and what stands before its first comment is a DISPLAY or DIS
  command, or a PING whose second word is CHANNEL up to its parenthesis.\<close>
theorem mqsc_gate_exact:
  "mqsc_ok c \<longleftrightarrow>
     list_all (\<lambda>x. \<not> mqsc_forbidden_char x) c \<and> allowed_words (split_ws (cut_comment c))"
  by (simp add: mqsc_ok_iff list_all_iff)

text \<open>A command whose first word is a mutating verb, in any letter case, is refused with
  \<open>CommandNotAllowedError\<close>, whatever comments or white space surround it.\<close>
theorem mutating_verb_refused:
  assumes "split_ws c \<noteq> []" and "upper (hd (split_ws c)) \<in> set mqsc_denied_verbs"
  shows "\<exists>m. assert_mqsc_allowed c = Inl (CommandNotAllowedError m)"
proof -
  let ?w = "hd (split_ws c)"
  have "x \<notin> set (upper ?w)" if "x = 42 \<or> x = 45" for x
    using assms(2) that by (auto simp: mqsc_denied_verbs_def lit_def)
  then have "42 \<notin> set ?w" "45 \<notin> set ?w"
    using mem_upper_iff [of 42 ?w] mem_upper_iff [of 45 ?w]
    by (auto simp: is_lower_letter_def is_upper_letter_def)
  then have "cut_comment ?w = ?w" by (rule cut_comment_id)
  then have "\<not> mqsc_ok c"
    using mqsc_ok_first_word [of c] verbs_disjoint assms(2) by auto
  then show ?thesis by (rule mqsc_refusal)
qed

lemma mutating_verb_refused_witness:
  "\<exists>m. assert_mqsc_allowed (lit '' alter QMGR'') = Inl (CommandNotAllowedError m)"
proof (rule mutating_verb_refused)
  have w: "split_ws (lit '' alter QMGR'') = [lit ''alter'', lit ''QMGR'']"
    by (simp add: split_ws.simps lit_def is_space_def)
  show "split_ws (lit '' alter QMGR'') \<noteq> []" by (simp add: w)
  have "upper (lit ''alter'') = lit ''ALTER''"
    by (simp add: lit_def upper_cp_def is_lower_letter_def)
  then show "upper (hd (split_ws (lit '' alter QMGR''))) \<in> set mqsc_denied_verbs"
    by (simp add: w mqsc_denied_verbs_def)
qed



end
