(* ===== verification/Engine.thy ===== *)
theory Engine
  imports KCRegistry Sanitizer Allowlist
begin

text \<open>
  \<open>rcs/engine.py\<close>: findings, their severities and remediation scenarios, the projection of a
  finding to a response, and the engine that runs matchers. The second half of the theory is
  the vocabulary of the matcher proofs: when a finding is read-only, and which texts can be
  spliced into a command.
\<close>

section \<open>Findings\<close>

datatype severity = CRITICAL | HIGH | MEDIUM | LOW | INFO

fun severity_value :: "severity \<Rightarrow> pystr" where
  "severity_value CRITICAL = lit ''CRITICAL''"
| "severity_value HIGH = lit ''HIGH''"
| "severity_value MEDIUM = lit ''MEDIUM''"
| "severity_value LOW = lit ''LOW''"
| "severity_value INFO = lit ''INFO''"

record remediation_scenario =
  rem_scenario :: pystr
  rem_commands :: "pystr list"
  rem_notes :: pystr

record rcs_finding =
  rcs_issue :: pystr
  rcs_severity :: severity
  rcs_reason_code :: "int option"
  rcs_amq_code :: "pystr option"
  root_cause :: pystr
  fix_steps :: "pystr list"
  verify_commands :: "pystr list"
  doc_refs :: "kc_doc_ref list"
  rcs_confidence :: pystr
  evidence :: "pystr pydict"
  remediation_steps :: "remediation_scenario list"

definition execution_policy :: pystr where
  "execution_policy =
     lit ''MQ-Sentinel never executes remediation_steps. These are IBM-recommended fix '' @
     lit ''commands returned as TEXT only for the operator to review and run manually '' @
     lit ''in a change window. The MCP server is read-only by construction.''"

definition scenario_dict :: "remediation_scenario \<Rightarrow> pyval" where
  "scenario_dict s =
     PDict [(lit ''scenario'', PStr (rem_scenario s)),
            (lit ''commands'', of_strs (rem_commands s)),
            (lit ''notes'', PStr (rem_notes s))]"

definition doc_ref_dict :: "kc_doc_ref \<Rightarrow> pyval" where
  "doc_ref_dict d = PDict [(lit ''title'', PStr (doc_title d)), (lit ''url'', PStr (doc_url d))]"

definition finding_fields :: "rcs_finding \<Rightarrow> (pystr \<times> pyval) list" where
  "finding_fields f =
     [(lit ''issue'', PStr (rcs_issue f)),
      (lit ''severity'', PStr (severity_value (rcs_severity f))),
      (lit ''reason_code'', of_opt_int (rcs_reason_code f)),
      (lit ''amq_code'', of_opt_str (rcs_amq_code f)),
      (lit ''root_cause'', PStr (root_cause f)),
      (lit ''fix_steps'', of_strs (fix_steps f)),
      (lit ''verify_commands'', of_strs (verify_commands f)),
      (lit ''doc_refs'', PList (map doc_ref_dict (doc_refs f))),
      (lit ''confidence'', PStr (rcs_confidence f)),
      (lit ''evidence'', PDict (map (\<lambda>(k, v). (k, PStr v)) (evidence f))),
      (lit ''remediation_steps'', PList (map scenario_dict (remediation_steps f))),
      (lit ''execution_policy'', PStr execution_policy)]"

definition as_dict :: "(pystr \<Rightarrow> pystr) \<Rightarrow> rcs_finding \<Rightarrow> pyval" where
  "as_dict nfkc f = sanitize nfkc (PDict (finding_fields f))"

section \<open>The engine\<close>

text \<open>A matcher returns a list of findings; \<open>None\<close> is as good as the empty list.\<close>

type_synonym 'raw matcher = "'raw \<Rightarrow> kc_registry \<Rightarrow> pystr option \<Rightarrow> rcs_finding list"

record 'raw rcs_engine =
  engine_registry :: kc_registry
  engine_matchers :: "'raw matcher list"

definition new_engine :: "kc_registry option \<Rightarrow> 'raw rcs_engine" where
  "new_engine registry =
     \<lparr> engine_registry = (case registry of None \<Rightarrow> default_registry | Some r \<Rightarrow> r), engine_matchers = [] \<rparr>"

definition register_matcher :: "'raw matcher \<Rightarrow> 'raw rcs_engine \<Rightarrow> 'raw rcs_engine" where
  "register_matcher matcher e = e\<lparr> engine_matchers := engine_matchers e @ [matcher] \<rparr>"

definition analyze :: "'raw rcs_engine \<Rightarrow> 'raw \<Rightarrow> pystr option \<Rightarrow> rcs_finding list" where
  "analyze e raw_data mq_version =
     concat (map (\<lambda>matcher. matcher raw_data (engine_registry e) mq_version) (engine_matchers e))"

lemma analyze_new: "analyze (new_engine r) raw v = []"
  by (simp add: analyze_def new_engine_def)

lemma analyze_register:
  "analyze (register_matcher m e) raw v = analyze e raw v @ m raw (engine_registry e) v"
  by (simp add: analyze_def register_matcher_def)

section \<open>The response of a finding\<close>

lemma severity_value_inject: "severity_value s = severity_value t \<longleftrightarrow> s = t"
  by (cases s; cases t) simp_all

lemma as_dict_get: "pv_get (as_dict nfkc f) k = map_option (sanitize nfkc) (map_of (finding_fields f) k)"
  by (simp add: as_dict_def pv_get_sanitize)

lemma as_dict_keys:
  "as_dict nfkc f = PDict (map (\<lambda>(k, v). (k, sanitize nfkc v)) (finding_fields f))"
  by (simp add: as_dict_def sanitize_def)

section \<open>Commands in findings\<close>

definition read_only_finding :: "rcs_finding \<Rightarrow> bool" where
  "read_only_finding f \<longleftrightarrow> list_all (\<lambda>c. mqsc_ok c) (fix_steps f @ verify_commands f)"

definition clean_text :: "pystr \<Rightarrow> bool" where
  "clean_text s \<longleftrightarrow> list_all (\<lambda>c. \<not> mqsc_forbidden_char c) s"

named_theorems clean_intros "texts without MQSC separator characters"

lemma clean_text_simps [simp]:
  "clean_text []"
  "clean_text (s @ t) \<longleftrightarrow> clean_text s \<and> clean_text t"
  "clean_text (squote s) \<longleftrightarrow> clean_text s"
  by (simp_all add: clean_text_def squote_def mqsc_forbidden_char_def)

lemma clean_text_lit [simp]:
  "clean_text (lit s) \<longleftrightarrow> list_all (\<lambda>c. c \<noteq> CHR '';'' \<and> c \<noteq> CHR 0x0A \<and> c \<noteq> CHR 0x0D \<and> c \<noteq> CHR 0x00) s"
proof -
  have "(of_char c = (59 :: nat)) = (c = CHR '';'')" "(of_char c = (10 :: nat)) = (c = CHR 0x0A)"
    "(of_char c = (13 :: nat)) = (c = CHR 0x0D)" "(of_char c = (0 :: nat)) = (c = CHR 0x00)" for c
    using of_char_eq_iff [where ?'a = nat, of c "CHR '';''"] of_char_eq_iff [where ?'a = nat, of c "CHR 0x0A"]
      of_char_eq_iff [where ?'a = nat, of c "CHR 0x0D"] of_char_eq_iff [where ?'a = nat, of c "CHR 0x00"]
    by simp_all
  then show ?thesis
    by (simp add: clean_text_def lit_def list.pred_map comp_def mqsc_forbidden_char_def del: neq0_conv)
qed

lemma clean_text_mem: "clean_text s \<Longrightarrow> c \<in> set s \<Longrightarrow> \<not> mqsc_forbidden_char c"
  by (simp add: clean_text_def list_all_iff)

lemma clean_text_subset: "clean_text s \<Longrightarrow> set t \<subseteq> set s \<Longrightarrow> clean_text t"
  by (auto simp: clean_text_def list_all_iff)

lemma clean_por [clean_intros]: "clean_text a \<Longrightarrow> clean_text b \<Longrightarrow> clean_text (por a b)"
  by (simp add: por_def)

lemma clean_str_int [simp, clean_intros]: "clean_text (str_int i)"
  by (auto simp: clean_text_def list_all_iff mqsc_forbidden_char_def is_digit_def dest!: set_str_int)

lemma clean_upper [clean_intros]: "clean_text s \<Longrightarrow> clean_text (upper s)"
proof -
  have "c \<in> set (upper s) \<longleftrightarrow> c \<in> set s" if "mqsc_forbidden_char c" for c
    using that by (intro mem_upper_iff) (auto simp: mqsc_forbidden_char_def is_lower_letter_def is_upper_letter_def)
  then show "clean_text s \<Longrightarrow> clean_text (upper s)"
    by (auto simp: clean_text_def list_all_iff)
qed

lemma clean_strip [clean_intros]: "clean_text s \<Longrightarrow> clean_text (strip s)"
  by (rule clean_text_subset [OF _ set_strip])

text \<open>A row whose scalars print to clean text.\<close>

definition clean_row :: "row \<Rightarrow> bool" where
  "clean_row r \<longleftrightarrow> list_all (\<lambda>kv. clean_text (str_cell (snd kv))) r"

lemma clean_none [simp]: "clean_text (str_cell CNone)"
  by (simp add: clean_text_lit)

lemma clean_get_d [clean_intros]: "clean_row r \<Longrightarrow> clean_text (str_cell d) \<Longrightarrow> clean_text (str_cell (get_d r k d))"
  using get_d_cases [of r k d] by (auto simp: clean_row_def list_all_iff)

lemma clean_get [clean_intros]: "clean_row r \<Longrightarrow> clean_text (str_cell (get r k))"
  unfolding get_def by (intro clean_intros) simp_all

lemma clean_cell_or [clean_intros]:
  "clean_text (str_cell a) \<Longrightarrow> clean_text (str_cell b) \<Longrightarrow> clean_text (str_cell (cell_or a b))"
  by (simp add: cell_or_def)

text \<open>The commands of the findings are DISPLAY and PING CHANNEL commands with spliced names.\<close>

lemma display_clean_ok: "clean_text r \<Longrightarrow> mqsc_ok (lit ''DISPLAY '' @ r)"
  by (rule display_ok) (rule clean_text_mem)

lemma ping_clean_ok: "clean_text r \<Longrightarrow> mqsc_ok (lit ''PING CHANNEL('' @ r)"
  by (rule ping_channel_ok) (rule clean_text_mem)

lemma display_cmd:
  "mqsc_ok (lit (CHR ''D'' # CHR ''I'' # CHR ''S'' # CHR ''P'' # CHR ''L'' # CHR ''A'' # CHR ''Y'' # CHR '' '' # s) @ r)"
  if "clean_text (lit s)" "clean_text r"
proof -
  have "lit ''DISPLAY '' @ (lit s @ r) =
    lit (CHR ''D'' # CHR ''I'' # CHR ''S'' # CHR ''P'' # CHR ''L'' # CHR ''A'' # CHR ''Y'' # CHR '' '' # s) @ r"
    by (simp add: lit_def)
  with display_clean_ok [of "lit s @ r"] that show ?thesis by simp
qed

lemma display_cmd_closed:
  "mqsc_ok (lit (CHR ''D'' # CHR ''I'' # CHR ''S'' # CHR ''P'' # CHR ''L'' # CHR ''A'' # CHR ''Y'' # CHR '' '' # s))"
  if "clean_text (lit s)"
  using display_cmd [OF that, of "[]"] by simp

lemma ping_cmd:
  "mqsc_ok (lit ''PING CHANNEL('' @ r)" if "clean_text r"
  using that by (rule ping_clean_ok)

lemmas command_simps = read_only_finding_def display_cmd display_cmd_closed ping_cmd


text \<open>
  The RDQM and multi-instance findings carry shell commands instead; such a command is
  checked as the words between its blanks.
\<close>

definition shell_step_ok :: "pystr \<Rightarrow> bool" where
  "shell_step_ok c \<longleftrightarrow> shell_ok (split_on 32 c)"

definition shell_only_finding :: "rcs_finding \<Rightarrow> bool" where
  "shell_only_finding f \<longleftrightarrow> list_all shell_step_ok (fix_steps f @ verify_commands f)"

end
