(* ===== verification/Match_Channels.thy ===== *)
theory Match_Channels
  imports Engine
begin

text \<open>
  \<open>rcs/matchers/channels.py\<close>: findings from channel status rows and from the message codes of
  the error log tail. The dictionary \<open>raw_data\<close> is the record of the two keys the matcher
  reads. The source iterates over a set of codes, in an order that Python leaves open; the
  order is the argument \<open>iter_set\<close>.
\<close>

section \<open>Message codes\<close>

text \<open>\<open>\\bAMQ\\d{4}[A-Z]?\\b\<close>.\<close>

definition amq_code_pattern :: rx where
  "amq_code_pattern =
     RSeq RWordB (RSeq (RLit (lit ''AMQ'')) (RSeq (RRep 4 (RCls is_digit))
       (RSeq (ROpt (RCls is_upper_letter)) RWordB)))"

text \<open>\<open>s.rstrip(chars)\<close>.\<close>

definition rstrip_chars :: "pystr \<Rightarrow> pystr \<Rightarrow> pystr" where
  "rstrip_chars cs s = rev (dropWhile (\<lambda>c. c \<in> set cs) (rev s))"

definition extract_amq_codes :: "pystr \<Rightarrow> pystr list" where
  "extract_amq_codes text =
     map (\<lambda>m. rstrip_chars (lit ''EWIS'') (fst m)) (re_finditer amq_code_pattern text)"

definition bad_chstatus_status :: "pystr \<Rightarrow> bool" where
  "bad_chstatus_status status \<longleftrightarrow>
     upper status \<in> set [lit ''RETRYING'', lit ''STOPPED'', lit ''PAUSED'', lit ''INDOUBT'', lit ''INACTIVE_FAILED'']"

section \<open>Findings\<close>

definition finding_2035 :: "pystr \<Rightarrow> row \<Rightarrow> kc_registry \<Rightarrow> pystr option \<Rightarrow> rcs_finding" where
  "finding_2035 name ch registry mq_version =
    (let refs = lookup_reason registry 2035 mq_version in
    \<lparr> rcs_issue = lit ''Channel '' @ name @ lit '' returned MQRC 2035 (NOT_AUTHORIZED)'',
       rcs_severity = HIGH,
       rcs_reason_code = Some 2035,
       rcs_amq_code = None,
       root_cause = lit ''The connecting principal failed authorization. Common causes: a '' @
         lit ''CHLAUTH BLOCKUSER rule blocked the user, the resolved MCAUSER lacks '' @
         lit ''+connect/+inq on the QM, or CONNAUTH credentials failed.'',
       fix_steps =
         [lit ''DISPLAY CHLAUTH('' @ squote name @ lit '') MATCH(RUNCHECK) ALL'',
          lit ''DISPLAY CHSTATUS('' @ squote name @ lit '') ALL'',
          lit ''DISPLAY QMGR CONNAUTH'',
          lit ''DISPLAY AUTHINFO(*) ALL''],
       verify_commands =
         [lit ''DISPLAY CHSTATUS('' @ squote name @ lit '') CURRENT'',
          lit ''DISPLAY QMSTATUS''],
       doc_refs = refs,
       rcs_confidence = lit ''High'',
       evidence =
         [(lit ''channel'', name),
          (lit ''status'', str_cell (get_d ch (lit ''STATUS'') (CStr []))),
          (lit ''rqmname'', str_cell (get_d ch (lit ''RQMNAME'') (CStr [])))],
       remediation_steps =
         [\<lparr> rem_scenario = lit ''CHLAUTH BLOCKUSER rule incorrectly matching'',
             rem_commands =
               [lit ''SET CHLAUTH('' @ squote name @ lit '') TYPE(BLOCKUSER) '' @
                 lit ''USERLIST('badactor') ACTION(REPLACE)''],
             rem_notes = lit ''Replace the USERLIST with only the principals you actually '' @
               lit ''want to block.'' \<rparr>,
          \<lparr> rem_scenario = lit ''MCAUSER lacks queue manager / queue permissions'',
             rem_commands =
               [lit ''SET AUTHREC PRINCIPAL('mcauser') OBJTYPE(QMGR) AUTHADD(CONNECT, INQ)'',
                lit ''SET AUTHREC PROFILE('destination.queue') OBJTYPE(QUEUE) '' @
                  lit ''PRINCIPAL('mcauser') AUTHADD(PUT, INQ, BROWSE)''],
             rem_notes = lit ''Replace 'mcauser' with the value returned by DISPLAY '' @
               lit ''CHSTATUS MCAUSER, and 'destination.queue' with the target.'' \<rparr>,
          \<lparr> rem_scenario = lit ''CONNAUTH credentials rejected (password / OS user)'',
             rem_commands =
               [lit ''ALTER AUTHINFO('SYSTEM.DEFAULT.AUTHINFO.IDPWOS') AUTHTYPE(IDPWOS) '' @
                 lit ''ADOPTCTX(YES) CHCKCLNT(REQDADM)'',
                lit ''REFRESH SECURITY TYPE(CONNAUTH)''],
             rem_notes = lit ''Then retry the client connection. Watch AMQERR for AMQ5540/AMQ5541.'' \<rparr>] \<rparr>)"

definition finding_conn_error :: "pystr \<Rightarrow> row \<Rightarrow> int \<Rightarrow> kc_registry \<Rightarrow> pystr option \<Rightarrow> rcs_finding" where
  "finding_conn_error name ch reason registry mq_version =
    (let refs = lookup_amq registry (lit ''AMQ9202'') mq_version in
    \<lparr> rcs_issue = lit ''Channel '' @ name @ lit '' connection error (reason '' @
      str_int reason @ lit '')'',
       rcs_severity = HIGH,
       rcs_reason_code = Some reason,
       rcs_amq_code = Some (lit ''AMQ9202''),
       root_cause = lit ''Network or TLS handshake failure to the remote endpoint. Verify '' @
         lit ''CONNAME resolves, the listener is running, and the TLS negotiation completes '' @
         lit ''(CipherSpec/CipherSuite and certificates).'',
       fix_steps =
         [lit ''DISPLAY CHSTATUS('' @ squote name @ lit '') ALL'',
          lit ''DISPLAY CHANNEL('' @ squote name @ lit '') CONNAME XMITQ SSLCIPH'',
          lit ''DISPLAY LSSTATUS(*) ALL'',
          lit ''PING CHANNEL('' @ name @ lit '')''],
       verify_commands =
         [lit ''DISPLAY CHSTATUS('' @ squote name @ lit '') CURRENT''],
       doc_refs = refs,
       rcs_confidence = lit ''High'',
       evidence =
         [(lit ''channel'', name),
          (lit ''status'', str_cell (get_d ch (lit ''STATUS'') (CStr [])))],
       remediation_steps =
         [\<lparr> rem_scenario = lit ''Remote listener not running'',
             rem_commands =
               [lit ''START LISTENER(SYSTEM.DEFAULT.LISTENER.TCP)''],
             rem_notes = lit ''Run on the REMOTE QM. Replace listener name as configured.'' \<rparr>,
          \<lparr> rem_scenario = lit ''Channel needs restart after network repair'',
             rem_commands =
               [lit ''START CHANNEL('' @ squote name @ lit '')''],
             rem_notes = lit ''Only after confirming connectivity to CONNAME on the '' @
               lit ''channel's port.'' \<rparr>,
          \<lparr> rem_scenario = lit ''TLS CipherSpec mismatch'',
             rem_commands =
               [lit ''ALTER CHANNEL('' @ squote name @ lit '') CHLTYPE(SDR) '' @
                 lit ''SSLCIPH('ANY_TLS13_OR_HIGHER')'',
                lit ''REFRESH SECURITY TYPE(SSL)'',
                lit ''START CHANNEL('' @ squote name @ lit '')''],
             rem_notes = lit ''Both ends of the channel must use compatible CipherSpecs. '' @
               lit ''ANY_TLS13_OR_HIGHER is a safe modern default; pin a specific suite if '' @
               lit ''your policy requires.'' \<rparr>] \<rparr>)"

definition finding_indoubt :: "pystr \<Rightarrow> row \<Rightarrow> rcs_finding" where
  "finding_indoubt name ch =
    \<lparr> rcs_issue = lit ''Channel '' @ name @ lit '' is in-doubt'',
       rcs_severity = CRITICAL,
       rcs_reason_code = None,
       rcs_amq_code = None,
       root_cause = lit ''An in-doubt channel has uncommitted batches that cannot resolve '' @
         lit ''automatically. Manual resolution is required after confirming the remote QM state.'',
       fix_steps =
         [lit ''DISPLAY CHSTATUS('' @ squote name @ lit '') ALL CURLUWID LSTLUWID''],
       verify_commands =
         [lit ''DISPLAY CHSTATUS('' @ squote name @ lit '') CURRENT''],
       doc_refs = [],
       rcs_confidence = lit ''Medium'',
       evidence =
         [(lit ''channel'', name),
          (lit ''status'', lit ''INDOUBT'')],
       remediation_steps =
         [\<lparr> rem_scenario = lit ''Resolve after confirming remote QM batch state'',
             rem_commands =
               [lit ''RESOLVE CHANNEL('' @ squote name @ lit '') ACTION(COMMIT)''],
             rem_notes = warning_sign @ lit '' DANGER: Only after MANUALLY confirming on '' @
               lit ''the remote QM whether the in-flight batch was committed. Choosing the '' @
               lit ''wrong ACTION causes duplicate or lost messages. ACTION(BACKOUT) is the '' @
               lit ''alternative. Engage your messaging team before running.'' \<rparr>] \<rparr>"

definition finding_generic_bad_status :: "pystr \<Rightarrow> row \<Rightarrow> pystr \<Rightarrow> rcs_finding" where
  "finding_generic_bad_status name ch status =
    \<lparr> rcs_issue = lit ''Channel '' @ name @ lit '' status is '' @ status,
       rcs_severity = MEDIUM,
       rcs_reason_code = None,
       rcs_amq_code = None,
       root_cause = lit ''Channel reports status '' @ status @ lit ''. Inspect retry '' @
         lit ''counters, last error code, and the AMQERR log for context.'',
       fix_steps =
         [lit ''DISPLAY CHSTATUS('' @ squote name @ lit '') ALL'',
          lit ''DISPLAY CHANNEL('' @ squote name @ lit '') ALL''],
       verify_commands =
         [lit ''DISPLAY CHSTATUS('' @ squote name @ lit '') CURRENT''],
       doc_refs = [],
       rcs_confidence = lit ''Medium'',
       evidence =
         [(lit ''channel'', name),
          (lit ''status'', status)],
       remediation_steps =
         [\<lparr> rem_scenario = lit ''Restart channel after addressing the underlying cause'',
             rem_commands =
               [lit ''STOP CHANNEL('' @ squote name @ lit '') MODE(QUIESCE)'',
                lit ''START CHANNEL('' @ squote name @ lit '')''],
             rem_notes = lit ''Use STOP MODE(QUIESCE) first to allow in-flight batches to '' @
               lit ''complete. Only restart after confirming why it entered this state '' @
               emdash @
               lit '' restarting without root-cause fix usually reproduces the problem.'' \<rparr>] \<rparr>"

definition finding_log_code :: "pystr \<Rightarrow> kc_doc_ref list \<Rightarrow> rcs_finding" where
  "finding_log_code amq refs =
    \<lparr> rcs_issue = lit ''Error log contains '' @ amq,
       rcs_severity = HIGH,
       rcs_reason_code = None,
       rcs_amq_code = Some amq,
       root_cause = lit ''AMQERR log contains '' @ amq @ lit ''. See the IBM Knowledge '' @
         lit ''Center page for the documented cause and resolution.'',
       fix_steps =
         [lit ''DISPLAY CHSTATUS(*) WHERE(LSTMSGRC NE 0)'',
          lit ''DISPLAY LSSTATUS(*) ALL''],
       verify_commands =
         [lit ''DISPLAY QMSTATUS''],
       doc_refs = refs,
       rcs_confidence = lit ''High'',
       evidence =
         [(lit ''amq_code'', amq)],
       remediation_steps = [] \<rparr>"

section \<open>The matcher\<close>

record channels_raw =
  ch_channels :: "row list"
  ch_error_log_tail :: pystr

definition channel_name :: "row \<Rightarrow> pystr" where
  "channel_name ch =
     str_cell (cell_or (cell_or (get ch (lit ''CHANNEL'')) (get ch (lit ''CHLNAME''))) (CStr (lit ''<unknown>'')))"

definition channel_status :: "row \<Rightarrow> pystr" where
  "channel_status ch =
     str_cell (cell_or (cell_or (get ch (lit ''STATUS'')) (get ch (lit ''CHSTATUS''))) (CStr []))"

definition channel_reason :: "row \<Rightarrow> int" where
  "channel_reason ch =
     int_or (cell_or (cell_or (get ch (lit ''REASON'')) (get ch (lit ''LSTMSGRC''))) (CInt 0)) 0"

definition channel_in_doubt :: "row \<Rightarrow> bool" where
  "channel_in_doubt ch \<longleftrightarrow>
     upper (channel_status ch) = lit ''INDOUBT'' \<or>
     upper (str_cell (get_d ch (lit ''INDOUBT'') (CStr []))) = lit ''YES''"

definition channel_findings :: "kc_registry \<Rightarrow> pystr option \<Rightarrow> row \<Rightarrow> rcs_finding list" where
  "channel_findings registry mq_version ch =
     (let name = channel_name ch; status = channel_status ch; reason = channel_reason ch;
          in_doubt = channel_in_doubt ch
      in if \<not> bad_chstatus_status status \<and> reason = 0 \<and> \<not> in_doubt then []
         else if reason = 2035 then [finding_2035 name ch registry mq_version]
         else if reason = 2009 \<or> reason = 2059 then [finding_conn_error name ch reason registry mq_version]
         else if in_doubt then [finding_indoubt name ch]
         else if bad_chstatus_status status then [finding_generic_bad_status name ch status]
         else [])"

definition log_findings :: "kc_registry \<Rightarrow> pystr option \<Rightarrow> pystr \<Rightarrow> rcs_finding list" where
  "log_findings registry mq_version amq =
     (let refs = lookup_amq registry amq mq_version in
      if refs = [] then [] else [finding_log_code amq refs])"

definition match_channel_failures ::
  "(pystr list \<Rightarrow> pystr list) \<Rightarrow> channels_raw \<Rightarrow> kc_registry \<Rightarrow> pystr option \<Rightarrow> rcs_finding list" where
  "match_channel_failures iter_set raw_data registry mq_version =
     concat (map (channel_findings registry mq_version) (ch_channels raw_data)) @
     concat (map (log_findings registry mq_version) (iter_set (extract_amq_codes (ch_error_log_tail raw_data))))"


section \<open>The commands are read-only\<close>

lemma finding_2035_read_only: "clean_text name \<Longrightarrow> read_only_finding (finding_2035 name ch registry v)"
  by (simp add: finding_2035_def Let_def command_simps)

lemma finding_conn_error_read_only:
  "clean_text name \<Longrightarrow> read_only_finding (finding_conn_error name ch reason registry v)"
  by (simp add: finding_conn_error_def Let_def command_simps)

lemma finding_indoubt_read_only: "clean_text name \<Longrightarrow> read_only_finding (finding_indoubt name ch)"
  by (simp add: finding_indoubt_def command_simps)

lemma finding_generic_read_only:
  "clean_text name \<Longrightarrow> read_only_finding (finding_generic_bad_status name ch status)"
  by (simp add: finding_generic_bad_status_def command_simps)

lemma finding_log_code_read_only: "read_only_finding (finding_log_code amq refs)"
  by (simp add: finding_log_code_def command_simps)

lemma clean_channel_name: "clean_row ch \<Longrightarrow> clean_text (channel_name ch)"
  unfolding channel_name_def by (intro clean_intros) simp_all

lemma channel_findings_read_only:
  "clean_row ch \<Longrightarrow> list_all read_only_finding (channel_findings registry v ch)"
  by (simp add: channel_findings_def Let_def clean_channel_name finding_2035_read_only
      finding_conn_error_read_only finding_indoubt_read_only finding_generic_read_only)

lemma log_findings_read_only: "list_all read_only_finding (log_findings registry v amq)"
  by (simp add: log_findings_def Let_def finding_log_code_read_only)

section \<open>What the findings say\<close>

lemma channel_finding_fields [find_simps]:
  "rcs_severity (finding_2035 name ch registry v) = HIGH"
  "rcs_reason_code (finding_2035 name ch registry v) = Some 2035"
  "rcs_severity (finding_conn_error name ch reason registry v) = HIGH"
  "rcs_reason_code (finding_conn_error name ch reason registry v) = Some reason"
  "rcs_severity (finding_indoubt name ch) = CRITICAL"
  "rcs_reason_code (finding_indoubt name ch) = None"
  "rcs_severity (finding_generic_bad_status name ch status) = MEDIUM"
  "rcs_reason_code (finding_generic_bad_status name ch status) = None"
  "rcs_amq_code (finding_log_code amq refs) = Some amq"
  "rcs_severity (finding_log_code amq refs) = HIGH"
  "doc_refs (finding_log_code amq refs) = refs"
  by (simp_all add: finding_2035_def finding_conn_error_def finding_indoubt_def
      finding_generic_bad_status_def finding_log_code_def Let_def)

lemma lookup_amq_ne: "lookup_amq registry c v = [] \<longleftrightarrow> refs_at (by_amq registry) (upper c) = []"
  by (simp add: lookup_amq_def filter_version_ne)

section \<open>Properties\<close>

lemma match_channel_read_only:
  assumes "list_all clean_row (ch_channels raw)"
  shows "list_all read_only_finding (match_channel_failures iter_set raw registry v)"
  using assms channel_findings_read_only log_findings_read_only
  by (auto simp: match_channel_failures_def list_all_iff)

text \<open>Every command in the fix steps and verify commands of a channel finding passes the
  MQSC gate, when the channel rows print to text without separator characters.\<close>
theorem channel_commands_read_only:
  assumes "list_all clean_row (ch_channels raw)"
  shows "list_all read_only_finding (match_channel_failures iter_set raw registry v)"
  using assms by (rule match_channel_read_only)

lemma channel_commands_read_only_witness:
  "list_all read_only_finding
     (match_channel_failures remdups
        \<lparr> ch_channels = [[(lit ''CHANNEL'', CStr (lit ''APP.SVRCONN'')), (lit ''REASON'', CInt 2035)]],
          ch_error_log_tail = [] \<rparr> default_registry None)"
  by (rule channel_commands_read_only) (simp add: clean_row_def)

text \<open>A channel row yields at most one finding, chosen by priority: authorisation failures
  (2035), then connection errors (2009, 2059), both HIGH and carrying their reason code; otherwise
  an in-doubt channel is CRITICAL; otherwise a bad status is MEDIUM; a row with none of these
  yields nothing.\<close>
theorem channel_triage:
  "map (\<lambda>f. (rcs_severity f, rcs_reason_code f)) (channel_findings registry v ch) =
     (if channel_reason ch \<in> {2035, 2009, 2059} then [(HIGH, Some (channel_reason ch))]
      else if channel_in_doubt ch then [(CRITICAL, None)]
      else if bad_chstatus_status (channel_status ch) then [(MEDIUM, None)]
      else [])"
  by (simp add: channel_findings_def Let_def find_simps)

text \<open>Every message code found in the error log tail that the registry documents is reported
  exactly once, with at least one documentation reference, and no other code is reported, for
  every order in which Python may enumerate the set of codes.\<close>
theorem log_codes_reported_once:
  assumes "\<And>xs. distinct (iter_set xs) \<and> set (iter_set xs) = set xs" and "ch_channels raw = []"
  shows "distinct (map rcs_amq_code (match_channel_failures iter_set raw registry v)) \<and>
    set (map rcs_amq_code (match_channel_failures iter_set raw registry v)) =
      Some ` {c \<in> set (extract_amq_codes (ch_error_log_tail raw)). refs_at (by_amq registry) (upper c) \<noteq> []} \<and>
    list_all (\<lambda>f. doc_refs f \<noteq> []) (match_channel_failures iter_set raw registry v)"
proof -
  let ?codes = "iter_set (extract_amq_codes (ch_error_log_tail raw))"
  let ?known = "\<lambda>c. refs_at (by_amq registry) (upper c) \<noteq> []"
  have found: "match_channel_failures iter_set raw registry v =
      map (\<lambda>c. finding_log_code c (lookup_amq registry c v)) (filter ?known cs)"
    if "cs = ?codes" for cs
  proof -
    have "concat (map (log_findings registry v) cs) =
        map (\<lambda>c. finding_log_code c (lookup_amq registry c v)) (filter ?known cs)" for cs
      by (induction cs) (simp_all add: log_findings_def Let_def lookup_amq_ne)
    with that assms(2) show ?thesis by (simp add: match_channel_failures_def)
  qed
  have codes: "map rcs_amq_code (match_channel_failures iter_set raw registry v) = map Some (filter ?known ?codes)"
    by (simp add: found find_simps)
  have d: "distinct ?codes" and s: "set ?codes = set (extract_amq_codes (ch_error_log_tail raw))"
    using assms(1) by blast+
  show ?thesis
    unfolding codes using d s
    by (auto simp: distinct_map inj_on_def found find_simps list_all_iff lookup_amq_ne)
qed

lemma log_codes_reported_once_witness:
  "distinct (map rcs_amq_code (match_channel_failures remdups
     \<lparr> ch_channels = [], ch_error_log_tail = lit ''AMQ9202E: host. AMQ9202E: host.'' \<rparr> default_registry None))"
  using log_codes_reported_once [of remdups
      "\<lparr> ch_channels = [], ch_error_log_tail = lit ''AMQ9202E: host. AMQ9202E: host.'' \<rparr>"
      default_registry None] by simp

end
