(* ===== verification/Inventory.thy ===== *)
theory Inventory
  imports Allowlist
begin

text \<open>
  \<open>inventory/models.py\<close> and \<open>inventory/registry.py\<close>: queue manager entries with their
  validation, and the in-memory inventory with its merging loaders. Field constraints are
  pydantic's: a pattern must match the whole value. Reading and parsing a YAML file is the
  argument \<open>read_qms\<close>, which gives the raw items of a path.
\<close>

section \<open>Entries\<close>

datatype topology =
    STANDALONE | MULTI_INSTANCE | RDQM | NATIVE_HA | NATIVE_HA_CRR | UNIFORM_CLUSTER
  | TRADITIONAL_CLUSTER | ZOS_QSG | APPLIANCE | CONTAINERIZED | UNKNOWN

fun topology_value :: "topology \<Rightarrow> pystr" where
  "topology_value STANDALONE = lit ''standalone''"
| "topology_value MULTI_INSTANCE = lit ''multi_instance''"
| "topology_value RDQM = lit ''rdqm''"
| "topology_value NATIVE_HA = lit ''native_ha''"
| "topology_value NATIVE_HA_CRR = lit ''native_ha_crr''"
| "topology_value UNIFORM_CLUSTER = lit ''uniform_cluster''"
| "topology_value TRADITIONAL_CLUSTER = lit ''traditional_cluster''"
| "topology_value ZOS_QSG = lit ''zos_qsg''"
| "topology_value APPLIANCE = lit ''appliance''"
| "topology_value CONTAINERIZED = lit ''containerized''"
| "topology_value UNKNOWN = lit ''unknown''"

lemma topology_value_inject: "topology_value s = topology_value t \<longleftrightarrow> s = t"
  by (cases s; cases t) simp_all

record qm_entry =
  qm_name :: pystr
  qm_host :: pystr
  qm_port :: int
  qm_channel :: pystr
  qm_environment :: pystr
  topology_hint :: topology
  mq_version_hint :: "pystr option"
  qm_tenant :: pystr
  secret_ref :: pystr
  cipher_spec :: "pystr option"

definition valid_host :: "pystr \<Rightarrow> bool" where
  "valid_host v \<longleftrightarrow> \<not> list_ex (\<lambda>c. c = 47 \<or> c = 92 \<or> c = 32 \<or> c = 10) v"

definition environments :: "pystr list" where
  "environments = [lit ''dev'', lit ''staging'', lit ''prod'', lit ''nonprod'']"

definition opt_max :: "nat \<Rightarrow> pystr option \<Rightarrow> bool" where
  "opt_max n v = (case v of None \<Rightarrow> True | Some s \<Rightarrow> length s \<le> n)"

definition valid_entry :: "qm_entry \<Rightarrow> bool" where
  "valid_entry e \<longleftrightarrow>
     1 \<le> length (qm_name e) \<and> length (qm_name e) \<le> 48 \<and> list_all mq_name_char (qm_name e) \<and>
     1 \<le> length (qm_host e) \<and> length (qm_host e) \<le> 253 \<and> valid_host (qm_host e) \<and>
     1 \<le> qm_port e \<and> qm_port e \<le> 65535 \<and>
     1 \<le> length (qm_channel e) \<and> length (qm_channel e) \<le> 20 \<and> list_all mq_name_char (qm_channel e) \<and>
     qm_environment e \<in> set environments \<and>
     opt_max 16 (mq_version_hint e) \<and> length (qm_tenant e) \<le> 64 \<and>
     1 \<le> length (secret_ref e) \<and> length (secret_ref e) \<le> 256 \<and>
     (case cipher_spec e of None \<Rightarrow> True
      | Some s \<Rightarrow> 1 \<le> length s \<and> length s \<le> 64 \<and>
          list_all (\<lambda>c. is_upper_letter c \<or> is_digit c \<or> c = 95) s)"

text \<open>\<open>QMEntry(**item)\<close>; pydantic's \<open>ValidationError\<close> is a \<open>ValueError\<close>.\<close>

definition QMEntry :: "qm_entry \<Rightarrow> exn + qm_entry" where
  "QMEntry item = (if valid_entry item then Inr item else Inl (ValueError (lit ''validation error for QMEntry'')))"

section \<open>The in-memory inventory\<close>

record inventory =
  inv_entries :: "qm_entry pydict"

definition InMemoryInventory :: "qm_entry list \<Rightarrow> inventory" where
  "InMemoryInventory entries =
     \<lparr> inv_entries = dict_update [] (map (\<lambda>e. (qm_name e, e)) entries) \<rparr>"

definition inv_get :: "inventory \<Rightarrow> pystr \<Rightarrow> exn + qm_entry" where
  "inv_get store name =
     (case map_of (inv_entries store) name of
        Some e \<Rightarrow> Inr e
      | None \<Rightarrow> Inl (LookupError (lit ''QM '' @ py_repr name @ lit '' not in inventory'')))"

definition list_for_tenant :: "inventory \<Rightarrow> pystr \<Rightarrow> qm_entry list" where
  "list_for_tenant store tenant = filter (\<lambda>e. qm_tenant e = tenant) (map snd (inv_entries store))"

definition inv_list_all :: "inventory \<Rightarrow> qm_entry list" where
  "inv_list_all store = map snd (inv_entries store)"

definition load_from_yaml :: "(pystr \<Rightarrow> exn + qm_entry list) \<Rightarrow> pystr \<Rightarrow> exn + inventory" where
  "load_from_yaml read_qms path =
     bind_res (read_qms path) (\<lambda>items.
     bind_res (traverse QMEntry items) (\<lambda>entries. Inr (InMemoryInventory entries)))"

definition load_from_multiple :: "(pystr \<Rightarrow> exn + qm_entry list) \<Rightarrow> pystr list \<Rightarrow> exn + inventory" where
  "load_from_multiple read_qms paths =
     bind_res (traverse (\<lambda>path. bind_res (read_qms path) (traverse QMEntry)) paths)
       (\<lambda>parts. Inr (InMemoryInventory (concat parts)))"

section \<open>Lookup after construction\<close>

text \<open>The last entry of a name.\<close>

definition last_entry :: "qm_entry list \<Rightarrow> pystr \<Rightarrow> qm_entry option" where
  "last_entry entries name = find (\<lambda>e. qm_name e = name) (rev entries)"

lemma map_of_by_name: "map_of (map (\<lambda>e. (qm_name e, e)) es) name = find (\<lambda>e. qm_name e = name) es"
  by (induction es) auto

lemma map_of_inventory: "map_of (inv_entries (InMemoryInventory es)) name = last_entry es name"
  by (simp add: InMemoryInventory_def map_of_dict_update rev_map map_of_by_name last_entry_def)

lemma last_entry_in: "last_entry es name = Some e \<Longrightarrow> e \<in> set es \<and> qm_name e = name"
  by (auto simp: last_entry_def find_Some_iff) (metis nth_mem set_rev length_rev)

lemma last_entry_None: "last_entry es name = None \<longleftrightarrow> name \<notin> qm_name ` set es"
  by (auto simp: last_entry_def find_None_iff)

lemma distinct_inventory: "distinct (map fst (inv_entries (InMemoryInventory es)))"
  by (simp add: InMemoryInventory_def distinct_dict_update)

lemma traverse_QMEntry: "traverse QMEntry items = Inr es \<Longrightarrow> es = items \<and> list_all valid_entry es"
  unfolding traverse_Inr_iff
  by (induction items es rule: list_all2_induct) (auto simp: QMEntry_def split: if_splits)

lemma valid_entry_name: "valid_entry e \<Longrightarrow> c \<in> set (qm_name e) \<Longrightarrow> mq_name_char c"
  by (simp add: valid_entry_def list_all_iff)

section \<open>The registry protocol\<close>

text \<open>
  \<open>InventoryRegistry\<close>: what the server relies on in whatever holds the queue managers. A name
  that is listed is found, with the entry that is listed; every other name is a \<open>LookupError\<close>; the
  listing by tenant is the part of the listing that has the tenant.
\<close>

locale inventory_registry =
  fixes lookup :: "'i \<Rightarrow> pystr \<Rightarrow> exn + qm_entry"
    and listing :: "'i \<Rightarrow> qm_entry list"
    and tenant_listing :: "'i \<Rightarrow> pystr \<Rightarrow> qm_entry list"
    and wf :: "'i \<Rightarrow> bool"
  assumes lookup_listed: "wf i \<Longrightarrow> lookup i name = Inr e \<longleftrightarrow> e \<in> set (listing i) \<and> qm_name e = name"
    and lookup_missing: "lookup i name = Inl x \<Longrightarrow> \<exists>m. x = LookupError m"
    and tenant_part: "tenant_listing i t = filter (\<lambda>e. qm_tenant e = t) (listing i)"
begin

lemma found_iff_named: "wf i \<Longrightarrow> (\<exists>e. lookup i name = Inr e) \<longleftrightarrow> name \<in> qm_name ` set (listing i)"
  by (auto simp: lookup_listed)

lemma names_unique:
  "wf i \<Longrightarrow> e \<in> set (listing i) \<Longrightarrow> f \<in> set (listing i) \<Longrightarrow> qm_name e = qm_name f \<Longrightarrow> e = f"
  by (metis lookup_listed sum.inject(2))

lemma selected_names:
  "wf i \<Longrightarrow> name \<in> qm_name ` set (filter P (listing i)) \<longleftrightarrow> (\<exists>e. lookup i name = Inr e \<and> P e)"
  by (auto simp: lookup_listed)

lemma tenants_disjoint: "t \<noteq> u \<Longrightarrow> set (tenant_listing i t) \<inter> set (tenant_listing i u) = {}"
  by (auto simp: tenant_part)

end

definition inv_wf :: "inventory \<Rightarrow> bool" where
  "inv_wf store \<longleftrightarrow>
     distinct (map fst (inv_entries store)) \<and> list_all (\<lambda>(k, e). qm_name e = k) (inv_entries store)"

lemma inv_wf_InMemoryInventory [simp]: "inv_wf (InMemoryInventory es)"
proof -
  have "qm_name e = k" if "(k, e) \<in> set (inv_entries (InMemoryInventory es))" for k e
    using that distinct_inventory [of es] last_entry_in [of es k e] by (simp add: map_of_inventory [symmetric])
  then show ?thesis by (auto simp: inv_wf_def distinct_inventory list_all_iff)
qed

interpretation memory: inventory_registry inv_get inv_list_all list_for_tenant inv_wf
proof unfold_locales
  fix store name e x t
  show "inv_get store name = Inl x \<Longrightarrow> \<exists>m. x = LookupError m"
    by (auto simp: inv_get_def split: option.splits)
  show "list_for_tenant store t = filter (\<lambda>e. qm_tenant e = t) (inv_list_all store)"
    by (simp add: list_for_tenant_def inv_list_all_def)
  assume wf: "inv_wf store"
  then have dist: "distinct (map fst (inv_entries store))"
    and key: "\<And>k f. (k, f) \<in> set (inv_entries store) \<Longrightarrow> qm_name f = k"
    by (auto simp: inv_wf_def list_all_iff)
  have "inv_get store name = Inr e \<longleftrightarrow> map_of (inv_entries store) name = Some e"
    by (simp add: inv_get_def split: option.split)
  also have "\<dots> \<longleftrightarrow> (name, e) \<in> set (inv_entries store)"
    by (rule map_of_eq_Some_iff [OF dist])
  also have "\<dots> \<longleftrightarrow> e \<in> set (inv_list_all store) \<and> qm_name e = name"
    using key by (force simp: inv_list_all_def)
  finally show "inv_get store name = Inr e \<longleftrightarrow> e \<in> set (inv_list_all store) \<and> qm_name e = name" .
qed

section \<open>Properties\<close>

text \<open>C32: The inventory answers every name with the entry that was listed last under it, and
  with \<open>LookupError\<close> exactly for names that were never listed; every listed entry is valid when it
  came through the loader, whichever file it came from.\<close>
theorem merged_inventory_lookup:
  assumes "load_from_multiple read_qms paths = Inr store"
  shows "\<exists>parts. list_all2 (\<lambda>path es. read_qms path = Inr es) paths parts \<and>
    list_all valid_entry (concat parts) \<and>
    (\<forall>name. inv_get store name =
      (case last_entry (concat parts) name of
         Some e \<Rightarrow> Inr e
       | None \<Rightarrow> Inl (LookupError (lit ''QM '' @ py_repr name @ lit '' not in inventory''))))"
proof -
  from assms obtain parts
    where t: "traverse (\<lambda>path. bind_res (read_qms path) (traverse QMEntry)) paths = Inr parts"
      and store: "store = InMemoryInventory (concat parts)"
    by (auto simp: load_from_multiple_def)
  from t have all: "list_all2 (\<lambda>path es. read_qms path = Inr es \<and> list_all valid_entry es) paths parts"
    unfolding traverse_Inr_iff by (rule list_all2_mono) (auto dest: traverse_QMEntry)
  then have "list_all2 (\<lambda>path es. read_qms path = Inr es) paths parts"
    by (rule list_all2_mono) simp
  moreover have "list_all valid_entry (concat parts)"
    using all by (induction paths parts rule: list_all2_induct) auto
  ultimately show ?thesis
    by (intro exI [of _ parts]) (simp add: store inv_get_def map_of_inventory split: option.splits)
qed

definition sample_entry :: qm_entry where
  "sample_entry =
     \<lparr> qm_name = lit ''QM1'', qm_host = lit ''localhost'', qm_port = 1414, qm_channel = lit ''APP.SVRCONN'',
       qm_environment = lit ''dev'', topology_hint = UNKNOWN, mq_version_hint = None,
       qm_tenant = lit ''default'', secret_ref = lit ''qm1'', cipher_spec = None \<rparr>"

lemma sample_entry_valid: "valid_entry sample_entry"
  by (simp add: valid_entry_def sample_entry_def mq_name_char_def valid_host_def environments_def
      opt_max_def lit_def is_upper_letter_def is_digit_def)

lemma merged_inventory_lookup_witness:
  "\<exists>store. load_from_multiple (\<lambda>_. Inr [sample_entry]) [lit ''a.yaml'', lit ''b.yaml''] = Inr store \<and>
     (\<exists>parts. list_all valid_entry (concat parts) \<and> length parts = 2)"
proof -
  have "\<exists>store. load_from_multiple (\<lambda>_. Inr [sample_entry]) [lit ''a.yaml'', lit ''b.yaml''] = Inr store"
    by (simp add: load_from_multiple_def QMEntry_def sample_entry_valid)
  then obtain store where store: "load_from_multiple (\<lambda>_. Inr [sample_entry]) [lit ''a.yaml'', lit ''b.yaml''] = Inr store" ..
  from merged_inventory_lookup [OF store] obtain parts
    where parts: "list_all2 (\<lambda>path es. (Inr [sample_entry] :: exn + _) = Inr es) [lit ''a.yaml'', lit ''b.yaml''] parts"
      "list_all valid_entry (concat parts)" by blast
  from list_all2_lengthD [OF parts(1)] have "length parts = 2" by simp
  with store parts(2) show ?thesis by blast
qed

text \<open>Listing by tenant returns exactly the inventory's entries of that tenant, so a tenant
  never sees another tenant's queue manager, and every entry is listed for one tenant.\<close>
theorem tenant_listing_isolated:
  "set (list_for_tenant store t) = {e \<in> set (inv_list_all store). qm_tenant e = t} \<and>
   (t \<noteq> u \<longrightarrow> set (list_for_tenant store t) \<inter> set (list_for_tenant store u) = {})"
  using memory.tenants_disjoint by (auto simp: memory.tenant_part)

lemma tenant_listing_isolated_witness:
  "set (list_for_tenant (InMemoryInventory [sample_entry]) (lit ''default'')) \<inter>
   set (list_for_tenant (InMemoryInventory [sample_entry]) (lit ''other'')) = {}"
proof -
  have "lit ''default'' \<noteq> lit ''other''" by simp
  with tenant_listing_isolated [of "InMemoryInventory [sample_entry]" "lit ''default''" "lit ''other''"]
  show ?thesis by blast
qed

end
