(* ===== verification/Secrets.thy ===== *)
theory Secrets
  imports PyText
begin

unbundle bit_operations_syntax

text \<open>
  \<open>secrets/backend.py\<close> and \<open>secrets/filesystem.py\<close>: credentials read from a mounted
  directory. The file system is a record of functions on absolute paths: the operating
  system's path resolution (symbolic links included), file kinds, mode bits and contents.
\<close>

record mq_credential =
  cred_user :: pystr
  cred_password :: pystr
  keystore_path :: "pystr option"
  keystore_password :: "pystr option"
  cert_label :: "pystr option"

text \<open>\<open>MQCredential.__str__\<close>.\<close>

definition credential_str :: "mq_credential \<Rightarrow> pystr" where
  "credential_str c = lit ''MQCredential(user='' @ squote (cred_user c) @ lit '', password=<redacted>)''"

record file_system =
  fs_resolve :: "pystr \<Rightarrow> pystr"
  fs_exists :: "pystr \<Rightarrow> bool"
  fs_is_dir :: "pystr \<Rightarrow> bool"
  fs_is_file :: "pystr \<Rightarrow> bool"
  fs_mode :: "pystr \<Rightarrow> nat"
  fs_children :: "pystr \<Rightarrow> pystr list"
  fs_text :: "pystr \<Rightarrow> pystr"

text \<open>\<open>path / name\<close> for a relative name; \<open>path.name\<close>.\<close>

definition path_join :: "pystr \<Rightarrow> pystr \<Rightarrow> pystr" where
  "path_join p n = p @ lit ''/'' @ n"

definition path_name :: "pystr \<Rightarrow> pystr" where
  "path_name p = rev (takeWhile (\<lambda>c. c \<noteq> 47) (rev p))"

text \<open>\<open>FilesystemSecrets(mount_root)\<close> keeps the resolved root.\<close>

definition FilesystemSecrets :: "file_system \<Rightarrow> pystr \<Rightarrow> exn + pystr" where
  "FilesystemSecrets fs mount_root =
     (let root = fs_resolve fs mount_root in
      if fs_exists fs root then Inr root
      else Inl (FileNotFoundError (lit ''secrets mount '' @ root @ lit '' does not exist'')))"

definition read_required :: "file_system \<Rightarrow> pystr \<Rightarrow> exn + pystr" where
  "read_required fs path =
     (if \<not> fs_exists fs path then
        Inl (FileNotFoundError (lit ''required secret file '' @ path_name path @ lit '' missing''))
      else Inr (strip (fs_text fs path)))"

definition read_optional :: "file_system \<Rightarrow> pystr \<Rightarrow> pystr option" where
  "read_optional fs path =
     (if \<not> fs_exists fs path then None
      else let value = strip (fs_text fs path) in if value = [] then None else Some value)"

text \<open>\<open>S_IWOTH | S_IWGRP\<close> and \<open>S_IRWXO | S_IWGRP\<close>.\<close>

definition others_write :: nat where "others_write = 0x12"
definition others_access :: nat where "others_access = 0x17"

definition check_permissions :: "file_system \<Rightarrow> pystr \<Rightarrow> exn + unit" where
  "check_permissions fs target =
     (if fs_mode fs target AND others_write \<noteq> 0 then
        Inl (PermissionError (lit ''secret dir '' @ target @
          lit '' has unsafe permissions: must not be group/world-writable''))
      else
        (case find (\<lambda>path. fs_is_file fs path \<and> fs_mode fs path AND others_access \<noteq> 0) (fs_children fs target) of
           Some path \<Rightarrow>
             Inl (PermissionError (lit ''secret file '' @ path_name path @ lit '' has unsafe permissions: '' @
               lit ''must not be world-readable or group-writable (chmod 600)''))
         | None \<Rightarrow> Inr ()))"

definition resolve_secret :: "file_system \<Rightarrow> pystr \<Rightarrow> pystr \<Rightarrow> exn + mq_credential" where
  "resolve_secret fs root ref =
     (if lit ''..'' \<in> set (split_on 47 ref) \<or> prefix (lit ''/'') ref then
        Inl (ValueError (lit ''invalid secret_ref (path traversal)''))
      else
        let target = fs_resolve fs (path_join root ref) in
        if \<not> prefix (root @ lit ''/'') target \<and> target \<noteq> root then
          Inl (ValueError (lit ''secret_ref escapes mount root''))
        else if \<not> fs_is_dir fs target then
          Inl (FileNotFoundError (lit ''secret directory '' @ target @ lit '' not found''))
        else
          bind_res (check_permissions fs target) (\<lambda>_.
          bind_res (read_required fs (path_join target (lit ''username''))) (\<lambda>user.
          bind_res (read_required fs (path_join target (lit ''password''))) (\<lambda>password.
          Inr \<lparr> cred_user = user, cred_password = password,
                keystore_path = read_optional fs (path_join target (lit ''keystore_path'')),
                keystore_password = read_optional fs (path_join target (lit ''keystore_password'')),
                cert_label = read_optional fs (path_join target (lit ''cert_label'')) \<rparr>))))"

section \<open>The protocol\<close>

text \<open>\<open>SecretsBackend\<close>: a backend answers for the credentials that it hands out. What it answers for is
  its own predicate on the reference and the credential; a client may rely on it for whatever
  \<open>resolve\<close> returns.\<close>

locale secrets_backend_contract =
  fixes resolve :: "pystr \<Rightarrow> exn + mq_credential" and vouched :: "pystr \<Rightarrow> mq_credential \<Rightarrow> bool"
  assumes resolved: "resolve ref = Inr cred \<Longrightarrow> vouched ref cred"

text \<open>The mounted directory answers for credentials that were read below its root, from a directory
  and files that nobody else can change.\<close>

definition confined :: "file_system \<Rightarrow> pystr \<Rightarrow> pystr \<Rightarrow> mq_credential \<Rightarrow> bool" where
  "confined fs root ref cred \<longleftrightarrow>
     (let target = fs_resolve fs (path_join root ref) in
      (target = root \<or> prefix (root @ lit ''/'') target) \<and> lit ''..'' \<notin> set (split_on 47 ref) \<and>
      fs_mode fs target AND others_write = 0 \<and>
      list_all (\<lambda>p. fs_is_file fs p \<longrightarrow> fs_mode fs p AND others_access = 0) (fs_children fs target) \<and>
      cred_user cred = strip (fs_text fs (path_join target (lit ''username''))) \<and>
      cred_password cred = strip (fs_text fs (path_join target (lit ''password''))))"

lemma resolve_secret_confined: "resolve_secret fs root ref = Inr cred \<Longrightarrow> confined fs root ref cred"
  by (auto simp: confined_def resolve_secret_def check_permissions_def read_required_def Let_def find_None_iff
      list_all_iff split: if_splits option.splits)

interpretation mounted: secrets_backend_contract "resolve_secret fs root" "confined fs root" for fs root
  by unfold_locales (rule resolve_secret_confined)

section \<open>Properties\<close>

text \<open>A credential is only ever read from below the mount root, even when symbolic links
  redirect the path, and only when nobody else can write the directory or access a file in it.\<close>
theorem secret_confined:
  assumes "resolve_secret fs root ref = Inr cred"
  shows "\<exists>target. target = fs_resolve fs (path_join root ref) \<and>
    (target = root \<or> prefix (root @ lit ''/'') target) \<and> lit ''..'' \<notin> set (split_on 47 ref) \<and>
    fs_mode fs target AND others_write = 0 \<and>
    list_all (\<lambda>p. fs_is_file fs p \<longrightarrow> fs_mode fs p AND others_access = 0) (fs_children fs target) \<and>
    cred_password cred = strip (fs_text fs (path_join target (lit ''password'')))"
  using mounted.resolved [OF assms] by (simp add: confined_def Let_def)

definition sample_fs :: file_system where
  "sample_fs =
     \<lparr> fs_resolve = (\<lambda>p. p), fs_exists = (\<lambda>_. True), fs_is_dir = (\<lambda>_. True), fs_is_file = (\<lambda>_. True),
       fs_mode = (\<lambda>_. 0), fs_children = (\<lambda>_. []), fs_text = (\<lambda>_. lit ''s3cret'') \<rparr>"

lemma secret_confined_witness:
  "\<exists>cred. resolve_secret sample_fs (lit ''/run/secrets'') (lit ''qm1'') = Inr cred \<and>
     cred_password cred = strip (lit ''s3cret'')"
proof -
  have "\<exists>cred. resolve_secret sample_fs (lit ''/run/secrets'') (lit ''qm1'') = Inr cred"
    by (simp add: sample_fs_def resolve_secret_def check_permissions_def read_required_def path_join_def
        prefix_def) (simp add: lit_def)
  then obtain cred where c: "resolve_secret sample_fs (lit ''/run/secrets'') (lit ''qm1'') = Inr cred" ..
  from secret_confined [OF c] have "cred_password cred = strip (lit ''s3cret'')"
    by (auto simp: sample_fs_def)
  with c show ?thesis by blast
qed

end
