(* ===== verification/Connector_Base.thy ===== *)
theory Connector_Base
  imports Inventory Secrets Values
begin

text \<open>
  \<open>connectors/base.py\<close>: the result records and the connector protocol. A connector is a
  record of operations that take and return its state; a computation that uses one is a
  function from the state to a result and the new state (\<open>act\<close>).

  The locale \<open>mq_connector\<close> states what every connector promises: the trace of its external
  effects only grows, and only by commands that pass the allowlist. What the tools do with
  a connector is proved once inside the locale; the fixture and the live connector are its
  interpretations.
\<close>

section \<open>Results\<close>

record mqsc_result =
  mr_command :: pystr
  mr_rows :: "pystr pydict list"
  mr_raw :: pystr
  mr_reason_code :: "int option"
  mr_completion_code :: "int option"

record dlq_header =
  dh_reason_code :: int
  dh_feedback :: int
  dh_put_application_name :: pystr
  dh_put_application_type :: pystr
  dh_put_date :: pystr
  dh_put_time :: pystr
  dh_dest_q_name :: pystr
  dh_dest_q_mgr_name :: pystr
  dh_backout_count :: int
  dh_body_length :: int
  dh_msg_id_hash :: pystr
  dh_encoding :: cell
  dh_coded_char_set_id :: cell

record browse_result =
  br_queue_name :: pystr
  br_qm_name :: pystr
  br_sample_size :: nat
  br_queue_depth :: int
  br_headers :: "dlq_header list"

text \<open>A row of an MQSC reply as the matchers see it.\<close>

definition to_row :: "pystr pydict \<Rightarrow> row" where
  "to_row d = map (\<lambda>(k, v). (k, CStr v)) d"

lemma map_of_to_row: "map_of (to_row d) k = map_option CStr (map_of d k)"
  by (simp add: to_row_def map_of_map)

section \<open>Computations\<close>

type_synonym ('s, 'a) act = "'s \<Rightarrow> (exn + 'a) \<times> 's"

definition ret :: "'a \<Rightarrow> ('s, 'a) act" where
  "ret x s = (Inr x, s)"

definition raise :: "exn \<Rightarrow> ('s, 'a) act" where
  "raise e s = (Inl e, s)"

definition bind_act :: "('s, 'a) act \<Rightarrow> ('a \<Rightarrow> ('s, 'b) act) \<Rightarrow> ('s, 'b) act" where
  "bind_act m f s = (case m s of (Inl e, s') \<Rightarrow> (Inl e, s') | (Inr x, s') \<Rightarrow> f x s')"

text \<open>\<open>try: m except Exception: return d\<close>.\<close>

definition or_else :: "('s, 'a) act \<Rightarrow> 'a \<Rightarrow> ('s, 'a) act" where
  "or_else m d s = (case m s of (Inl e, s') \<Rightarrow> (Inr d, s') | (Inr x, s') \<Rightarrow> (Inr x, s'))"

text \<open>\<open>try: m finally: f\<close>: an exception of \<open>f\<close> replaces the outcome of \<open>m\<close>.\<close>

definition finally_do :: "('s, 'a) act \<Rightarrow> ('s, unit) act \<Rightarrow> ('s, 'a) act" where
  "finally_do m f s =
     (case m s of (r, s') \<Rightarrow> (case f s' of (Inl e, s'') \<Rightarrow> (Inl e, s'') | (Inr _, s'') \<Rightarrow> (r, s'')))"

text \<open>A pure result inside a computation.\<close>

definition lift_res :: "exn + 'a \<Rightarrow> ('s, 'a) act" where
  "lift_res r s = (r, s)"

section \<open>The protocol\<close>

record 's connector =
  op_connect :: "qm_entry \<Rightarrow> mq_credential \<Rightarrow> ('s, unit) act"
  op_disconnect :: "('s, unit) act"
  op_mqsc :: "pystr \<Rightarrow> ('s, mqsc_result) act"
  op_shell :: "pystr list \<Rightarrow> ('s, pystr) act"
  op_browse :: "pystr \<Rightarrow> int \<Rightarrow> ('s, browse_result) act"

text \<open>The effects of a connector outside the process.\<close>

datatype event =
    EConnect pystr
  | EDisconnect
  | EMqsc pystr
  | EShell "pystr list"
  | EBrowse pystr

fun event_ok :: "event \<Rightarrow> bool" where
  "event_ok (EMqsc c) = mqsc_ok c"
| "event_ok (EShell argv) = shell_ok argv"
| "event_ok _ = True"

definition ok_trace :: "event list \<Rightarrow> bool" where
  "ok_trace es = list_all event_ok es"

lemma ok_trace_simps [simp]:
  "ok_trace []" "ok_trace (e # es) \<longleftrightarrow> event_ok e \<and> ok_trace es"
  "ok_trace (es @ fs) \<longleftrightarrow> ok_trace es \<and> ok_trace fs"
  by (simp_all add: ok_trace_def)

text \<open>\<open>grows tr m\<close>: whatever \<open>m\<close> does, it appends allowed events to the trace.\<close>

definition grows :: "('s \<Rightarrow> event list) \<Rightarrow> ('s, 'a) act \<Rightarrow> bool" where
  "grows tr m \<longleftrightarrow> (\<forall>s. \<exists>es. tr (snd (m s)) = tr s @ es \<and> ok_trace es)"

lemma growsD: "grows tr m \<Longrightarrow> \<exists>es. tr (snd (m s)) = tr s @ es \<and> ok_trace es"
  by (simp add: grows_def)

lemma growsI: "(\<And>s. \<exists>es. tr (snd (m s)) = tr s @ es \<and> ok_trace es) \<Longrightarrow> grows tr m"
  by (simp add: grows_def)

lemma grows_ret [trace_intros]: "grows tr (ret x)"
  by (auto simp: grows_def ret_def)

lemma grows_raise [trace_intros]: "grows tr (raise e)"
  by (auto simp: grows_def raise_def)

lemma grows_lift [trace_intros]: "grows tr (lift_res r)"
  by (auto simp: grows_def lift_res_def)

lemma grows_bind [trace_intros]:
  assumes m: "grows tr m" and f: "\<And>x. grows tr (f x)"
  shows "grows tr (bind_act m f)"
proof (rule growsI)
  fix s
  obtain r s' where ms: "m s = (r, s')" by force
  from growsD [OF m, of s] ms obtain es where es: "tr s' = tr s @ es" "ok_trace es" by auto
  show "\<exists>es. tr (snd (bind_act m f s)) = tr s @ es \<and> ok_trace es"
  proof (cases r)
    case (Inl e)
    with es ms show ?thesis by (auto simp: bind_act_def)
  next
    case (Inr x)
    from growsD [OF f [of x], of s'] obtain fs where "tr (snd (f x s')) = tr s' @ fs" "ok_trace fs" by auto
    with es ms Inr show ?thesis by (auto simp: bind_act_def)
  qed
qed

lemma grows_or_else [trace_intros]: "grows tr m \<Longrightarrow> grows tr (or_else m d)"
  unfolding grows_def or_else_def by (auto split: prod.splits sum.splits) (metis snd_conv)+

lemma grows_finally [trace_intros]:
  assumes m: "grows tr m" and f: "grows tr f"
  shows "grows tr (finally_do m f)"
proof (rule growsI)
  fix s
  obtain r s' where ms: "m s = (r, s')" by force
  obtain q s'' where fs: "f s' = (q, s'')" by force
  from growsD [OF m, of s] ms obtain es where es: "tr s' = tr s @ es" "ok_trace es" by auto
  from growsD [OF f, of s'] fs obtain es' where "tr s'' = tr s' @ es'" "ok_trace es'" by auto
  with es ms fs show "\<exists>es. tr (snd (finally_do m f s)) = tr s @ es \<and> ok_trace es"
    by (cases q) (auto simp: finally_do_def)
qed

lemma grows_if [trace_intros]: "grows tr m \<Longrightarrow> grows tr n \<Longrightarrow> grows tr (if b then m else n)"
  by simp

lemma grows_Let [trace_intros]: "(\<And>x. grows tr (f x)) \<Longrightarrow> grows tr (let x = e in f x)"
  by simp

lemma finally_last:
  "snd (finally_do m f s) = snd (f (snd (m s)))"
  by (auto simp: finally_do_def split: prod.splits sum.splits)

locale mq_connector =
  fixes C :: "'s connector" and tr :: "'s \<Rightarrow> event list" and connected :: "'s \<Rightarrow> bool"
  assumes connect_trace: "grows tr (op_connect C e cred)"
    and disconnect_trace: "grows tr (op_disconnect C)"
    and mqsc_trace: "grows tr (op_mqsc C c)"
    and shell_trace: "grows tr (op_shell C argv)"
    and browse_trace: "grows tr (op_browse C q n)"
    and disconnected: "\<not> connected (snd (op_disconnect C s))"
    and mqsc_refused: "\<not> mqsc_ok c \<Longrightarrow> \<exists>e. op_mqsc C c s = (Inl e, s)"
    and shell_refused: "\<not> shell_ok argv \<Longrightarrow> \<exists>e. op_shell C argv s = (Inl e, s)"
begin

lemmas operations_grow = connect_trace disconnect_trace mqsc_trace shell_trace browse_trace

text \<open>A computation wrapped in \<open>try ... finally: disconnect\<close> leaves the connector disconnected.\<close>

lemma finally_disconnected: "\<not> connected (snd (finally_do m (op_disconnect C) s))"
  unfolding finally_last by (rule disconnected)

end

section \<open>Sessions: any sequence of operations\<close>

inductive conn_step :: "'s connector \<Rightarrow> 's \<Rightarrow> 's \<Rightarrow> bool" for C where
  connect: "conn_step C s (snd (op_connect C entry credential s))"
| disconnect: "conn_step C s (snd (op_disconnect C s))"
| mqsc: "conn_step C s (snd (op_mqsc C command s))"
| shell: "conn_step C s (snd (op_shell C argv s))"
| browse: "conn_step C s (snd (op_browse C queue_name max_messages s))"

inductive_cases conn_stepE: "conn_step C s s'"

context mq_connector
begin

lemma step_grows: "conn_step C s s' \<Longrightarrow> \<exists>es. tr s' = tr s @ es \<and> ok_trace es"
  by (erule conn_stepE) (simp_all only: growsD [OF connect_trace] growsD [OF disconnect_trace]
    growsD [OF mqsc_trace] growsD [OF shell_trace] growsD [OF browse_trace])

lemma session_allowed:
  assumes "(conn_step C)\<^sup>*\<^sup>* s s'" and "ok_trace (tr s)"
  shows "ok_trace (tr s')"
  using assms by (induction rule: rtranclp_induct) (auto dest!: step_grows)

lemma session_prefix:
  assumes "(conn_step C)\<^sup>*\<^sup>* s s'"
  shows "\<exists>es. tr s' = tr s @ es \<and> ok_trace es"
  using assms by (induction rule: rtranclp_induct) (force dest!: step_grows)+

end

end
