(* ===== verification/Match_Dlq.thy ===== *)
theory Match_Dlq
  imports Engine Connector_Base
begin

text \<open>
  \<open>rcs/matchers/dlq.py\<close>: findings from dead-letter headers. The browse dictionary is a record
  of its header list and its scalar keys; a header is a row, as \<open>header_to_dict\<close> builds it.
  The integer conversions of this matcher are not guarded, so it can raise.
\<close>

section \<open>Counting\<close>

text \<open>\<open>Counter(xs)\<close>: counts in the order of first occurrence.\<close>

definition counter_add :: "pystr \<Rightarrow> nat pydict \<Rightarrow> nat pydict" where
  "counter_add x c = dict_set x (Suc (case map_of c x of None \<Rightarrow> 0 | Some n \<Rightarrow> n)) c"

definition counter :: "pystr list \<Rightarrow> nat pydict" where
  "counter xs = fold counter_add xs []"

text \<open>\<open>most_common(n)\<close>: by descending count, ties in insertion order.\<close>

definition most_common :: "nat \<Rightarrow> nat pydict \<Rightarrow> nat pydict" where
  "most_common n c = take n (sort_key (\<lambda>(_, k). - int k) c)"

text \<open>\<open>", ".join(f"{q}={n}" for q, n in c.most_common(3) if q)\<close>.\<close>

definition top_text :: "nat pydict \<Rightarrow> pystr" where
  "top_text c =
     join (lit '', '') (map (\<lambda>(q, n). q @ lit ''='' @
       str_nat n) (filter (\<lambda>(q, _). q \<noteq> []) (most_common 3 c)))"

section \<open>Tables\<close>

definition dlq_severity :: "int \<Rightarrow> severity" where
  "dlq_severity reason =
     (case map_of [(2035, HIGH), (2080, MEDIUM), (2030, MEDIUM), (2051, HIGH), (2053, HIGH), (2079 :: int, LOW)] reason of
        None \<Rightarrow> MEDIUM | Some s \<Rightarrow> s)"

definition dlq_backout_threshold :: int where
  "dlq_backout_threshold = 5"

definition root_cause_for_reason :: "int \<Rightarrow> pystr \<Rightarrow> pystr \<Rightarrow> pystr" where
  "root_cause_for_reason reason top_dest top_apps =
    (let base = (case map_of
    [(2035, lit ''Putter lacked authority on the destination queue (NOT_AUTHORIZED).''),
     (2080, lit ''Receiving application supplied a buffer smaller than the message and did '' @
       lit ''not accept truncation, so the message was rerouted to the DLQ.''),
     (2030, lit ''Message exceeded the destination queue's MAXMSGL.''),
     (2051, lit ''Destination queue had PUT(DISABLED) when the message arrived.''),
     (2053, lit ''Destination queue was at MAXDEPTH (Q_FULL) when the message arrived.''),
     (2079, lit ''Receiving application accepted a truncated message '' @ emdash @
       lit '' likely a buffer sizing or schema mismatch on the consumer.'')] reason of
           Some t \<Rightarrow> t | None \<Rightarrow> lit ''DLQ messages with reason '' @
             str_int reason @ lit ''.'');
         suffix = (if top_dest \<noteq> [] then [lit ''Top destinations: '' @ top_dest @
           lit ''.''] else []) @
                  (if top_apps \<noteq> [] then [lit ''Top putting apps: '' @ top_apps @
                    lit ''.''] else [])
     in join (lit '' '') (base # suffix))"

definition fix_steps_for_reason :: "int \<Rightarrow> nat pydict \<Rightarrow> pystr list" where
  "fix_steps_for_reason reason top_dest =
    (let dest = (if top_dest \<noteq> [] \<and> fst (hd top_dest) \<noteq> [] then fst (hd top_dest) else lit ''<destination>'') in
     if reason = 2035 then
       [lit ''DISPLAY AUTHREC OBJTYPE(QUEUE) PROFILE('' @ squote dest @ lit '')'',
        lit ''DISPLAY QMGR CONNAUTH'']
     else if reason = 2080 then
       [lit ''DISPLAY QUEUE('' @ squote dest @ lit '') MAXMSGL'',
        lit ''DISPLAY CHANNEL(*) MAXMSGL'']
     else if reason = 2030 then
       [lit ''DISPLAY QUEUE('' @ squote dest @ lit '') MAXMSGL'',
        lit ''DISPLAY QMGR MAXMSGL'']
     else if reason = 2051 then
       [lit ''DISPLAY QUEUE('' @ squote dest @ lit '') PUT GET'',
        lit ''DISPLAY QSTATUS('' @ squote dest @ lit '') ALL'']
     else if reason = 2053 then
       [lit ''DISPLAY QUEUE('' @ squote dest @ lit '') CURDEPTH MAXDEPTH'',
        lit ''DISPLAY QSTATUS('' @ squote dest @ lit '') ALL'']
     else if reason = 2079 then
       [lit ''DISPLAY QUEUE('' @ squote dest @ lit '') MAXMSGL'']
     else
       [lit ''DISPLAY QUEUE('' @ squote dest @ lit '') ALL''])"

definition remediation_for_reason :: "int \<Rightarrow> pystr \<Rightarrow> remediation_scenario list" where
  "remediation_for_reason reason dest =
    (if reason = 2035 then
    [\<lparr> rem_scenario = lit ''Grant putter the required permission on the destination queue'',
          rem_commands =
            [lit ''SET AUTHREC PROFILE('' @ squote dest @ lit '') OBJTYPE(QUEUE) '' @
              lit ''PRINCIPAL('putter-user') AUTHADD(PUT, INQ)''],
          rem_notes = lit ''Replace 'putter-user' with the actual MCAUSER from the '' @
            lit ''originating channel.'' \<rparr>]
     else if reason = 2080 then
    [\<lparr> rem_scenario = lit ''Fix consumer buffer sizing (application change)'',
          rem_commands =
            [lit ''# No MQSC command '' @ emdash @ lit '' update the consumer to size its '' @
              lit ''buffer to MAXMSGL.''],
          rem_notes = lit ''Application must call MQGET with a buffer >= queue MAXMSGL, or '' @
            lit ''accept truncation with MQGMO_ACCEPT_TRUNCATED_MSG.'' \<rparr>]
     else if reason = 2030 then
    [\<lparr> rem_scenario = lit ''Increase destination queue MAXMSGL'',
          rem_commands =
            [lit ''ALTER QLOCAL('' @ squote dest @ lit '') MAXMSGL(4194304)''],
          rem_notes = lit ''4 MiB is the typical max. Channel MAXMSGL on inbound channels '' @
            lit ''must also be >= this value: ALTER CHANNEL('...') MAXMSGL(...).'' \<rparr>,
    \<lparr> rem_scenario = lit ''Increase QMGR MAXMSGL if multiple queues need higher limits'',
          rem_commands =
            [lit ''ALTER QMGR MAXMSGL(104857600)''],
          rem_notes = lit ''100 MiB QMGR max. Set per-queue MAXMSGL appropriately afterwards.'' \<rparr>]
     else if reason = 2051 then
    [\<lparr> rem_scenario = lit ''Re-enable PUT on the destination queue'',
          rem_commands =
            [lit ''ALTER QLOCAL('' @ squote dest @ lit '') PUT(ENABLED)''],
          rem_notes = lit ''Only if disabling PUT was unintentional. Confirm with the team '' @
            lit ''that owns the queue first.'' \<rparr>]
     else if reason = 2053 then
    [\<lparr> rem_scenario = lit ''Drain the destination queue (consumer-side fix)'',
          rem_commands =
            [lit ''DISPLAY QSTATUS('' @ squote dest @ lit '') IPPROCS OPPROCS LGETDATE LGETTIME''],
          rem_notes = lit ''If no consumer running (OPPROCS=0), start it. If consumer is '' @
            lit ''slow, scale it. This is operational, not an MQSC fix.'' \<rparr>,
    \<lparr> rem_scenario = lit ''Increase MAXDEPTH if it was undersized'',
          rem_commands =
            [lit ''ALTER QLOCAL('' @ squote dest @ lit '') MAXDEPTH(50000)''],
          rem_notes = lit ''Use sparingly '' @ emdash @ lit '' large MAXDEPTH masks '' @
            lit ''consumer-throughput problems.'' \<rparr>]
     else if reason = 2079 then
    [\<lparr> rem_scenario = lit ''Fix consumer buffer sizing or accept truncation explicitly'',
          rem_commands =
            [lit ''# Application change '' @ emdash @ lit '' see MQGET with '' @
              lit ''MQGMO_ACCEPT_TRUNCATED_MSG.''],
          rem_notes = lit ''This reason means truncation succeeded but flagged. Either size '' @
            lit ''the buffer properly or remove the MQGMO_FAIL_IF_QUIESCING / accept flag.'' \<rparr>]
     else [])"

section \<open>Findings\<close>

definition finding_dlq_depth :: "pystr \<Rightarrow> int \<Rightarrow> int \<Rightarrow> rcs_finding" where
  "finding_dlq_depth queue_name depth sample =
    (let severity =
       (if depth > 10000 then CRITICAL
        else if depth > 1000 then HIGH
        else if depth > 100 then MEDIUM
        else LOW) in
    \<lparr> rcs_issue = lit ''Dead-letter queue '' @ queue_name @ lit '' depth='' @ str_int depth,
       rcs_severity = severity,
       rcs_reason_code = None,
       rcs_amq_code = None,
       root_cause = lit ''The DLQ has '' @ str_int depth @ lit '' message(s); the MCP '' @
         lit ''inspected the first '' @ str_int sample @ lit '' headers (bodies never '' @
         lit ''read). Persistent DLQ growth indicates downstream queues are unavailable, '' @
         lit ''applications are putting to non-existent queues, or message handling is '' @
         lit ''rejecting messages.'',
       fix_steps =
         [lit ''DISPLAY QUEUE('' @ squote queue_name @ lit '') CURDEPTH MAXDEPTH MSGAGE'',
          lit ''DISPLAY QUEUE(*) WHERE(CURDEPTH GT 0)'',
          lit ''DISPLAY QSTATUS('' @ squote queue_name @ lit '') ALL''],
       verify_commands =
         [lit ''DISPLAY QUEUE('' @ squote queue_name @ lit '') CURDEPTH''],
       doc_refs = [],
       rcs_confidence = lit ''High'',
       evidence =
         [(lit ''queue_name'', queue_name),
          (lit ''queue_depth'', str_int depth),
          (lit ''sample_size'', str_int sample)],
       remediation_steps =
         [\<lparr> rem_scenario = lit ''Drain processed messages back to their destinations'',
             rem_commands =
               [lit ''# Use IBM-supplied runmqdlq with a curated rules table:'',
                lit ''runmqdlq SYSTEM.DEAD.LETTER.QUEUE QM_NAME < /etc/mqm/dlq.rules''],
             rem_notes = lit ''Configure /etc/mqm/dlq.rules per IBM KC 'Sample DLQ handler '' @
               lit ''rules table'. Test the rules in a non-prod QM first '' @ emdash @
               lit '' destructive consume.'' \<rparr>,
          \<lparr> rem_scenario = lit ''Move messages off DLQ for manual inspection'',
             rem_commands =
               [lit ''# Browse-only sample (does NOT delete):'',
                lit ''dmpmqmsg -m QM_NAME -i '' @ queue_name @
                  lit '' -f /tmp/dlq.dump -k 0 -K 50''],
             rem_notes = lit ''Read-only browse; safe to run. After inspection, decide '' @
               lit ''whether to requeue via runmqdlq or accept loss with CLEAR.'' \<rparr>] \<rparr>)"

text \<open>\<open>str(h.get(k, ""))\<close> over the headers of a group.\<close>

definition header_texts :: "pystr \<Rightarrow> row list \<Rightarrow> pystr list" where
  "header_texts k grp = map (\<lambda>h. str_cell (get_d h k (CStr []))) grp"

definition finding_for_reason ::
  "pystr \<Rightarrow> int \<Rightarrow> row list \<Rightarrow> kc_registry \<Rightarrow> pystr option \<Rightarrow> rcs_finding" where
  "finding_for_reason queue_name reason grp registry mq_version =
    (let refs = lookup_reason registry reason mq_version;
         severity = dlq_severity reason;
         dest_counts = counter (header_texts (lit ''dest_q_name'') grp);
         apps = counter (header_texts (lit ''put_application_name'') grp);
         top_dest = top_text dest_counts;
         top_apps = top_text apps;
         the_fix_steps = fix_steps_for_reason reason (most_common 1 dest_counts);
         top_dest_name =
           (if dest_counts \<noteq> [] then fst (hd (most_common 1 dest_counts)) else lit ''<destination>'')
     in
    \<lparr> rcs_issue = lit ''DLQ contains '' @ (str_nat (length grp)) @ lit '' message(s) '' @
      lit ''with reason '' @ str_int reason,
       rcs_severity = severity,
       rcs_reason_code = Some reason,
       rcs_amq_code = None,
       root_cause = root_cause_for_reason reason top_dest top_apps,
       fix_steps =
         the_fix_steps,
       verify_commands =
         [lit ''DISPLAY QUEUE('' @ squote queue_name @ lit '') CURDEPTH''],
       doc_refs = refs,
       rcs_confidence = (if refs \<noteq> [] then lit ''High'' else lit ''Medium''),
       evidence =
         [(lit ''reason_code'', str_int reason),
          (lit ''count'', str_nat (length grp)),
          (lit ''top_destinations'', top_dest),
          (lit ''top_applications'', top_apps)],
       remediation_steps = remediation_for_reason reason top_dest_name \<rparr>)"

definition finding_backout_loop :: "pystr \<Rightarrow> row list \<Rightarrow> rcs_finding" where
  "finding_backout_loop queue_name headers =
    (let top = top_text (counter (header_texts (lit ''dest_q_name'') headers)) in
    \<lparr> rcs_issue = lit ''DLQ contains '' @ (str_nat (length headers)) @
      lit '' message(s) with backout_count >= '' @ str_int dlq_backout_threshold,
       rcs_severity = HIGH,
       rcs_reason_code = None,
       rcs_amq_code = None,
       root_cause = lit ''Messages have repeatedly failed processing on the original queue '' @
         lit ''and rolled back. This typically indicates a poison message '' @ emdash @
         lit '' verify the BOTHRESH / BOQNAME settings on the source queue.'',
       fix_steps =
         [lit ''DISPLAY QUEUE('' @ squote queue_name @ lit '') BOTHRESH BOQNAME'',
          lit ''DISPLAY QUEUE(*) WHERE(BOTHRESH GT 0)''],
       verify_commands =
         [lit ''DISPLAY QUEUE('' @ squote queue_name @ lit '') CURDEPTH''],
       doc_refs = [],
       rcs_confidence = lit ''Medium'',
       evidence =
         [(lit ''queue_name'', queue_name),
          (lit ''high_backout_count'', str_nat (length headers)),
          (lit ''top_destinations'', top)],
       remediation_steps =
         [\<lparr> rem_scenario = lit ''Configure source-queue backout handling'',
             rem_commands =
               [lit ''ALTER QLOCAL('source.queue') BOTHRESH(5) BOQNAME('source.queue.BOQ')'',
                lit ''DEFINE QLOCAL('source.queue.BOQ') REPLACE''],
             rem_notes = lit ''Replace 'source.queue' with the queue producing poison '' @
               lit ''messages. BOTHRESH=5 is conservative; tune to your retry policy. After '' @
               lit ''this, MQ routes the poison to the BOQ instead of looping on the source.'' \<rparr>,
          \<lparr> rem_scenario = lit ''Inspect poison message headers manually'',
             rem_commands =
               [lit ''dmpmqmsg -m QM_NAME -i '' @ queue_name @ lit '' -f /tmp/poison.dump '' @
                 lit ''-k 0 -K 10''],
             rem_notes = lit ''Browse-only. Look for malformed payloads, schema drift, or '' @
               lit ''auth tokens.'' \<rparr>] \<rparr>)"

section \<open>The matcher\<close>

record dlq_browse =
  bw_headers :: "row list"
  bw_scalars :: row

text \<open>\<open>int(v)\<close> where the source does not catch; the text of the built-in error is abridged.\<close>

definition int_exn :: "cell \<Rightarrow> exn + int" where
  "int_exn v =
     (case int_cell v of
        Some i \<Rightarrow> Inr i
      | None \<Rightarrow> Inl (if v = CNone then TypeError (lit ''int() argument must be a '' @
        lit ''string or a number'')
                     else ValueError (lit ''invalid literal for int() with base 10'')))"

text \<open>\<open>int(h.get(k, 0) or 0)\<close>.\<close>

definition int_field :: "pystr \<Rightarrow> row \<Rightarrow> exn + int" where
  "int_field k h = int_exn (cell_or (get_d h k (CInt 0)) (CInt 0))"

definition dlq_depth_findings :: "pystr \<Rightarrow> int \<Rightarrow> int \<Rightarrow> rcs_finding list" where
  "dlq_depth_findings queue_name queue_depth sample_size =
     (if queue_depth > 0 then [finding_dlq_depth queue_name queue_depth sample_size] else [])"

definition dlq_reason_findings ::
  "pystr \<Rightarrow> (int \<times> row) list \<Rightarrow> kc_registry \<Rightarrow> pystr option \<Rightarrow> rcs_finding list" where
  "dlq_reason_findings queue_name keyed registry mq_version =
     concat (map (\<lambda>(reason, grp).
         if reason = 0 then [] else [finding_for_reason queue_name reason grp registry mq_version])
       (sort_key fst (group_pairs keyed)))"

definition dlq_backout_findings :: "pystr \<Rightarrow> (int \<times> row) list \<Rightarrow> rcs_finding list" where
  "dlq_backout_findings queue_name counted =
     (let high_backout = map snd (filter (\<lambda>(n, _). n \<ge> dlq_backout_threshold) counted)
      in if high_backout \<noteq> [] then [finding_backout_loop queue_name high_backout] else [])"

definition match_dlq_findings ::
  "dlq_browse \<Rightarrow> kc_registry \<Rightarrow> pystr option \<Rightarrow> exn + rcs_finding list" where
  "match_dlq_findings browse registry mq_version =
     (let headers = bw_headers browse; top = bw_scalars browse;
          queue_name = str_cell (get_d top (lit ''queue_name'') (CStr (lit ''SYSTEM.DEAD.LETTER.QUEUE'')))
      in bind_res (int_field (lit ''queue_depth'') top) (\<lambda>queue_depth.
         bind_res (int_exn (cell_or (get_d top (lit ''sample_size'') (CInt (int (length headers))))
                                    (CInt (int (length headers))))) (\<lambda>sample_size.
         if queue_depth = 0 \<and> headers = [] then Inr []
         else bind_res (traverse (\<lambda>h. bind_res (int_field (lit ''reason_code'') h) (\<lambda>r. Inr (r, h))) headers) (\<lambda>keyed.
              bind_res (traverse (\<lambda>h. bind_res (int_field (lit ''backout_count'') h) (\<lambda>n. Inr (n, h))) headers) (\<lambda>counted.
              Inr (dlq_depth_findings queue_name queue_depth sample_size @
                   dlq_reason_findings queue_name keyed registry mq_version @
                   dlq_backout_findings queue_name counted))))))"


text \<open>\<open>header_to_dict\<close> and the dictionary that the tool builds from a browse result.\<close>

definition header_to_dict :: "dlq_header \<Rightarrow> row" where
  "header_to_dict h =
     [(lit ''reason_code'', CInt (dh_reason_code h)),
      (lit ''feedback'', CInt (dh_feedback h)),
      (lit ''put_application_name'', CStr (dh_put_application_name h)),
      (lit ''put_application_type'', CStr (dh_put_application_type h)),
      (lit ''put_date'', CStr (dh_put_date h)),
      (lit ''put_time'', CStr (dh_put_time h)),
      (lit ''dest_q_name'', CStr (dh_dest_q_name h)),
      (lit ''dest_q_mgr_name'', CStr (dh_dest_q_mgr_name h)),
      (lit ''backout_count'', CInt (dh_backout_count h)),
      (lit ''body_length'', CInt (dh_body_length h)),
      (lit ''msg_id_hash'', CStr (dh_msg_id_hash h))]"

definition browse_dict :: "browse_result \<Rightarrow> dlq_browse" where
  "browse_dict b =
     \<lparr> bw_headers = map header_to_dict (br_headers b),
       bw_scalars =
         [(lit ''queue_name'', CStr (br_queue_name b)), (lit ''qm_name'', CStr (br_qm_name b)),
          (lit ''queue_depth'', CInt (br_queue_depth b)),
          (lit ''sample_size'', CInt (int (br_sample_size b)))] \<rparr>"

section \<open>Counting lemmas\<close>

lemma counter_keys: "fst ` set (fold counter_add xs c) = fst ` set c \<union> set xs"
  by (induction xs arbitrary: c) (auto simp: counter_add_def)

lemma most_common_mem: "(q, n) \<in> set (most_common k (counter xs)) \<Longrightarrow> q \<in> set xs"
  using counter_keys [of xs "[]"] set_take_subset [of k "sort_key (\<lambda>(_, k). - int k) (counter xs)"]
  by (force simp: most_common_def counter_def)

definition count_in :: "nat pydict \<Rightarrow> pystr \<Rightarrow> nat" where
  "count_in c x = (case map_of c x of None \<Rightarrow> 0 | Some n \<Rightarrow> n)"

lemma count_in_add: "count_in (counter_add x c) y = (if y = x then Suc (count_in c y) else count_in c y)"
  by (simp add: count_in_def counter_add_def)

lemma count_in_fold: "count_in (fold counter_add xs c) x = count_in c x + count_list xs x"
  by (induction xs arbitrary: c) (simp_all add: count_in_add)

lemma count_in_counter: "count_in (counter xs) x = count_list xs x"
  unfolding counter_def count_in_fold by (simp add: count_in_def)

section \<open>The commands are read-only\<close>

lemma finding_dlq_depth_read_only: "clean_text q \<Longrightarrow> read_only_finding (finding_dlq_depth q depth sample)"
  by (simp add: finding_dlq_depth_def Let_def command_simps)

lemma fix_steps_for_reason_ok:
  assumes "top_dest \<noteq> [] \<Longrightarrow> clean_text (fst (hd top_dest))"
  shows "list_all (\<lambda>c. mqsc_ok c) (fix_steps_for_reason reason top_dest)"
proof -
  define dest where
    "dest = (if top_dest \<noteq> [] \<and> fst (hd top_dest) \<noteq> [] then fst (hd top_dest) else lit ''<destination>'')"
  have "clean_text dest" using assms by (auto simp: dest_def)
  then show ?thesis
    unfolding fix_steps_for_reason_def dest_def [symmetric] Let_def by (simp add: command_simps)
qed

lemma header_texts_clean:
  "list_all clean_row grp \<Longrightarrow> list_all clean_text (header_texts k grp)"
  by (simp add: header_texts_def list.pred_map comp_def list_all_iff clean_get_d)

lemma most_common_clean:
  assumes "list_all clean_text xs" "most_common k (counter xs) \<noteq> []"
  shows "clean_text (fst (hd (most_common k (counter xs))))"
proof -
  obtain q n where q: "hd (most_common k (counter xs)) = (q, n)" by force
  with assms(2) have "(q, n) \<in> set (most_common k (counter xs))" by (metis hd_in_set)
  from most_common_mem [OF this] assms(1) q show ?thesis by (simp add: list_all_iff)
qed

lemma finding_for_reason_read_only:
  assumes "clean_text q" "list_all clean_row grp"
  shows "read_only_finding (finding_for_reason q reason grp registry v)"
  using assms fix_steps_for_reason_ok [OF most_common_clean [OF header_texts_clean]]
  by (simp add: finding_for_reason_def Let_def command_simps)

lemma finding_backout_loop_read_only: "clean_text q \<Longrightarrow> read_only_finding (finding_backout_loop q hs)"
  by (simp add: finding_backout_loop_def Let_def command_simps)

lemma dlq_reason_findings_read_only:
  assumes "clean_text q" "list_all (\<lambda>kv. clean_row (snd kv)) keyed"
  shows "list_all read_only_finding (dlq_reason_findings q keyed registry v)"
proof -
  have "list_all clean_row grp" if "(reason, grp) \<in> set (group_pairs keyed)" for reason grp
    using that assms(2) by (auto simp: group_pairs_mem list_all_iff)
  with assms(1) show ?thesis
    by (auto simp: dlq_reason_findings_def list_all_iff finding_for_reason_read_only)
qed

lemma traverse_snd:
  assumes "traverse (\<lambda>h. bind_res (f h) (\<lambda>r. Inr (r, h))) hs = Inr ys"
  shows "map snd ys = hs"
  using assms by (induction hs arbitrary: ys) auto

lemma traverse_keyed:
  "(\<And>h. f (g h) = Inr (k h)) \<Longrightarrow>
     traverse (\<lambda>h. bind_res (f h) (\<lambda>r. Inr (r, h))) (map g hs) = Inr (map (\<lambda>h. (k h, g h)) hs)"
  by (induction hs) auto

section \<open>Findings of a browse result\<close>

lemma int_field_header:
  "int_field (lit ''reason_code'') (header_to_dict h) = Inr (dh_reason_code h)"
  "int_field (lit ''backout_count'') (header_to_dict h) = Inr (dh_backout_count h)"
  by (simp_all add: int_field_def int_exn_def header_to_dict_def get_d_Cons cell_or_def)

lemma int_exn_or: "int_exn (cell_or (CInt i) (CInt j)) = Inr (if i = 0 then j else i)"
  by (simp add: int_exn_def cell_or_def)

lemma sort_groups:
  "sort_key fst (group_pairs kvs) =
     map (\<lambda>k. (k, map snd (filter (\<lambda>kv. fst kv = k) kvs))) (sort (remdups (map fst kvs)))"
  (is "?l = ?r")
proof (rule map_sorted_distinct_set_unique [where f = fst])
  have set: "set ?r = set ?l"
    by (auto simp: group_pairs_mem image_iff) force
  then show "set ?l = set ?r" by simp
  show "inj_on fst (set ?l \<union> set ?r)"
    unfolding set by (rule inj_onI) (auto simp: group_pairs_mem)
  show "sorted (map fst ?l)" by simp
  have "distinct (map fst (group_pairs kvs))" by (rule group_pairs_distinct)
  then show "distinct (map fst ?l)"
    by (metis distinct_map distinct_sort inj_on_cong set_sort)
  show "sorted (map fst ?r)" by (simp add: comp_def)
  show "distinct (map fst ?r)" by (simp add: comp_def)
qed

definition reasons_of :: "dlq_header list \<Rightarrow> int list" where
  "reasons_of hs = filter (\<lambda>r. r \<noteq> 0) (sort (remdups (map dh_reason_code hs)))"

lemma concat_map_if: "concat (map (\<lambda>x. if P x then [] else [f x]) xs) = map f (filter (\<lambda>x. \<not> P x) xs)"
  by (induction xs) auto

lemma dlq_reason_findings_headers:
  "dlq_reason_findings q (map (\<lambda>h. (dh_reason_code h, header_to_dict h)) hs) registry v =
     map (\<lambda>r. finding_for_reason q r (map header_to_dict (filter (\<lambda>h. dh_reason_code h = r) hs)) registry v)
       (reasons_of hs)"
  unfolding dlq_reason_findings_def sort_groups reasons_of_def
  by (simp add: comp_def concat_map_if filter_map)

section \<open>The most frequent destination\<close>

lemma counter_distinct: "distinct (map fst (counter xs))"
proof -
  have "distinct (map fst c) \<Longrightarrow> distinct (map fst (fold counter_add xs c))" for c
    by (induction xs arbitrary: c) (simp_all add: counter_add_def distinct_dict_set)
  then show ?thesis by (simp add: counter_def)
qed

lemma counter_mem: "(x, n) \<in> set (counter xs) \<Longrightarrow> n = count_list xs x"
  using count_in_counter [of xs x] counter_distinct [of xs] by (simp add: count_in_def)

lemma most_common_max:
  assumes "xs \<noteq> []"
  obtains q where "most_common 1 (counter xs) = [(q, count_list xs q)]" "q \<in> set xs"
    "\<And>x. count_list xs x \<le> count_list xs q"
proof -
  let ?s = "sort_key (\<lambda>(_, k). - int k) (counter xs)"
  have ne: "counter xs \<noteq> []"
    using counter_keys [of xs "[]"] assms by (auto simp: counter_def)
  then obtain q n r where s: "?s = (q, n) # r" by (cases ?s) (auto simp flip: set_empty)
  then have mem: "(q, n) \<in> set (counter xs)" by (metis list.set_intros(1) set_sort)
  then have n: "n = count_list xs q" by (rule counter_mem)
  have mc: "most_common 1 (counter xs) = [(q, count_list xs q)]"
    by (simp add: most_common_def s n)
  have "(q, n) \<in> set (most_common 1 (counter xs))" unfolding mc n by simp
  then have "q \<in> set xs" by (rule most_common_mem)
  moreover have "count_list xs x \<le> count_list xs q" for x
  proof (cases "x \<in> set xs")
    case False
    then show ?thesis by (simp add: count_notin)
  next
    case True
    then obtain m where xm: "(x, m) \<in> set (counter xs)"
      using counter_keys [of xs "[]"] by (force simp: counter_def)
    have "sorted (map (\<lambda>(_, k). - int k) ?s)" by simp
    then have "\<forall>y \<in> set ?s. - int n \<le> (\<lambda>(_, k). - int k) y" unfolding s by auto
    with xm have "- int n \<le> - int m" by (metis (mono_tags) case_prod_conv set_sort)
    with n counter_mem [OF xm] show ?thesis by simp
  qed
  ultimately show ?thesis using that [of q] mc by blast
qed

section \<open>Properties\<close>

lemma match_dlq_read_only:
  assumes "match_dlq_findings browse registry v = Inr fs"
    and "clean_row (bw_scalars browse)" and "list_all clean_row (bw_headers browse)"
  shows "list_all read_only_finding fs"
proof -
  let ?q = "str_cell (get_d (bw_scalars browse) (lit ''queue_name'') (CStr (lit ''SYSTEM.DEAD.LETTER.QUEUE'')))"
  have q: "clean_text ?q" using assms(2) by (intro clean_intros) simp_all
  have backout: "list_all read_only_finding (dlq_backout_findings ?q counted)" for counted
    by (simp add: dlq_backout_findings_def Let_def finding_backout_loop_read_only q)
  have depth: "list_all read_only_finding (dlq_depth_findings ?q d s)" for d s
    by (simp add: dlq_depth_findings_def finding_dlq_depth_read_only q)
  have reason: "list_all read_only_finding (dlq_reason_findings ?q keyed registry v)"
    if "traverse (\<lambda>h. bind_res (f h) (\<lambda>r. Inr (r, h))) (bw_headers browse) = Inr keyed" for f keyed
  proof (rule dlq_reason_findings_read_only [OF q])
    from traverse_snd [OF that] assms(3) show "list_all (\<lambda>kv. clean_row (snd kv)) keyed"
      by (metis (mono_tags, lifting) list.pred_map comp_def list.pred_cong)
  qed
  show ?thesis
    using assms(1) backout depth reason
    by (auto simp: match_dlq_findings_def Let_def simp del: bind_res_simps split: if_splits)
qed

text \<open>Every command in the fix steps and verify commands of a dead-letter finding passes the
  MQSC gate, when the queue name and the header fields print to text without separators.\<close>
theorem dlq_commands_read_only:
  assumes "match_dlq_findings browse registry v = Inr fs"
    and "clean_row (bw_scalars browse)" and "list_all clean_row (bw_headers browse)"
  shows "list_all read_only_finding fs"
  using assms by (rule match_dlq_read_only)

lemma dlq_commands_read_only_witness:
  "\<exists>fs. match_dlq_findings
      \<lparr> bw_headers = [], bw_scalars = [(lit ''queue_depth'', CInt 12)] \<rparr> default_registry None = Inr fs \<and>
     fs \<noteq> [] \<and> list_all read_only_finding fs"
proof -
  let ?b = "\<lparr> bw_headers = [], bw_scalars = [(lit ''queue_depth'', CInt 12)] \<rparr>"
  have "\<exists>fs. match_dlq_findings ?b default_registry None = Inr fs \<and> fs \<noteq> []"
    by (simp add: match_dlq_findings_def Let_def int_field_def int_exn_def get_d_Cons cell_or_def
        dlq_depth_findings_def)
  then obtain fs where fs: "match_dlq_findings ?b default_registry None = Inr fs" "fs \<noteq> []" by blast
  have "list_all read_only_finding fs"
    using dlq_commands_read_only [OF fs(1)] by (simp add: clean_row_def)
  with fs show ?thesis by blast
qed

text \<open>C30: On what a connector browses, the matcher never raises, and its findings are: one for the
  queue depth when it is positive, one for each distinct non-zero reason code in ascending order
  over exactly the headers with that code, and one for the headers that were backed out at least
  five times, if any.\<close>
theorem dlq_findings_exact:
  "match_dlq_findings (browse_dict b) registry v =
     Inr (dlq_depth_findings (br_queue_name b) (br_queue_depth b)
            (if br_sample_size b = 0 then int (length (br_headers b)) else int (br_sample_size b)) @
          map (\<lambda>r. finding_for_reason (br_queue_name b) r
                 (map header_to_dict (filter (\<lambda>h. dh_reason_code h = r) (br_headers b))) registry v)
            (reasons_of (br_headers b)) @
          (let high = filter (\<lambda>h. dh_backout_count h \<ge> 5) (br_headers b)
           in if high = [] then [] else [finding_backout_loop (br_queue_name b) (map header_to_dict high)]))"
proof -
  let ?hs = "br_headers b" and ?q = "br_queue_name b"
  have keyed: "traverse (\<lambda>h. bind_res (int_field (lit ''reason_code'') h) (\<lambda>r. Inr (r, h))) (map header_to_dict ?hs)
      = Inr (map (\<lambda>h. (dh_reason_code h, header_to_dict h)) ?hs)"
    by (rule traverse_keyed) (rule int_field_header)
  have counted: "traverse (\<lambda>h. bind_res (int_field (lit ''backout_count'') h) (\<lambda>n. Inr (n, h))) (map header_to_dict ?hs)
      = Inr (map (\<lambda>h. (dh_backout_count h, header_to_dict h)) ?hs)"
    by (rule traverse_keyed) (rule int_field_header)
  have loops: "dlq_backout_findings ?q (map (\<lambda>h. (dh_backout_count h, header_to_dict h)) ?hs) =
      (let high = filter (\<lambda>h. dh_backout_count h \<ge> 5) ?hs
       in if high = [] then [] else [finding_backout_loop ?q (map header_to_dict high)])"
    by (simp add: dlq_backout_findings_def dlq_backout_threshold_def filter_map comp_def Let_def)
  have depth: "int_field (lit ''queue_depth'') (bw_scalars (browse_dict b)) = Inr (br_queue_depth b)"
    by (simp add: int_field_def browse_dict_def get_d_Cons int_exn_or)
  show ?thesis
    unfolding match_dlq_findings_def Let_def depth bind_res_simps
    by (simp add: browse_dict_def get_d_Cons int_exn_or keyed counted dlq_reason_findings_headers loops
        del: traverse.simps)
      (simp add: dlq_depth_findings_def reasons_of_def)
qed

text \<open>The destination that a dead-letter finding tells the operator to inspect is one to which
  no fewer of the group's messages were addressed than to any other.\<close>
theorem dlq_names_top_destination:
  assumes "grp \<noteq> []"
  shows "\<exists>dest. dest \<in> set (header_texts (lit ''dest_q_name'') grp) \<and>
    (\<forall>d. count_list (header_texts (lit ''dest_q_name'') grp) d
       \<le> count_list (header_texts (lit ''dest_q_name'') grp) dest) \<and>
    (dest \<noteq> [] \<longrightarrow> hd (fix_steps (finding_for_reason q 2053 grp registry v)) =
       lit ''DISPLAY QUEUE('' @ squote dest @ lit '') CURDEPTH MAXDEPTH'')"
proof -
  let ?xs = "header_texts (lit ''dest_q_name'') grp"
  have "?xs \<noteq> []" using assms by (simp add: header_texts_def)
  from most_common_max [OF this] obtain dest
    where d: "most_common 1 (counter ?xs) = [(dest, count_list ?xs dest)]" "dest \<in> set ?xs"
      "\<And>x. count_list ?xs x \<le> count_list ?xs dest" by metis
  have "hd (fix_steps (finding_for_reason q 2053 grp registry v)) =
      lit ''DISPLAY QUEUE('' @ squote dest @ lit '') CURDEPTH MAXDEPTH''" if "dest \<noteq> []"
    using that d(1) by (simp add: finding_for_reason_def fix_steps_for_reason_def Let_def)
  with d show ?thesis by blast
qed

lemma dlq_names_top_destination_witness:
  "\<exists>dest. dest \<in> set (header_texts (lit ''dest_q_name'')
     [[(lit ''dest_q_name'', CStr (lit ''A''))], [(lit ''dest_q_name'', CStr (lit ''B''))]])"
  using dlq_names_top_destination
    [of "[[(lit ''dest_q_name'', CStr (lit ''A''))], [(lit ''dest_q_name'', CStr (lit ''B''))]]"]
  by blast

end
