(* ===== verification/Match_Cluster.thy ===== *)
theory Match_Cluster
  imports Engine
begin

text \<open>
  \<open>rcs/matchers/cluster.py\<close>: findings on cluster health from CLUSQMGR rows and the REPOS
  attributes. Time is an argument: \<open>clock n\<close> is the \<open>n\<close>-th reading of \<open>datetime.now(UTC)\<close>
  in one run of the check, in microseconds on the scale of \<open>date.toordinal\<close>.
\<close>

section \<open>Dates\<close>

text \<open>
  \<open>datetime.strptime(s, "%Y-%m-%d")\<close>: the pattern that CPython compiles for the format must
  match the whole text, and the day must exist.
\<close>

definition date_pattern :: rx where
  "date_pattern =
     RSeq (RGrp 1 (RRep 4 (RCls is_digit))) (RSeq (RLit (lit ''-''))
       (RSeq (RGrp 2 (RAlt (RSeq (RLit (lit ''1'')) (RCls (chr_in ''012'')))
                     (RAlt (RSeq (RLit (lit ''0'')) (RCls (chr_in ''123456789''))) (RCls (chr_in ''123456789'')))))
         (RSeq (RLit (lit ''-''))
           (RGrp 3 (RAlt (RSeq (RLit (lit ''3'')) (RCls (chr_in ''01'')))
                   (RAlt (RSeq (RCls (chr_in ''12'')) (RCls is_digit))
                   (RAlt (RSeq (RLit (lit ''0'')) (RCls (chr_in ''123456789'')))
                   (RAlt (RCls (chr_in ''123456789''))
                         (RSeq (RLit (lit '' '')) (RCls (chr_in ''123456789'')))))))))))"

definition is_leap :: "int \<Rightarrow> bool" where
  "is_leap y \<longleftrightarrow> 4 dvd y \<and> (\<not> 100 dvd y \<or> 400 dvd y)"

definition days_in_month :: "int \<Rightarrow> int \<Rightarrow> int" where
  "days_in_month y m =
     (if m = 2 then (if is_leap y then 29 else 28)
      else if m = 4 \<or> m = 6 \<or> m = 9 \<or> m = 11 then 30 else 31)"

definition days_before_year :: "int \<Rightarrow> int" where
  "days_before_year y = (let p = y - 1 in p * 365 + p div 4 - p div 100 + p div 400)"

definition days_before_month :: "int \<Rightarrow> int \<Rightarrow> int" where
  "days_before_month y m = sum_list (map (days_in_month y) [1..m - 1])"

definition to_ordinal :: "int \<Rightarrow> int \<Rightarrow> int \<Rightarrow> int" where
  "to_ordinal y m d = days_before_year y + days_before_month y m + d"

definition strptime_ymd :: "pystr \<Rightarrow> int option" where
  "strptime_ymd s =
     (case re_match date_pattern s of
        None \<Rightarrow> None
      | Some (b, a, g) \<Rightarrow>
          if a \<noteq> [] then None
          else (case (Option.bind (map_of g 1) parse_int, Option.bind (map_of g 2) parse_int,
                      Option.bind (map_of g 3) parse_int) of
                  (Some y, Some m, Some d) \<Rightarrow>
                    if 1 \<le> y \<and> 1 \<le> d \<and> d \<le> days_in_month y m then Some (to_ordinal y m d) else None
                | _ \<Rightarrow> None))"

definition day_us :: int where
  "day_us = 86400000000"

definition stale_days :: int where
  "stale_days = 7"

section \<open>REPOS text\<close>

function repos_names :: "pystr \<Rightarrow> pystr list" where
  "repos_names t =
     (case find_sub (lit ''REPOS('') t of
        None \<Rightarrow> []
      | Some i \<Rightarrow>
          let r = drop (i + 6) t in
          (case find_sub (lit '')'') r of
             None \<Rightarrow> []
           | Some j \<Rightarrow>
               let cluster_name = strip (take j r)
               in (if cluster_name \<noteq> [] then [cluster_name] else []) @
                 repos_names (drop j r)))"
  by pat_completeness auto
termination
proof (relation "measure length")
  fix t :: pystr and i j :: nat and r :: pystr
  assume i: "find_sub (lit ''REPOS('') t = Some i" and r: "r = drop (i + 6) t"
  from find_sub_Some [OF i] have "i \<le> length t" "prefix (lit ''REPOS('') (drop i t)" by simp_all
  then have "length (lit ''REPOS('') \<le> length (drop i t)" by (metis prefix_length_le)
  then have "i + 6 \<le> length t" using \<open>i \<le> length t\<close> by (simp add: length_lit)
  then show "(drop j r, t) \<in> measure length" by (simp add: r)
qed simp

declare repos_names.simps [simp del]

definition self_full_repo_clusters :: "pystr \<Rightarrow> pystr list" where
  "self_full_repo_clusters repos_text = (if repos_text = [] then [] else repos_names (upper repos_text))"

section \<open>Checks\<close>

definition bad_channel_status :: "pystr list" where
  "bad_channel_status = [lit ''RETRYING'', lit ''STOPPED'', lit ''PAUSED'', lit ''INACTIVE_FAILED'']"

definition finding_no_full_repo :: "pystr \<Rightarrow> row list \<Rightarrow> kc_registry \<Rightarrow> pystr option \<Rightarrow> rcs_finding" where
  "finding_no_full_repo cluster members registry mq_version =
    \<lparr> rcs_issue = lit ''Cluster '' @ cluster @ lit '' has no visible full repository'',
       rcs_severity = CRITICAL,
       rcs_reason_code = None,
       rcs_amq_code = None,
       root_cause = lit ''No CLUSQMGR entry in cluster '' @ cluster @ lit '' reports '' @
         lit ''QMTYPE(REPOS), and this QM is not itself a full repository. New cluster '' @
         lit ''definitions cannot propagate until at least one full repository is reachable.'',
       fix_steps =
         [lit ''DISPLAY CLUSQMGR(*) WHERE(CLUSTER EQ '' @ cluster @ lit '')'',
          lit ''DISPLAY QMGR REPOS REPOSNL''],
       verify_commands =
         [lit ''DISPLAY CLUSQMGR(*) WHERE(CLUSTER EQ '' @ cluster @ lit '') QMTYPE''],
       doc_refs = lookup_topic registry (lit ''cluster_partial_repository'') mq_version,
       rcs_confidence = lit ''High'',
       evidence =
         [(lit ''cluster'', cluster),
          (lit ''members_visible'', str_nat (length members)),
          (lit ''full_repos_visible'', lit ''0'')],
       remediation_steps =
         [\<lparr> rem_scenario = lit ''This QM should be a full repository for the cluster'',
             rem_commands =
               [lit ''ALTER QMGR REPOS('' @ squote cluster @ lit '')''],
             rem_notes = lit ''A cluster must have at least 1 (ideally 2) full repositories.'' \<rparr>,
          \<lparr> rem_scenario = lit ''A different QM should be the full repo '' @ emdash @
            lit '' restart its CLUSSDR'',
             rem_commands =
               [lit ''START CHANNEL('TO.REMOTE_FULL_REPO')''],
             rem_notes = lit ''Replace channel name with the CLUSSDR pointing to the '' @
               lit ''configured full repository. Confirm with DISPLAY CHANNEL(*) CHLTYPE(CLUSSDR).'' \<rparr>] \<rparr>"

definition cluster_groups :: "row list \<Rightarrow> (pystr \<times> row list) list" where
  "cluster_groups rows =
     group_pairs (filter (\<lambda>(c, _). c \<noteq> [])
       (map (\<lambda>r. (strip (str_cell (get_d r (lit ''CLUSTER'') (CStr []))), r)) rows))"

definition is_full_repo :: "row \<Rightarrow> bool" where
  "is_full_repo m \<longleftrightarrow> upper (str_cell (get_d m (lit ''QMTYPE'') (CStr []))) = lit ''REPOS''"

definition check_full_repos ::
  "row list \<Rightarrow> pystr \<Rightarrow> kc_registry \<Rightarrow> pystr option \<Rightarrow> rcs_finding list" where
  "check_full_repos rows repos_text registry mq_version =
     (let self_full_clusters = self_full_repo_clusters repos_text in
      concat (map (\<lambda>(cluster, members).
          if cluster \<in> set self_full_clusters then []
          else if filter is_full_repo members = []
          then [finding_no_full_repo cluster members registry mq_version] else [])
        (cluster_groups rows)))"

definition finding_unhealthy_channel ::
  "pystr \<Rightarrow> pystr \<Rightarrow> pystr \<Rightarrow> pystr \<Rightarrow> kc_registry \<Rightarrow> pystr option \<Rightarrow> rcs_finding" where
  "finding_unhealthy_channel channel cluster conname status registry mq_version =
    \<lparr> rcs_issue = lit ''Cluster channel '' @ channel @ lit '' status is '' @ status,
       rcs_severity = HIGH,
       rcs_reason_code = None,
       rcs_amq_code = Some (lit ''AMQ9764''),
       root_cause = lit ''Cluster channel '' @ channel @ lit '' (cluster '' @ cluster @
         lit '') reports '' @ status @ lit ''. Cluster sender/receiver channels must remain '' @
         lit ''RUNNING for repository updates and workload distribution.'',
       fix_steps =
         [lit ''DISPLAY CHSTATUS('' @ squote channel @ lit '') ALL'',
          lit ''DISPLAY CHANNEL('' @ squote channel @ lit '') CONNAME XMITQ SSLCIPH'',
          lit ''DISPLAY LSSTATUS(*) ALL'',
          lit ''PING CHANNEL('' @ channel @ lit '')''],
       verify_commands =
         [lit ''DISPLAY CHSTATUS('' @ squote channel @ lit '') CURRENT''],
       doc_refs = lookup_amq registry (lit ''AMQ9764'') mq_version,
       rcs_confidence = lit ''High'',
       evidence =
         [(lit ''channel'', channel),
          (lit ''cluster'', cluster),
          (lit ''conname'', conname),
          (lit ''status'', status)],
       remediation_steps =
         [\<lparr> rem_scenario = lit ''Channel needs restart after network repair'',
             rem_commands =
               [lit ''STOP CHANNEL('' @ squote channel @ lit '') MODE(QUIESCE)'',
                lit ''START CHANNEL('' @ squote channel @ lit '')''],
             rem_notes = lit ''Only after confirming connectivity to the remote CONNAME.'' \<rparr>,
          \<lparr> rem_scenario = lit ''Sequence numbers desynced (last resort)'',
             rem_commands =
               [lit ''RESET CHANNEL('' @ squote channel @ lit '') SEQNUM(1)'',
                lit ''START CHANNEL('' @ squote channel @ lit '')''],
             rem_notes = warning_sign @ lit '' RESET can cause duplicate messages. Only '' @
               lit ''after coordinating with the remote QM owner.'' \<rparr>] \<rparr>"

definition unhealthy_channel :: "kc_registry \<Rightarrow> pystr option \<Rightarrow> row \<Rightarrow> rcs_finding list" where
  "unhealthy_channel registry mq_version r =
     (let status = upper (str_cell (get_d r (lit ''STATUS'') (CStr []))) in
      if status \<in> set bad_channel_status then
        [finding_unhealthy_channel
           (str_cell (cell_or (cell_or (get r (lit ''CHANNEL'')) (get r (lit ''CLUSQMGR''))) (CStr (lit ''<unknown>''))))
           (str_cell (get_d r (lit ''CLUSTER'') (CStr [])))
           (str_cell (get_d r (lit ''CONNAME'') (CStr []))) status registry mq_version]
      else [])"

definition check_unhealthy_channels :: "row list \<Rightarrow> kc_registry \<Rightarrow> pystr option \<Rightarrow> rcs_finding list" where
  "check_unhealthy_channels rows registry mq_version =
     concat (map (unhealthy_channel registry mq_version) rows)"

definition finding_stale ::
  "pystr \<Rightarrow> pystr \<Rightarrow> pystr \<Rightarrow> int \<Rightarrow> row \<Rightarrow> kc_registry \<Rightarrow> pystr option \<Rightarrow> rcs_finding" where
  "finding_stale name cluster clusdate age_days r registry mq_version =
    \<lparr> rcs_issue = lit ''Stale CLUSQMGR entry for '' @ name @ lit '' (last updated '' @
      str_int age_days @ lit '' days ago)'',
       rcs_severity = MEDIUM,
       rcs_reason_code = None,
       rcs_amq_code = Some (lit ''AMQ9456''),
       root_cause = lit ''CLUSQMGR '' @ name @ lit '' in cluster '' @ cluster @
         lit '' has not received an update from a full repository for '' @ str_int age_days @
         lit '' days (threshold: '' @ str_int stale_days @ lit ''). This usually indicates '' @
         lit ''the cluster sender channel to the full repository is broken or the remote QM '' @
         lit ''is offline.'',
       fix_steps =
         [lit ''DISPLAY CLUSQMGR('' @ squote name @ lit '') ALL'',
          lit ''DISPLAY CHSTATUS('' @ squote (str_cell (get_d r (lit ''CHANNEL'') (CStr name))) @
            lit '') ALL'',
          lit ''DISPLAY QMGR REPOS REPOSNL''],
       verify_commands =
         [lit ''DISPLAY CLUSQMGR('' @ squote name @ lit '') CLUSDATE CLUSTIME''],
       doc_refs = lookup_amq registry (lit ''AMQ9456'') mq_version,
       rcs_confidence = lit ''Medium'',
       evidence =
         [(lit ''clusqmgr'', name),
          (lit ''cluster'', cluster),
          (lit ''last_update'', clusdate),
          (lit ''age_days'', str_int age_days)],
       remediation_steps =
         [\<lparr> rem_scenario = lit ''Refresh cluster state after fixing the underlying channel'',
             rem_commands =
               [lit ''REFRESH CLUSTER('' @ squote cluster @ lit '') REPOS(YES)''],
             rem_notes = warning_sign @ lit '' REFRESH CLUSTER is intrusive and triggers a '' @
               lit ''full re-sync. Schedule in a maintenance window. REPOS(YES) re-resolves '' @
               lit ''repository data without touching application objects.'' \<rparr>] \<rparr>"

text \<open>The date of a row, when it has one that parses.\<close>

definition row_date :: "row \<Rightarrow> int option" where
  "row_date r =
     (let clusdate = strip (str_cell (get_d r (lit ''CLUSDATE'') (CStr []))) in
      if clusdate = [] then None else map_option (\<lambda>d. d * day_us) (strptime_ymd clusdate))"

text \<open>The loop over the rows; every finding reads the clock once more.\<close>

fun stale_entries ::
  "(nat \<Rightarrow> int) \<Rightarrow> nat \<Rightarrow> int \<Rightarrow> kc_registry \<Rightarrow> pystr option \<Rightarrow> row list \<Rightarrow> rcs_finding list" where
  "stale_entries clock n cutoff registry mq_version [] = []"
| "stale_entries clock n cutoff registry mq_version (r # rows) =
     (case row_date r of
        None \<Rightarrow> stale_entries clock n cutoff registry mq_version rows
      | Some parsed \<Rightarrow>
          if parsed \<ge> cutoff then stale_entries clock n cutoff registry mq_version rows
          else
            finding_stale (str_cell (get_d r (lit ''CLUSQMGR'') (CStr (lit ''<unknown>''))))
              (str_cell (get_d r (lit ''CLUSTER'') (CStr [])))
              (strip (str_cell (get_d r (lit ''CLUSDATE'') (CStr []))))
              ((clock n - parsed) div day_us) r registry mq_version
            # stale_entries clock (Suc n) cutoff registry mq_version rows)"

definition check_stale_entries ::
  "(nat \<Rightarrow> int) \<Rightarrow> row list \<Rightarrow> kc_registry \<Rightarrow> pystr option \<Rightarrow> rcs_finding list" where
  "check_stale_entries clock rows registry mq_version =
     stale_entries clock 1 (clock 0 - stale_days * day_us) registry mq_version rows"

definition finding_suspended :: "pystr \<Rightarrow> pystr \<Rightarrow> rcs_finding" where
  "finding_suspended name cluster =
    \<lparr> rcs_issue = lit ''Cluster member '' @ name @ lit '' is SUSPEND(YES) in cluster '' @
      cluster,
       rcs_severity = MEDIUM,
       rcs_reason_code = None,
       rcs_amq_code = None,
       root_cause = lit ''A suspended cluster member does not receive workload from the '' @
         lit ''cluster. This may be intentional (maintenance) or a forgotten state from a '' @
         lit ''prior incident.'',
       fix_steps =
         [lit ''DISPLAY CLUSQMGR('' @ squote name @ lit '') SUSPEND''],
       verify_commands =
         [lit ''DISPLAY CLUSQMGR('' @ squote name @ lit '') SUSPEND''],
       doc_refs = [],
       rcs_confidence = lit ''Medium'',
       evidence =
         [(lit ''clusqmgr'', name),
          (lit ''cluster'', cluster)],
       remediation_steps =
         [\<lparr> rem_scenario = lit ''Member should return to active service'',
             rem_commands =
               [lit ''RESUME QMGR CLUSTER('' @ squote cluster @ lit '')''],
             rem_notes = lit ''Run on the SUSPENDED QM. Confirm with team it's no longer in '' @
               lit ''maintenance.'' \<rparr>] \<rparr>"

definition suspended_member :: "row \<Rightarrow> rcs_finding list" where
  "suspended_member r =
     (if upper (str_cell (get_d r (lit ''SUSPEND'') (CStr []))) = lit ''YES''
      then [finding_suspended (str_cell (get_d r (lit ''CLUSQMGR'') (CStr (lit ''<unknown>''))))
              (str_cell (get_d r (lit ''CLUSTER'') (CStr [])))]
      else [])"

definition check_suspended_members :: "row list \<Rightarrow> rcs_finding list" where
  "check_suspended_members rows = concat (map suspended_member rows)"

definition finding_self_only :: "pystr \<Rightarrow> rcs_finding" where
  "finding_self_only this_qm =
    \<lparr> rcs_issue = lit ''QM '' @ this_qm @ lit '' sees itself as the only cluster member'',
       rcs_severity = HIGH,
       rcs_reason_code = None,
       rcs_amq_code = None,
       root_cause = lit ''DISPLAY CLUSQMGR returns only the local QM. Either no other '' @
         lit ''members are reachable, or the cluster sender channel to the full repository '' @
         lit ''has never started successfully.'',
       fix_steps =
         [lit ''DISPLAY CHSTATUS(*) WHERE(CHLTYPE EQ CLUSSDR)'',
          lit ''DISPLAY QMGR REPOS REPOSNL'',
          lit ''DISPLAY CLUSQMGR(*) ALL''],
       verify_commands =
         [lit ''DISPLAY CLUSQMGR(*) ALL''],
       doc_refs = [],
       rcs_confidence = lit ''Medium'',
       evidence =
         [(lit ''this_qm'', this_qm),
          (lit ''members_visible'', lit ''1'')],
       remediation_steps =
         [\<lparr> rem_scenario = lit ''Start the cluster-sender channel to the full repository'',
             rem_commands =
               [lit ''START CHANNEL('TO.FULL_REPO_QM')''],
             rem_notes = lit ''Replace channel name with your configured CLUSSDR. Confirm '' @
               lit ''CONNAME is reachable first.'' \<rparr>] \<rparr>"

definition check_self_only_membership :: "row list \<Rightarrow> pystr \<Rightarrow> rcs_finding list" where
  "check_self_only_membership rows this_qm =
     (if this_qm = [] \<or> rows = [] then []
      else if filter (\<lambda>r. str_cell (get_d r (lit ''CLUSQMGR'') (CStr [])) \<noteq> this_qm) rows \<noteq> [] then []
      else [finding_self_only this_qm])"

section \<open>The matcher\<close>

record cluster_raw =
  cl_clusqmgrs :: "row list"
  cl_repos :: pystr
  cl_this_qm :: pystr

definition match_cluster_findings ::
  "(nat \<Rightarrow> int) \<Rightarrow> cluster_raw \<Rightarrow> kc_registry \<Rightarrow> pystr option \<Rightarrow> rcs_finding list" where
  "match_cluster_findings clock raw registry mq_version =
     (let rows = cl_clusqmgrs raw; repos_text = cl_repos raw; this_qm = cl_this_qm raw in
      if rows = [] \<and> repos_text = [] then []
      else check_full_repos rows repos_text registry mq_version @
           check_unhealthy_channels rows registry mq_version @
           check_stale_entries clock rows registry mq_version @
           check_suspended_members rows @
           check_self_only_membership rows this_qm)"

section \<open>The commands are read-only\<close>

lemma finding_no_full_repo_read_only:
  "clean_text cluster \<Longrightarrow> read_only_finding (finding_no_full_repo cluster members registry v)"
  by (simp add: finding_no_full_repo_def command_simps)

lemma finding_unhealthy_read_only:
  "clean_text channel \<Longrightarrow> read_only_finding (finding_unhealthy_channel channel cluster conname status registry v)"
  by (simp add: finding_unhealthy_channel_def command_simps)

lemma finding_stale_read_only:
  "clean_text name \<Longrightarrow> clean_row r \<Longrightarrow>
     read_only_finding (finding_stale name cluster clusdate age r registry v)"
  by (simp add: finding_stale_def command_simps clean_get_d)

lemma finding_suspended_read_only: "clean_text name \<Longrightarrow> read_only_finding (finding_suspended name cluster)"
  by (simp add: finding_suspended_def command_simps)

lemma finding_self_only_read_only: "read_only_finding (finding_self_only this_qm)"
  by (simp add: finding_self_only_def command_simps)

lemma check_full_repos_read_only:
  assumes "list_all clean_row rows"
  shows "list_all read_only_finding (check_full_repos rows repos registry v)"
proof -
  have "clean_text cluster" if "(cluster, members) \<in> set (cluster_groups rows)" for cluster members
    using that assms
    by (auto simp: cluster_groups_def group_pairs_mem list_all_iff intro!: clean_intros)
  then show ?thesis
    by (auto simp: check_full_repos_def Let_def list_all_iff finding_no_full_repo_read_only split: if_splits)
qed

lemma stale_entries_read_only:
  "list_all clean_row rows \<Longrightarrow> list_all read_only_finding (stale_entries clock n cutoff registry v rows)"
  by (induction clock n cutoff registry v rows rule: stale_entries.induct)
    (auto intro!: finding_stale_read_only clean_intros split: option.split)

section \<open>Properties\<close>

lemma match_cluster_read_only:
  assumes "list_all clean_row (cl_clusqmgrs raw)"
  shows "list_all read_only_finding (match_cluster_findings clock raw registry v)"
proof -
  let ?rows = "cl_clusqmgrs raw"
  have "list_all read_only_finding (check_unhealthy_channels ?rows registry v)"
    using assms
    by (auto simp: check_unhealthy_channels_def unhealthy_channel_def Let_def list_all_iff
        intro!: finding_unhealthy_read_only clean_intros)
  moreover have "list_all read_only_finding (check_suspended_members ?rows)"
    using assms
    by (auto simp: check_suspended_members_def suspended_member_def list_all_iff
        intro!: finding_suspended_read_only clean_intros)
  ultimately show ?thesis
    using assms check_full_repos_read_only stale_entries_read_only
    by (simp add: match_cluster_findings_def check_stale_entries_def check_self_only_membership_def
        finding_self_only_read_only Let_def)
qed

text \<open>Every command in the fix steps and verify commands of a cluster finding passes the
  MQSC gate, when the rows print to text without separators.\<close>
theorem cluster_commands_read_only:
  assumes "list_all clean_row (cl_clusqmgrs raw)"
  shows "list_all read_only_finding (match_cluster_findings clock raw registry v)"
  using assms by (rule match_cluster_read_only)

lemma cluster_commands_read_only_witness:
  "list_all read_only_finding
     (match_cluster_findings (\<lambda>_. 0)
        \<lparr> cl_clusqmgrs = [[(lit ''CLUSTER'', CStr (lit ''DEV'')), (lit ''STATUS'', CStr (lit ''RETRYING''))]],
          cl_repos = [], cl_this_qm = lit ''QM1'' \<rparr> default_registry None)"
  by (rule cluster_commands_read_only) (simp add: clean_row_def)


text \<open>The stale-entry check reports exactly the rows, in order, whose CLUSDATE is a valid date
  more than seven days before the check started, and the age it prints is never below seven days,
  provided the clock does not run backwards.\<close>
theorem stale_check_exact:
  assumes "\<And>i. clock 0 \<le> clock i"
  shows "map (\<lambda>f. map_of (evidence f) (lit ''last_update'')) (check_stale_entries clock rows registry v) =
      map (\<lambda>r. Some (strip (str_cell (get_d r (lit ''CLUSDATE'') (CStr [])))))
        (filter (\<lambda>r. case row_date r of None \<Rightarrow> False | Some t \<Rightarrow> t < clock 0 - 7 * day_us) rows) \<and>
    list_all (\<lambda>f. \<exists>n \<ge> 7. map_of (evidence f) (lit ''age_days'') = Some (str_int n))
      (check_stale_entries clock rows registry v)"
proof -
  let ?cut = "clock 0 - 7 * day_us"
  have fields: "map_of (evidence (finding_stale name cluster date age r registry v)) (lit ''last_update'') = Some date"
    "map_of (evidence (finding_stale name cluster date age r registry v)) (lit ''age_days'') = Some (str_int age)"
    for name cluster date age r
    by (simp_all add: finding_stale_def)
  have age: "7 \<le> (clock n - t) div day_us" if "t < ?cut" for n t
  proof -
    have "7 * day_us \<le> clock n - t" using that assms [of n] by linarith
    then have "(7 * day_us) div day_us \<le> (clock n - t) div day_us"
      by (rule zdiv_mono1) (simp add: day_us_def)
    then show ?thesis by (simp add: day_us_def)
  qed
  have "map (\<lambda>f. map_of (evidence f) (lit ''last_update'')) (stale_entries clock n ?cut registry v rows) =
      map (\<lambda>r. Some (strip (str_cell (get_d r (lit ''CLUSDATE'') (CStr [])))))
        (filter (\<lambda>r. case row_date r of None \<Rightarrow> False | Some t \<Rightarrow> t < ?cut) rows) \<and>
    list_all (\<lambda>f. \<exists>n \<ge> 7. map_of (evidence f) (lit ''age_days'') = Some (str_int n))
      (stale_entries clock n ?cut registry v rows)" for n
  proof (induction rows arbitrary: n)
    case Nil
    then show ?case by simp
  next
    case (Cons r rows)
    show ?case
    proof (cases "row_date r")
      case None
      with Cons.IH [of n] show ?thesis by simp
    next
      case (Some t)
      show ?thesis
      proof (cases "t < ?cut")
        case False
        with Some Cons.IH [of n] show ?thesis by simp
      next
        case True
        with Some Cons.IH [of "Suc n"] age [OF True, of n] show ?thesis by (auto simp: fields)
      qed
    qed
  qed
  then show ?thesis by (simp add: check_stale_entries_def stale_days_def)
qed

lemma stale_check_exact_witness:
  "list_all (\<lambda>f. \<exists>n \<ge> 7. map_of (evidence f) (lit ''age_days'') = Some (str_int n))
     (check_stale_entries (\<lambda>i. 800000 * day_us + int i) [[(lit ''CLUSDATE'', CStr (lit ''2024-02-29''))]]
        default_registry None)"
  by (rule conjunct2 [OF stale_check_exact]) simp

lemma RRep_4: "RRep 4 r = RSeq r (RSeq r (RSeq r (RSeq r REps)))"
  by (simp add: numeral_eq_Suc)

lemma strptime_examples:
  "strptime_ymd (lit ''2024-02-29'') = Some 738945"
  "strptime_ymd (lit ''2023-02-29'') = None"
  "strptime_ymd (lit ''2024-2-9x'') = None"
  by (simp_all add: strptime_ymd_def date_pattern_def rx_eval parse_int_def strip_def lstrip_def rstrip_def
      to_ordinal_def days_before_year_def days_before_month_def days_in_month_def is_leap_def upto.simps
      RRep_4 del: rx_star_fuel RRep.simps)

text \<open>
  The REPOS text is upper-cased before its names are taken, the row's cluster name is not: a
  full repository of a cluster with a mixed-case name is reported as having none.
\<close>

lemma mixed_case_cluster_reported:
  "check_full_repos [[(lit ''CLUSTER'', CStr (lit ''DevClus''))]] (lit ''REPOS(DevClus)'') registry v \<noteq> []"
proof -
  have "self_full_repo_clusters (lit ''REPOS(DevClus)'') = [lit ''DEVCLUS'']"
    by (simp add: self_full_repo_clusters_def lit_def upper_cp_def is_lower_letter_def repos_names.simps
        find_sub.simps strip_def lstrip_def rstrip_def is_space_def)
  moreover have "strip (lit ''DevClus'') = lit ''DevClus''"
    by (simp add: lit_def strip_def lstrip_def rstrip_def is_space_def)
  ultimately show ?thesis
    by (simp add: check_full_repos_def cluster_groups_def group_pairs_def dict_append_def get_d_Cons
        is_full_repo_def)
qed

end
