(* ===== verification/Match_NativeHA.thy ===== *)
theory Match_NativeHA
  imports Engine
begin

text \<open>
  \<open>rcs/matchers/native_ha.py\<close>: quorum, active instance, replica state, log replay lag and
  cross-region replication lag of a Native HA group. The CRR dictionary is a row, empty when
  it is absent. The quorum conversion is the one unguarded \<open>int\<close>, so the matcher can raise.
\<close>

section \<open>Thresholds\<close>

definition lag_pct_medium :: int where "lag_pct_medium = 95"
definition lag_pct_high :: int where "lag_pct_high = 80"
definition lag_bytes_high :: int where "lag_bytes_high = 10000000"
definition crr_lag_high :: int where "crr_lag_high = 60"
definition crr_lag_critical :: int where "crr_lag_critical = 300"

definition required_quorum :: "nat \<Rightarrow> nat" where
  "required_quorum n = n div 2 + 1"

text \<open>\<open>str(d.get(k, "")).upper()\<close>.\<close>

definition upper_field :: "row \<Rightarrow> pystr \<Rightarrow> pystr" where
  "upper_field r k = upper (str_cell (get_d r k (CStr [])))"

definition is_active :: "row \<Rightarrow> bool" where
  "is_active i \<longleftrightarrow> upper_field i (lit ''ROLE'') = lit ''ACTIVE''"

definition is_in_sync :: "row \<Rightarrow> bool" where
  "is_in_sync i \<longleftrightarrow> upper_field i (lit ''INSYNC'') = lit ''YES''"

record native_ha_raw =
  nh_instances :: "row list"
  nh_quorum_required :: cell
  nh_crr :: row

section \<open>Checks\<close>

definition finding_quorum :: "row list \<Rightarrow> row list \<Rightarrow> int \<Rightarrow> kc_registry \<Rightarrow> pystr option \<Rightarrow> rcs_finding" where
  "finding_quorum in_sync instances required registry mq_version =
    \<lparr> rcs_issue = lit ''Native HA quorum at risk: '' @ (str_nat (length in_sync)) @
      lit ''/'' @ (str_nat (length instances)) @ lit '' replicas in sync (need '' @
      str_int required @ lit '')'',
       rcs_severity = CRITICAL,
       rcs_reason_code = None,
       rcs_amq_code = None,
       root_cause = lit ''Fewer in-sync replicas than the required quorum. The active '' @
         lit ''instance can continue to serve while a single peer remains, but a further '' @
         lit ''loss will halt the QM. Investigate replica connectivity, log device health, '' @
         lit ''and pod scheduling.'',
       fix_steps =
         [lit ''DISPLAY NATIVEHASTATUS'',
          lit ''DISPLAY QMSTATUS''],
       verify_commands =
         [lit ''DISPLAY NATIVEHASTATUS''],
       doc_refs = lookup_topic registry (lit ''native_ha_quorum_lost'') mq_version,
       rcs_confidence = lit ''High'',
       evidence =
         [(lit ''in_sync'', str_nat (length in_sync)),
          (lit ''total'', str_nat (length instances)),
          (lit ''required'', str_int required)],
       remediation_steps =
         [\<lparr> rem_scenario = lit ''Restart unhealthy replica pods in Kubernetes'',
             rem_commands =
               [lit ''kubectl -n mq rollout restart statefulset/QM_NAME''],
             rem_notes = lit ''Replace 'mq' namespace and statefulset name with yours. '' @
               lit ''Watch INSYNC=YES return for each replica.'' \<rparr>,
          \<lparr> rem_scenario = lit ''Verify PVC + storage class health'',
             rem_commands =
               [lit ''kubectl -n mq get pvc'',
                lit ''kubectl -n mq describe pvc data-QM_NAME-1''],
             rem_notes = lit ''Common quorum-loss cause: a replica's PVC stuck in Pending.'' \<rparr>] \<rparr>"

definition check_quorum ::
  "row list \<Rightarrow> native_ha_raw \<Rightarrow> kc_registry \<Rightarrow> pystr option \<Rightarrow> exn + rcs_finding list" where
  "check_quorum instances raw registry mq_version =
     (if instances = [] then Inr []
      else
        let in_sync = filter is_in_sync instances in
        (case int_cell (cell_or (nh_quorum_required raw) (CInt (int (required_quorum (length instances))))) of
           None \<Rightarrow> Inl (ValueError (lit ''invalid literal for int() with base 10''))
         | Some required \<Rightarrow>
             if int (length in_sync) \<ge> required then Inr []
             else Inr [finding_quorum in_sync instances required registry mq_version]))"

definition finding_no_active :: "row list \<Rightarrow> kc_registry \<Rightarrow> pystr option \<Rightarrow> rcs_finding" where
  "finding_no_active instances registry mq_version =
    \<lparr> rcs_issue = lit ''Native HA group has no ACTIVE instance'',
       rcs_severity = CRITICAL,
       rcs_reason_code = None,
       rcs_amq_code = None,
       root_cause = lit ''No instance reports ROLE(ACTIVE). The QM is offline to '' @
         lit ''applications until an instance is elected active. This usually follows a '' @
         lit ''quorum loss or a coordinated restart.'',
       fix_steps =
         [lit ''DISPLAY NATIVEHASTATUS'',
          lit ''DISPLAY QMSTATUS''],
       verify_commands =
         [lit ''DISPLAY NATIVEHASTATUS''],
       doc_refs = lookup_topic registry (lit ''native_ha_quorum_lost'') mq_version,
       rcs_confidence = lit ''High'',
       evidence =
         [(lit ''actives'', lit ''0''),
          (lit ''total'', str_nat (length instances))],
       remediation_steps =
         [\<lparr> rem_scenario = lit ''Election will run automatically once quorum returns'',
             rem_commands =
               [lit ''kubectl -n mq get pods -l app.kubernetes.io/name=ibm-mq'',
                lit ''kubectl -n mq logs QM_NAME-0 | tail -100''],
             rem_notes = lit ''Bring replicas back online (PVC, node, network). MQ elects '' @
               lit ''ACTIVE within seconds of quorum returning.'' \<rparr>] \<rparr>"

definition finding_split_brain :: "row list \<Rightarrow> kc_registry \<Rightarrow> pystr option \<Rightarrow> rcs_finding" where
  "finding_split_brain actives registry mq_version =
    \<lparr> rcs_issue = lit ''Native HA reports '' @ (str_nat (length actives)) @
      lit '' ACTIVE instances (split-brain)'',
       rcs_severity = CRITICAL,
       rcs_reason_code = None,
       rcs_amq_code = None,
       root_cause = lit ''Two or more replicas claim the ACTIVE role simultaneously. This '' @
         lit ''indicates a split-brain or stale election state. Stop client traffic and '' @
         lit ''engage IBM support before manual intervention.'',
       fix_steps =
         [lit ''DISPLAY NATIVEHASTATUS''],
       verify_commands =
         [lit ''DISPLAY NATIVEHASTATUS''],
       doc_refs = lookup_topic registry (lit ''native_ha_quorum_lost'') mq_version,
       rcs_confidence = lit ''High'',
       evidence =
         [(lit ''actives'', str_nat (length actives))],
       remediation_steps =
         [\<lparr> rem_scenario = lit ''STOP client traffic, then engage IBM support'',
             rem_commands =
               [lit ''# 1. Update upstream load balancer to drain traffic.'',
                lit ''# 2. Open IBM support case '' @ emdash @ lit '' Native HA split-brain.'',
                lit ''# 3. Do NOT manually elect '' @ emdash @ lit '' risk of data loss.''],
             rem_notes = warning_sign @ lit '' This is rare and dangerous. Two ACTIVE '' @
               lit ''replicas means the quorum logic failed, possibly due to a network '' @
               lit ''partition during a leader transition. Manual override risks '' @
               lit ''unrecoverable data loss.'' \<rparr>] \<rparr>"

definition check_active_instance :: "row list \<Rightarrow> kc_registry \<Rightarrow> pystr option \<Rightarrow> rcs_finding list" where
  "check_active_instance instances registry mq_version =
     (let actives = filter is_active instances in
      if length actives = 1 then []
      else if length actives = 0 then [finding_no_active instances registry mq_version]
      else [finding_split_brain actives registry mq_version])"

definition finding_replica ::
  "pystr \<Rightarrow> pystr \<Rightarrow> pystr \<Rightarrow> pystr \<Rightarrow> kc_registry \<Rightarrow> pystr option \<Rightarrow> rcs_finding" where
  "finding_replica name role status in_sync registry mq_version =
    \<lparr> rcs_issue = lit ''Native HA replica '' @ name @ lit '' status='' @
      (por status (lit ''UNKNOWN'')) @ lit '' insync='' @ (por in_sync (lit ''UNKNOWN'')),
       rcs_severity = HIGH,
       rcs_reason_code = None,
       rcs_amq_code = Some (lit ''AMQ3209''),
       root_cause = lit ''Replica is not actively replicating. Common causes: pod scheduled '' @
         lit ''on tainted node, persistent volume unavailable, network partition between '' @
         lit ''replicas, or the replica process not yet caught up after restart.'',
       fix_steps =
         [lit ''DISPLAY NATIVEHASTATUS'',
          lit ''DISPLAY QMSTATUS''],
       verify_commands =
         [lit ''DISPLAY NATIVEHASTATUS''],
       doc_refs = lookup_amq registry (lit ''AMQ3209'') mq_version,
       rcs_confidence = lit ''High'',
       evidence =
         [(lit ''instance'', name),
          (lit ''role'', por role (lit ''UNKNOWN'')),
          (lit ''status'', por status (lit ''UNKNOWN'')),
          (lit ''insync'', por in_sync (lit ''UNKNOWN''))],
       remediation_steps =
         [\<lparr> rem_scenario = lit ''Restart the unhealthy replica pod'',
             rem_commands =
               [lit ''kubectl -n mq delete pod '' @ name],
             rem_notes = lit ''StatefulSet recreates it; INSYNC=YES returns once log replay '' @
               lit ''completes.'' \<rparr>,
          \<lparr> rem_scenario = lit ''Inspect the replica's log for replication errors'',
             rem_commands =
               [lit ''kubectl -n mq logs '' @ name @ lit '' --tail=200 | grep -E 'AMQ32|AMQ30'' @
                 [39]],
             rem_notes = lit ''Look for AMQ3209/AMQ3035 series '' @ emdash @
               lit '' those name the underlying cause.'' \<rparr>] \<rparr>"

definition replica_findings :: "kc_registry \<Rightarrow> pystr option \<Rightarrow> row \<Rightarrow> rcs_finding list" where
  "replica_findings registry mq_version inst =
     (let role = upper_field inst (lit ''ROLE'') in
      if role = lit ''ACTIVE'' then []
      else
        let name = str_cell (get_d inst (lit ''INSTANCE'') (CStr (lit ''<unknown>'')));
            status = upper_field inst (lit ''STATUS'');
            in_sync = upper_field inst (lit ''INSYNC'')
        in if status \<notin> set [lit ''RUNNING'', lit ''REPLICA''] \<or> in_sync = lit ''NO''
           then [finding_replica name role status in_sync registry mq_version] else [])"

definition check_replicas :: "row list \<Rightarrow> kc_registry \<Rightarrow> pystr option \<Rightarrow> rcs_finding list" where
  "check_replicas instances registry mq_version = concat (map (replica_findings registry mq_version) instances)"

definition finding_replay_lag ::
  "pystr \<Rightarrow> int \<Rightarrow> int \<Rightarrow> severity \<Rightarrow> pystr \<Rightarrow> kc_registry \<Rightarrow> pystr option \<Rightarrow> rcs_finding" where
  "finding_replay_lag name pct backlog severity reason registry mq_version =
    \<lparr> rcs_issue = lit ''Native HA replica '' @ name @ lit '' log replay lag ('' @
      str_int pct @ lit ''%)'',
       rcs_severity = severity,
       rcs_reason_code = None,
       rcs_amq_code = None,
       root_cause = reason,
       fix_steps =
         [lit ''DISPLAY NATIVEHASTATUS'',
          lit ''DISPLAY QMSTATUS''],
       verify_commands =
         [lit ''DISPLAY NATIVEHASTATUS''],
       doc_refs = lookup_topic registry (lit ''native_ha_log_replication'') mq_version,
       rcs_confidence = lit ''High'',
       evidence =
         [(lit ''instance'', name),
          (lit ''replay_pct'', str_int pct),
          (lit ''backlog_bytes'', str_int backlog)],
       remediation_steps =
         [\<lparr> rem_scenario = lit ''Increase IOPS on the lagging replica's storage'',
             rem_commands =
               [lit ''kubectl -n mq describe pod '' @ name @ lit '' | grep -A5 'Volumes:'' @ [39],
                lit ''# Then resize PVC (StorageClass must support it):'',
                lit ''kubectl -n mq patch pvc data-QM_NAME-1 -p '' @ [92] @ newline @
                  lit ''  '{'' @ dquote @ lit ''spec'' @ dquote @ lit '':{'' @ dquote @
                  lit ''resources'' @ dquote @ lit '':{'' @ dquote @ lit ''requests'' @ dquote @
                  lit '':{'' @ dquote @ lit ''storage'' @ dquote @ lit '':'' @ dquote @
                  lit ''200Gi'' @ dquote @ lit ''}}}}'' @ [39]],
             rem_notes = lit ''Persistent lag with low backlog often means IOPS-bound. '' @
               lit ''Resize the PVC or migrate to a faster StorageClass.'' \<rparr>] \<rparr>"

definition replay_lag :: "kc_registry \<Rightarrow> pystr option \<Rightarrow> row \<Rightarrow> rcs_finding list" where
  "replay_lag registry mq_version inst =
     (if is_active inst then []
      else
        let name = str_cell (get_d inst (lit ''INSTANCE'') (CStr (lit ''<unknown>'')));
            pct = int_or (get_d inst (lit ''REPLAYPCT'') (CInt 100)) 100;
            backlog = int_or (get_d inst (lit ''BACKLOG'') (CInt 0)) 0
        in if pct < lag_pct_high \<or> backlog > lag_bytes_high then
             [finding_replay_lag name pct backlog HIGH
                (lit ''Replica '' @ name @ lit '' is far behind the active log ('' @
                  str_int pct @ lit ''% replay, '' @ str_int backlog @
                  lit '' bytes backlog). At this rate the replica may not catch up under '' @
                  lit ''sustained load.'')
                registry mq_version]
           else if pct < lag_pct_medium then
             [finding_replay_lag name pct backlog MEDIUM
                (lit ''Replica '' @ name @ lit '' replay is at '' @ str_int pct @
                  lit ''%. Watch for trend; if replay percentage continues to drop, '' @
                  lit ''escalate to HIGH.'')
                registry mq_version]
           else [])"

definition check_log_replay_lag :: "row list \<Rightarrow> kc_registry \<Rightarrow> pystr option \<Rightarrow> rcs_finding list" where
  "check_log_replay_lag instances registry mq_version = concat (map (replay_lag registry mq_version) instances)"

definition finding_crr_lag ::
  "int \<Rightarrow> severity \<Rightarrow> pystr \<Rightarrow> pystr \<Rightarrow> kc_registry \<Rightarrow> pystr option \<Rightarrow> rcs_finding" where
  "finding_crr_lag lag severity rg role registry mq_version =
    \<lparr> rcs_issue = lit ''Cross-region replication lag is '' @ str_int lag @
      lit ''s (group '' @ (por rg (lit ''UNKNOWN'')) @ lit '')'',
       rcs_severity = severity,
       rcs_reason_code = None,
       rcs_amq_code = None,
       root_cause = lit ''CRR async replication to recovery group '' @
         (por rg (lit ''<unknown>'')) @ lit '' is '' @ str_int lag @ lit '' seconds behind. '' @
         lit ''RPO degrades linearly with lag; investigate inter-region network and replica '' @
         lit ''health.'',
       fix_steps =
         [lit ''DISPLAY QMSTATUS RECOVERYGROUP'',
          lit ''DISPLAY NATIVEHASTATUS''],
       verify_commands =
         [lit ''DISPLAY QMSTATUS RECOVERYGROUP''],
       doc_refs = lookup_topic registry (lit ''native_ha_crr'') mq_version,
       rcs_confidence = lit ''High'',
       evidence =
         [(lit ''lag_seconds'', str_int lag),
          (lit ''recovery_group'', rg),
          (lit ''role'', role)],
       remediation_steps =
         [\<lparr> rem_scenario = lit ''Investigate inter-region network bandwidth/latency'',
             rem_commands =
               [lit ''# From the LIVE region, to the RECOVERY region's CRR endpoint:'',
                lit ''iperf3 -c recovery.region.example -t 30'',
                lit ''ping -c 100 recovery.region.example''],
             rem_notes = lit ''CRR throughput tracks available bandwidth. RTT > 50ms with '' @
               lit ''sustained write load is a common cause of growing lag.'' \<rparr>,
          \<lparr> rem_scenario = lit ''Verify recovery-group QMs are healthy'',
             rem_commands =
               [lit ''# In the RECOVERY region:'',
                lit ''DISPLAY QMSTATUS'',
                lit ''DISPLAY NATIVEHASTATUS''],
             rem_notes = lit ''If the recovery side has its own replica issue, CRR lag will '' @
               lit ''grow regardless of network.'' \<rparr>] \<rparr>"

definition check_crr_lag :: "native_ha_raw \<Rightarrow> kc_registry \<Rightarrow> pystr option \<Rightarrow> rcs_finding list" where
  "check_crr_lag raw registry mq_version =
     (let crr = nh_crr raw in
      if crr = [] \<or> \<not> truthy (get crr (lit ''enabled'')) then []
      else
        let lag = int_or (get_d crr (lit ''lag_seconds'') (CInt 0)) 0 in
        if lag < crr_lag_high then []
        else
          [finding_crr_lag lag (if lag \<ge> crr_lag_critical then CRITICAL else HIGH)
             (str_cell (get_d crr (lit ''recovery_group'') (CStr [])))
             (str_cell (get_d crr (lit ''role'') (CStr []))) registry mq_version])"

section \<open>The matcher\<close>

definition match_native_ha_findings ::
  "native_ha_raw \<Rightarrow> kc_registry \<Rightarrow> pystr option \<Rightarrow> exn + rcs_finding list" where
  "match_native_ha_findings raw registry mq_version =
     (let instances = nh_instances raw in
      if instances = [] \<and> nh_crr raw = [] then Inr []
      else bind_res (check_quorum instances raw registry mq_version) (\<lambda>quorum.
           Inr (quorum @
                check_active_instance instances registry mq_version @
                check_replicas instances registry mq_version @
                check_log_replay_lag instances registry mq_version @
                check_crr_lag raw registry mq_version)))"

section \<open>Properties\<close>

lemma native_ha_read_only:
  "read_only_finding (finding_quorum in_sync instances required registry v)"
  "read_only_finding (finding_no_active instances registry v)"
  "read_only_finding (finding_split_brain actives registry v)"
  "read_only_finding (finding_replica nm role status sync registry v)"
  "read_only_finding (finding_replay_lag nm pct backlog sev reason registry v)"
  "read_only_finding (finding_crr_lag lag sev rg role registry v)"
  by (simp_all add: finding_quorum_def finding_no_active_def finding_split_brain_def finding_replica_def
      finding_replay_lag_def finding_crr_lag_def command_simps)

lemma native_ha_severity [find_simps]:
  "rcs_severity (finding_quorum in_sync instances required registry v) = CRITICAL"
  "rcs_severity (finding_no_active instances registry v) = CRITICAL"
  "rcs_severity (finding_split_brain actives registry v) = CRITICAL"
  "rcs_severity (finding_replica nm role status sync registry v) = HIGH"
  "rcs_severity (finding_replay_lag nm pct backlog sev reason registry v) = sev"
  "rcs_severity (finding_crr_lag lag sev rg role registry v) = sev"
  by (simp_all add: finding_quorum_def finding_no_active_def finding_split_brain_def finding_replica_def
      finding_replay_lag_def finding_crr_lag_def)

lemma match_native_ha_read_only:
  assumes "match_native_ha_findings raw registry v = Inr fs"
  shows "list_all read_only_finding fs"
proof -
  have "list_all read_only_finding q" if "check_quorum instances raw registry v = Inr q" for instances q
    using that by (auto simp: check_quorum_def Let_def native_ha_read_only split: if_splits option.splits)
  moreover have "list_all read_only_finding (check_active_instance i registry v)"
    "list_all read_only_finding (check_replicas i registry v)"
    "list_all read_only_finding (check_log_replay_lag i registry v)"
    "list_all read_only_finding (check_crr_lag raw registry v)" for i
    by (auto simp: check_active_instance_def check_replicas_def replica_findings_def check_log_replay_lag_def
        replay_lag_def check_crr_lag_def Let_def list_all_iff native_ha_read_only)
  ultimately show ?thesis
    using assms by (auto simp: match_native_ha_findings_def Let_def split: if_splits)
qed

text \<open>Every command of a Native HA finding passes the MQSC gate, whatever the rows contain:
  none of them splices a value of the queue manager into a command.\<close>
theorem native_ha_commands_read_only:
  assumes "match_native_ha_findings raw registry v = Inr fs"
  shows "list_all read_only_finding fs"
  using assms by (rule match_native_ha_read_only)

lemma native_ha_commands_read_only_witness:
  "\<exists>fs. match_native_ha_findings
      \<lparr> nh_instances = [[(lit ''INSTANCE'', CStr (lit ''QM-0; ALTER QMGR''))]], nh_quorum_required = CNone, nh_crr = [] \<rparr>
      default_registry None = Inr fs \<and> list_all read_only_finding fs"
proof -
  let ?raw = "\<lparr> nh_instances = [[(lit ''INSTANCE'', CStr (lit ''QM-0; ALTER QMGR''))]], nh_quorum_required = CNone, nh_crr = [] \<rparr>"
  have "\<exists>fs. match_native_ha_findings ?raw default_registry None = Inr fs"
    by (simp add: match_native_ha_findings_def check_quorum_def cell_or_def Let_def)
  with native_ha_commands_read_only show ?thesis by blast
qed

text \<open>The quorum check is a strict majority test: with the quorum left to the default or set
  as the tool sets it, a group is reported, as CRITICAL, exactly when at most half of its instances
  are in sync, and the check does not raise.\<close>
theorem quorum_is_majority:
  assumes "instances \<noteq> []"
    and "nh_quorum_required raw \<in> {CNone, CInt 0, CInt (int (required_quorum (length instances)))}"
  shows "\<exists>fs. check_quorum instances raw registry v = Inr fs \<and>
    (if 2 * length (filter is_in_sync instances) \<le> length instances
     then map rcs_severity fs = [CRITICAL] else fs = [])"
proof -
  let ?n = "length instances" and ?k = "length (filter is_in_sync instances)"
  have req: "int_cell (cell_or (nh_quorum_required raw) (CInt (int (required_quorum ?n)))) =
      Some (int (required_quorum ?n))"
    using assms(2) by (auto simp: cell_or_def)
  have "int ?k \<ge> int (required_quorum ?n) \<longleftrightarrow> \<not> 2 * ?k \<le> ?n"
    by (simp add: required_quorum_def) linarith
  with req assms(1) show ?thesis
    by (simp add: check_quorum_def Let_def find_simps)
qed

lemma quorum_is_majority_witness:
  "\<exists>fs. check_quorum [[(lit ''INSYNC'', CStr (lit ''no''))]]
      \<lparr> nh_instances = [], nh_quorum_required = CInt 0, nh_crr = [] \<rparr> default_registry None = Inr fs"
  using quorum_is_majority [of "[[(lit ''INSYNC'', CStr (lit ''no''))]]"
      "\<lparr> nh_instances = [], nh_quorum_required = CInt 0, nh_crr = [] \<rparr>" default_registry None]
  by auto

text \<open>Replication lag is graded by its thresholds: a replica below 80 percent replay or with
  more than ten million bytes of backlog is HIGH, below 95 percent MEDIUM, the active instance never;
  cross-region lag is HIGH from 60 and CRITICAL from 300 seconds on, and only when it is enabled.\<close>
theorem lag_thresholds:
  "map rcs_severity (replay_lag registry v inst) =
     (let pct = int_or (get_d inst (lit ''REPLAYPCT'') (CInt 100)) 100;
          backlog = int_or (get_d inst (lit ''BACKLOG'') (CInt 0)) 0
      in if is_active inst then []
         else if pct < 80 \<or> backlog > 10000000 then [HIGH]
         else if pct < 95 then [MEDIUM] else []) \<and>
   map rcs_severity (check_crr_lag raw registry v) =
     (let lag = int_or (get_d (nh_crr raw) (lit ''lag_seconds'') (CInt 0)) 0
      in if \<not> truthy (get (nh_crr raw) (lit ''enabled'')) then []
         else if lag \<ge> 300 then [CRITICAL] else if lag \<ge> 60 then [HIGH] else [])"
  by (simp add: replay_lag_def check_crr_lag_def find_simps Let_def lag_pct_high_def lag_pct_medium_def
      lag_bytes_high_def crr_lag_high_def crr_lag_critical_def get_def)

text \<open>
  The matcher's description says that no instances give no findings; with CRR data present,
  an empty instance list is reported as a group without an active instance.
\<close>

lemma empty_instances_reported:
  "check_active_instance [] registry v = [finding_no_active [] registry v]"
  by (simp add: check_active_instance_def)

end
