(* ===== verification/Match_Rdqm.thy ===== *)
theory Match_Rdqm
  imports Engine
begin

text \<open>
  \<open>rcs/matchers/rdqm.py\<close>: Pacemaker quorum and failed resources, DRBD split-brain,
  connection and disk states, and the running node of a replicated data queue manager. The
  Pacemaker dictionary is a record, \<open>None\<close> when it is empty; the other dictionaries are rows.
\<close>

definition bad_drbd_conn :: "pystr list" where
  "bad_drbd_conn =
     [lit ''WFConnection'', lit ''StandAlone'', lit ''Disconnecting'', lit ''Unconnected'', lit ''Timeout'']"

definition degraded_drbd_conn :: "pystr list" where
  "degraded_drbd_conn =
     [lit ''SyncTarget'', lit ''SyncSource'', lit ''VerifyS'', lit ''VerifyT'', lit ''PausedSyncT'', lit ''PausedSyncS'']"

definition bad_drbd_disk :: "pystr list" where
  "bad_drbd_disk = [lit ''Inconsistent'', lit ''Outdated'', lit ''DUnknown'', lit ''Failed'', lit ''Diskless'']"

record pacemaker_view =
  pm_total_nodes :: int
  pm_online_nodes :: "pystr list"
  pm_offline_nodes :: "pystr list"
  pm_failed_resources :: "row list"

record rdqm_raw =
  rq_rdqm_status :: row
  rq_pacemaker :: "pacemaker_view option"
  rq_drbd :: "row list"

section \<open>Checks\<close>

definition finding_pacemaker_quorum ::
  "pystr list \<Rightarrow> int \<Rightarrow> int \<Rightarrow> kc_registry \<Rightarrow> pystr option \<Rightarrow> rcs_finding" where
  "finding_pacemaker_quorum online total_n required registry mq_version =
    \<lparr> rcs_issue = lit ''Pacemaker quorum lost: '' @ (str_nat (length online)) @
      lit ''/'' @ str_int total_n @ lit '' nodes online (need '' @ str_int required @ lit '')'',
       rcs_severity = CRITICAL,
       rcs_reason_code = None,
       rcs_amq_code = None,
       root_cause = lit ''Pacemaker has lost quorum. Without a majority of nodes, the '' @
         lit ''cluster cannot safely run resources and RDQM-managed QMs are stopped or '' @
         lit ''fenced. Investigate node connectivity, fencing devices, and '' @
         lit ''pacemaker.service status on each host.'',
       fix_steps =
         [lit ''crm_mon -1'',
          lit ''rdqmstatus''],
       verify_commands =
         [lit ''crm_mon -1''],
       doc_refs = lookup_topic registry (lit ''rdqm_pacemaker'') mq_version,
       rcs_confidence = lit ''High'',
       evidence =
         [(lit ''online'', join (lit '','') online),
          (lit ''total'', str_int total_n),
          (lit ''required'', str_int required)],
       remediation_steps =
         [\<lparr> rem_scenario = lit ''Bring offline nodes back online (run ON the offline host)'',
             rem_commands =
               [lit ''systemctl status pacemaker corosync'',
                lit ''systemctl start corosync'',
                lit ''systemctl start pacemaker''],
             rem_notes = lit ''Quorum returns once a majority of nodes reach the same view.'' \<rparr>,
          \<lparr> rem_scenario = lit ''Fencing devices are misconfigured'',
             rem_commands =
               [lit ''pcs stonith status'',
                lit ''pcs stonith cleanup''],
             rem_notes = lit ''Stuck STONITH operations prevent recovery. Engage your '' @
               lit ''platform team if cleanup doesn't help.'' \<rparr>] \<rparr>"

definition check_pacemaker_quorum ::
  "pacemaker_view option \<Rightarrow> kc_registry \<Rightarrow> pystr option \<Rightarrow> rcs_finding list" where
  "check_pacemaker_quorum pace registry mq_version =
     (case pace of
        None \<Rightarrow> []
      | Some p \<Rightarrow>
          let online = pm_online_nodes p; total_n = pm_total_nodes p in
          if total_n \<le> 0 then []
          else
            let required = total_n div 2 + 1 in
            if int (length online) \<ge> required then []
            else [finding_pacemaker_quorum online total_n required registry mq_version])"

definition finding_offline_nodes :: "pystr list \<Rightarrow> kc_registry \<Rightarrow> pystr option \<Rightarrow> rcs_finding" where
  "finding_offline_nodes offline registry mq_version =
    \<lparr> rcs_issue = lit ''Pacemaker reports '' @ (str_nat (length offline)) @
      lit '' offline node(s): '' @ (join (lit '', '') offline),
       rcs_severity = HIGH,
       rcs_reason_code = None,
       rcs_amq_code = None,
       root_cause = lit ''One or more cluster nodes are offline from Pacemaker's view. '' @
         lit ''Causes typically include the node being powered off, a network partition, or '' @
         lit ''pacemaker.service / corosync stopped. The cluster runs degraded until the '' @
         lit ''node returns.'',
       fix_steps =
         [lit ''crm_mon -1'',
          lit ''rdqmstatus''],
       verify_commands =
         [lit ''crm_mon -1''],
       doc_refs = lookup_topic registry (lit ''rdqm_pacemaker'') mq_version,
       rcs_confidence = lit ''High'',
       evidence =
         [(lit ''offline'', join (lit '','') offline)],
       remediation_steps =
         [\<lparr> rem_scenario = lit ''Restore the offline node (run ON each offline host)'',
             rem_commands =
               [lit ''systemctl start corosync'',
                lit ''systemctl start pacemaker'',
                lit ''crm_mon -1''],
             rem_notes = lit ''If the host itself is unreachable, escalate to '' @
               lit ''platform/network team.'' \<rparr>] \<rparr>"

definition check_offline_nodes ::
  "pacemaker_view option \<Rightarrow> kc_registry \<Rightarrow> pystr option \<Rightarrow> rcs_finding list" where
  "check_offline_nodes pace registry mq_version =
     (case pace of
        None \<Rightarrow> []
      | Some p \<Rightarrow>
          if pm_offline_nodes p = [] then []
          else [finding_offline_nodes (pm_offline_nodes p) registry mq_version])"

definition finding_failed_resource ::
  "pystr \<Rightarrow> pystr \<Rightarrow> pystr \<Rightarrow> kc_registry \<Rightarrow> pystr option \<Rightarrow> rcs_finding" where
  "finding_failed_resource resource node status registry mq_version =
    \<lparr> rcs_issue = lit ''Pacemaker resource '' @ resource @ lit '' failed on '' @
      (por node (lit ''unknown node'')),
       rcs_severity = HIGH,
       rcs_reason_code = None,
       rcs_amq_code = None,
       root_cause = lit ''Resource '' @ resource @ lit '' reports '' @
         (por status (lit ''failed'')) @ lit ''. Failed resources block automatic failover '' @
         lit ''and require manual investigation of the underlying service (RDQM agent, '' @
         lit ''filesystem, virtual IP, or DRBD device).'',
       fix_steps =
         [lit ''crm_mon -1'',
          lit ''rdqmstatus''],
       verify_commands =
         [lit ''crm_mon -1''],
       doc_refs = lookup_topic registry (lit ''rdqm_troubleshooting'') mq_version,
       rcs_confidence = lit ''Medium'',
       evidence =
         [(lit ''resource'', resource),
          (lit ''node'', node),
          (lit ''status'', status)],
       remediation_steps =
         [\<lparr> rem_scenario = lit ''Clean up the failed resource after fixing root cause'',
             rem_commands =
               [lit ''pcs resource cleanup '' @ resource,
                lit ''crm_mon -1''],
             rem_notes = lit ''cleanup retries the resource. If it fails again, the '' @
               lit ''underlying service (RDQM agent / filesystem / VIP / DRBD) still has an issue.'' \<rparr>] \<rparr>"

definition check_failed_resources ::
  "pacemaker_view option \<Rightarrow> kc_registry \<Rightarrow> pystr option \<Rightarrow> rcs_finding list" where
  "check_failed_resources pace registry mq_version =
     (case pace of
        None \<Rightarrow> []
      | Some p \<Rightarrow>
          map (\<lambda>f. finding_failed_resource
              (str_cell (get_d f (lit ''resource'') (CStr (lit ''<unknown>''))))
              (str_cell (get_d f (lit ''node'') (CStr [])))
              (str_cell (get_d f (lit ''status'') (CStr []))) registry mq_version)
            (pm_failed_resources p))"

definition drbd_name :: "row \<Rightarrow> pystr" where
  "drbd_name d = str_cell (get_d d (lit ''resource'') (CStr (lit ''<unknown>'')))"

definition finding_drbd_split_brain :: "pystr \<Rightarrow> kc_registry \<Rightarrow> pystr option \<Rightarrow> rcs_finding" where
  "finding_drbd_split_brain name registry mq_version =
    \<lparr> rcs_issue = lit ''DRBD split-brain detected on resource '' @ name,
       rcs_severity = CRITICAL,
       rcs_reason_code = None,
       rcs_amq_code = None,
       root_cause = lit ''Both peers have written to the same DRBD resource while '' @
         lit ''disconnected, producing divergent block-level state. Manual operator action '' @
         lit ''is required to choose the authoritative copy and discard the other '' @ emdash @
         lit '' the MCP intentionally does NOT suggest the destructive commands.'',
       fix_steps =
         [lit ''drbdadm status '' @ name,
          lit ''rdqmstatus'',
          lit ''crm_mon -1''],
       verify_commands =
         [lit ''drbdadm status '' @ name],
       doc_refs = lookup_topic registry (lit ''rdqm_split_brain'') mq_version,
       rcs_confidence = lit ''High'',
       evidence =
         [(lit ''resource'', name)],
       remediation_steps =
         [\<lparr> rem_scenario = lit ''Resolve split-brain '' @ emdash @
           lit '' IRREVERSIBLE, IBM SUPPORT FIRST'',
             rem_commands =
               [lit ''# Step 1: identify the VICTIM (side whose data you DISCARD).'',
                lit ''#   This is a business decision '' @ emdash @ lit '' DO NOT pick '' @
                  lit ''automatically.'',
                lit ''# Step 2: On the VICTIM node:'',
                lit ''drbdadm disconnect '' @ name,
                lit ''drbdadm secondary '' @ name,
                lit ''drbdadm -- --discard-my-data connect '' @ name,
                lit ''# Step 3: On the SURVIVOR node:'',
                lit ''drbdadm connect '' @ name],
             rem_notes = warning_sign @ lit '' DATA LOSS WARNING: --discard-my-data '' @
               lit ''PERMANENTLY DISCARDS the victim's data since divergence. Engage IBM '' @
               lit ''Support and your DR runbook owner before running. There is no undo.'' \<rparr>] \<rparr>"

definition check_drbd_split_brain :: "row list \<Rightarrow> kc_registry \<Rightarrow> pystr option \<Rightarrow> rcs_finding list" where
  "check_drbd_split_brain drbd_resources registry mq_version =
     concat (map (\<lambda>d. if \<not> truthy (get d (lit ''split_brain'')) then []
                      else [finding_drbd_split_brain (drbd_name d) registry mq_version]) drbd_resources)"

definition finding_drbd_connection ::
  "pystr \<Rightarrow> pystr \<Rightarrow> severity \<Rightarrow> pystr \<Rightarrow> kc_registry \<Rightarrow> pystr option \<Rightarrow> rcs_finding" where
  "finding_drbd_connection name conn severity cause registry mq_version =
    \<lparr> rcs_issue = lit ''DRBD resource '' @ name @ lit '' connection_state='' @ conn,
       rcs_severity = severity,
       rcs_reason_code = None,
       rcs_amq_code = None,
       root_cause = cause,
       fix_steps =
         [lit ''drbdadm status '' @ name,
          lit ''rdqmstatus''],
       verify_commands =
         [lit ''drbdadm status '' @ name],
       doc_refs = lookup_topic registry (lit ''rdqm_troubleshooting'') mq_version,
       rcs_confidence = lit ''Medium'',
       evidence =
         [(lit ''resource'', name),
          (lit ''connection_state'', conn)],
       remediation_steps =
         [\<lparr> rem_scenario = lit ''Reconnect after fixing network/firewall'',
             rem_commands =
               [lit ''drbdadm connect '' @ name,
                lit ''drbdadm status '' @ name],
             rem_notes = lit ''DRBD ports default to 7788+ per resource. Confirm both '' @
               lit ''iptables/firewalld and any inter-node ACLs allow them.'' \<rparr>] \<rparr>"

definition drbd_connection :: "kc_registry \<Rightarrow> pystr option \<Rightarrow> row \<Rightarrow> rcs_finding list" where
  "drbd_connection registry mq_version d =
     (if truthy (get d (lit ''split_brain'')) then []
      else
        let name = drbd_name d; conn = strip (str_cell (get_d d (lit ''connection_state'') (CStr []))) in
        if conn = [] then []
        else if conn = lit ''Connected'' then []
        else if conn \<in> set bad_drbd_conn then
          [finding_drbd_connection name conn HIGH
             (lit ''DRBD resource '' @ name @ lit '' reports '' @ conn @
               lit '': replication is not active. Check inter-node network reachability, '' @
               lit ''DRBD ports (7788+), and any firewall changes.'')
             registry mq_version]
        else if conn \<in> set degraded_drbd_conn then
          [finding_drbd_connection name conn MEDIUM
             (lit ''DRBD resource '' @ name @ lit '' is in '' @ conn @ lit '': a sync is in '' @
               lit ''progress or paused. Monitor '' @ emdash @ lit '' promote-blocking '' @
               lit ''states extend RPO.'')
             registry mq_version]
        else
          [finding_drbd_connection name conn MEDIUM
             (lit ''DRBD resource '' @ name @ lit '' reports unexpected connection state '' @
               conn @ lit ''. Verify against the DRBD manual.'')
             registry mq_version])"

definition check_drbd_connection :: "row list \<Rightarrow> kc_registry \<Rightarrow> pystr option \<Rightarrow> rcs_finding list" where
  "check_drbd_connection drbd_resources registry mq_version =
     concat (map (drbd_connection registry mq_version) drbd_resources)"

definition finding_drbd_disk :: "pystr \<Rightarrow> pystr \<Rightarrow> pystr \<Rightarrow> kc_registry \<Rightarrow> pystr option \<Rightarrow> rcs_finding" where
  "finding_drbd_disk who name state registry mq_version =
    \<lparr> rcs_issue = lit ''DRBD '' @ who @ lit '' disk on '' @ name @ lit '' is '' @ state,
       rcs_severity = HIGH,
       rcs_reason_code = None,
       rcs_amq_code = None,
       root_cause = lit ''The '' @ who @ lit '' disk for DRBD resource '' @ name @
         lit '' reports '' @ state @ lit ''. Promotion of this side risks data loss until '' @
         lit ''the disk returns to UpToDate via a successful resync from a healthy peer.'',
       fix_steps =
         [lit ''drbdadm status '' @ name,
          lit ''rdqmstatus''],
       verify_commands =
         [lit ''drbdadm status '' @ name],
       doc_refs = lookup_topic registry (lit ''rdqm_troubleshooting'') mq_version,
       rcs_confidence = lit ''High'',
       evidence =
         [(lit ''resource'', name),
          (lit ''side'', who),
          (lit ''state'', state)],
       remediation_steps =
         [\<lparr> rem_scenario = lit ''Wait for resync from a healthy peer'',
             rem_commands =
               [lit ''drbdadm status '' @ name,
                lit ''# Watch 'replication:SyncTarget' progress.''],
             rem_notes = warning_sign @ lit '' Do NOT manually promote the Inconsistent side '' @
               emdash @
               lit '' risk of data loss. Let DRBD resync from a peer that is UpToDate.'' \<rparr>] \<rparr>"

definition drbd_disk_side :: "kc_registry \<Rightarrow> pystr option \<Rightarrow> row \<Rightarrow> pystr \<Rightarrow> pystr \<Rightarrow> rcs_finding list" where
  "drbd_disk_side registry mq_version d who key =
     (let state = strip (str_cell (get_d d key (CStr []))) in
      if state = [] \<or> state = lit ''UpToDate'' then []
      else if state \<notin> set bad_drbd_disk then []
      else [finding_drbd_disk who (drbd_name d) state registry mq_version])"

definition check_drbd_disk_state :: "row list \<Rightarrow> kc_registry \<Rightarrow> pystr option \<Rightarrow> rcs_finding list" where
  "check_drbd_disk_state drbd_resources registry mq_version =
     concat (map (\<lambda>d.
       if truthy (get d (lit ''split_brain'')) then []
       else drbd_disk_side registry mq_version d (lit ''local'') (lit ''disk_state'') @
            drbd_disk_side registry mq_version d (lit ''peer'') (lit ''peer_disk_state'')) drbd_resources)"

definition finding_no_running_node :: "pystr \<Rightarrow> pystr \<Rightarrow> kc_registry \<Rightarrow> pystr option \<Rightarrow> rcs_finding" where
  "finding_no_running_node qm ha_state registry mq_version =
    \<lparr> rcs_issue = lit ''RDQM '' @ qm @ lit '' has no running node (ha_state='' @
      (por ha_state (lit ''unknown'')) @ lit '')'',
       rcs_severity = CRITICAL,
       rcs_reason_code = None,
       rcs_amq_code = None,
       root_cause = lit ''rdqmstatus reports no node currently running the QM. Pacemaker '' @
         lit ''may have failed to start the resource, the preferred node may be offline, or '' @
         lit ''DRBD is not promoting. The QM is unavailable to applications.'',
       fix_steps =
         [lit ''rdqmstatus'',
          lit ''crm_mon -1''],
       verify_commands =
         [lit ''rdqmstatus''],
       doc_refs = lookup_topic registry (lit ''rdqm_overview'') mq_version,
       rcs_confidence = lit ''Medium'',
       evidence =
         [(lit ''qm_name'', qm),
          (lit ''ha_state'', ha_state)],
       remediation_steps =
         [\<lparr> rem_scenario = lit ''Move the QM to the preferred node'',
             rem_commands =
               [lit ''pcs resource move '' @ qm @ lit ''-master rdqm-1'',
                lit ''crm_mon -1''],
             rem_notes = lit ''Replace 'rdqm-1' with your preferred host. Pacemaker also '' @
               lit ''needs DRBD UpToDate on the target.'' \<rparr>,
          \<lparr> rem_scenario = lit ''Restart the resource group after fixing root cause'',
             rem_commands =
               [lit ''pcs resource cleanup '' @ qm @ lit ''-master'',
                lit ''pcs resource cleanup '' @ qm @ lit ''-slave''],
             rem_notes = lit ''Cleanup clears Pacemaker's failure history and retries.'' \<rparr>] \<rparr>"

definition check_rdqm_no_running_node :: "row \<Rightarrow> kc_registry \<Rightarrow> pystr option \<Rightarrow> rcs_finding list" where
  "check_rdqm_no_running_node rdqm registry mq_version =
     (if rdqm = [] then []
      else
        let qm = str_cell (get_d rdqm (lit ''qm_name'') (CStr (lit ''<unknown>'')));
            running = strip (str_cell (cell_or (get rdqm (lit ''running_node'')) (CStr [])));
            ha_state = strip (str_cell (get_d rdqm (lit ''ha_state'') (CStr [])))
        in if running \<noteq> [] then []
           else [finding_no_running_node qm ha_state registry mq_version])"

section \<open>The matcher\<close>

definition match_rdqm_findings :: "rdqm_raw \<Rightarrow> kc_registry \<Rightarrow> pystr option \<Rightarrow> rcs_finding list" where
  "match_rdqm_findings raw registry mq_version =
     (let rdqm = rq_rdqm_status raw; pace = rq_pacemaker raw; drbd_resources = rq_drbd raw in
      if rdqm = [] \<and> pace = None \<and> drbd_resources = [] then []
      else check_pacemaker_quorum pace registry mq_version @
           check_offline_nodes pace registry mq_version @
           check_failed_resources pace registry mq_version @
           check_drbd_split_brain drbd_resources registry mq_version @
           check_drbd_connection drbd_resources registry mq_version @
           check_drbd_disk_state drbd_resources registry mq_version @
           check_rdqm_no_running_node rdqm registry mq_version)"

section \<open>The commands pass the shell gate\<close>

text \<open>Names of DRBD resources that the gate admits.\<close>

definition drbd_char :: "nat \<Rightarrow> bool" where
  "drbd_char c \<longleftrightarrow> is_lower_letter c \<or> is_digit c \<or> c = 95 \<or> c = 45"

definition drbd_ok :: "pystr \<Rightarrow> bool" where
  "drbd_ok name \<longleftrightarrow> name \<noteq> [] \<and> list_all drbd_char name"

lemma rel_star_cls_intro: "list_all P w \<Longrightarrow> rx_rel (RStar (RCls P)) b w a"
proof (induction w arbitrary: b)
  case Nil
  then show ?case by (simp add: rel_star_stop)
next
  case (Cons c w)
  from Cons.IH [of "rev [c] @ b"] Cons.prems
  have "rx_rel (RStar (RCls P)) b ([c] @ w) a"
    by (intro rel_star_step) simp_all
  then show ?case by simp
qed

lemma rel_plus_cls_intro: "w \<noteq> [] \<Longrightarrow> list_all P w \<Longrightarrow> rx_rel (RPlus (RCls P)) b w a"
proof -
  assume "w \<noteq> []" "list_all P w"
  then obtain c w' where w: "w = c # w'" "P c" "list_all P w'" by (cases w) auto
  have "rx_rel (RSeq (RCls P) (RStar (RCls P))) b ([c] @ w') a"
    using w by (intro rel_seq rel_star_cls_intro) simp_all
  then show ?thesis by (simp add: RPlus_def w(1))
qed

lemma rel_RLit: "rx_rel (RLit s) b s a"
proof (induction s arbitrary: b)
  case (Cons c s)
  from Cons.IH [of "rev [c] @
    b"] have "rx_rel (RSeq (RCls (\<lambda>x. x = c)) (RLit s)) b ([c] @ s) a"
    by (intro rel_seq) simp_all
  then show ?case by simp
qed simp

lemma split_on_first: "d \<notin> set w \<Longrightarrow> split_on d (w @ d # r) = w # split_on d r"
  by (induction w) auto

lemma drbdadm_status_ok:
  assumes "drbd_ok name"
  shows "shell_step_ok (lit ''drbdadm status '' @ name)"
proof -
  have ns: "32 \<notin> set name"
    using assms by (auto simp: drbd_ok_def drbd_char_def list_all_iff is_lower_letter_def is_digit_def)
  have lits: "32 \<notin> set (lit ''drbdadm'')" "32 \<notin> set (lit ''status'')" by (simp_all add: lit_def)
  have "lit ''drbdadm status '' @ name = lit ''drbdadm'' @ 32 # lit ''status'' @ 32 # name"
    by (simp add: lit_def)
  then have words: "split_on 32 (lit ''drbdadm status '' @
    name) = [lit ''drbdadm'', lit ''status'', name]"
    using ns lits by (simp only: split_on_first split_on_word not_False_eq_True)
  let ?body = "RSeq (RLit (lit ''status'')) (ROpt (RGrp 1 (RSeq (RPlus (RCls is_space))
      (RPlus (RCls (\<lambda>c. is_lower_letter c \<or> is_digit c \<or> c = 95 \<or> c = 45))))))"
  have body: "map_of shell_bodies (lit ''drbdadm'') = Some ?body"
    by (simp add: shell_bodies_def)
  have name: "rx_rel (RPlus (RCls (\<lambda>c. is_lower_letter c \<or> is_digit c \<or> c = 95 \<or> c = 45))) b name []" for b
    using assms unfolding drbd_ok_def drbd_char_def by (intro rel_plus_cls_intro) simp_all
  have sp: "rx_rel (RPlus (RCls is_space)) b [32] a" for a b
    by (rule rel_plus_cls_intro) (simp_all add: is_space_def)
  have "rx_rel ?body [] (lit ''status'' @ ([32] @ name)) []"
    unfolding ROpt_def by (intro rel_seq rel_alt1 rel_grp rel_RLit sp name)
  moreover have "join (lit '' '') [lit ''status'', name] = (lit ''status'' @ ([32] @ name)) @ []"
    by (simp add: lit_def)
  ultimately show ?thesis
    unfolding shell_step_ok_def words shell_ok_iff using body by blast
qed

lemma rdqm_shell_steps:
  "shell_step_ok (lit ''crm_mon -1'')" "shell_step_ok (lit ''rdqmstatus'')"
proof -
  have "split_on 32 (lit ''crm_mon -1'') = [lit ''crm_mon'', lit ''-1'']"
    "split_on 32 (lit ''rdqmstatus'') = [lit ''rdqmstatus'']"
    by (simp_all add: lit_def)
  then show "shell_step_ok (lit ''crm_mon -1'')" "shell_step_ok (lit ''rdqmstatus'')"
    by (simp_all add: shell_step_ok_def shell_ok_used)
qed

lemma rdqm_shell_only:
  "shell_only_finding (finding_pacemaker_quorum online n required registry v)"
  "shell_only_finding (finding_offline_nodes offline registry v)"
  "shell_only_finding (finding_failed_resource res node status registry v)"
  "shell_only_finding (finding_no_running_node qm ha registry v)"
  "drbd_ok name \<Longrightarrow> shell_only_finding (finding_drbd_split_brain name registry v)"
  "drbd_ok name \<Longrightarrow> shell_only_finding (finding_drbd_connection name conn sev cause registry v)"
  "drbd_ok name \<Longrightarrow> shell_only_finding (finding_drbd_disk who name state registry v)"
  by (simp_all add: shell_only_finding_def rdqm_shell_steps drbdadm_status_ok finding_pacemaker_quorum_def
      finding_offline_nodes_def finding_failed_resource_def finding_no_running_node_def
      finding_drbd_split_brain_def finding_drbd_connection_def finding_drbd_disk_def)

section \<open>Properties\<close>

text \<open>Every command in the fix steps and verify commands of an RDQM finding, split at its
  blanks, passes the shell gate, provided the DRBD resources have names of lower-case letters,
  digits, underscores and hyphens.\<close>
theorem rdqm_commands_pass_shell_gate:
  assumes "list_all (\<lambda>d. drbd_ok (drbd_name d)) (rq_drbd raw)"
  shows "list_all shell_only_finding (match_rdqm_findings raw registry v)"
proof -
  have "list_all shell_only_finding (check_pacemaker_quorum p registry v)"
    "list_all shell_only_finding (check_offline_nodes p registry v)"
    "list_all shell_only_finding (check_failed_resources p registry v)"
    "list_all shell_only_finding (check_rdqm_no_running_node r registry v)" for p r
    by (simp_all add: check_pacemaker_quorum_def check_offline_nodes_def check_failed_resources_def
        check_rdqm_no_running_node_def rdqm_shell_only list.pred_map list.pred_True comp_def Let_def split: option.split)
  moreover have "list_all shell_only_finding (check_drbd_split_brain (rq_drbd raw) registry v)"
    "list_all shell_only_finding (check_drbd_connection (rq_drbd raw) registry v)"
    "list_all shell_only_finding (check_drbd_disk_state (rq_drbd raw) registry v)"
    using assms
    by (auto simp: check_drbd_split_brain_def check_drbd_connection_def drbd_connection_def
        check_drbd_disk_state_def drbd_disk_side_def Let_def list_all_iff rdqm_shell_only split: if_splits)
  ultimately show ?thesis by (simp add: match_rdqm_findings_def Let_def)
qed

lemma rdqm_commands_pass_shell_gate_witness:
  "list_all shell_only_finding
     (match_rdqm_findings
        \<lparr> rq_rdqm_status = [], rq_pacemaker = None,
          rq_drbd = [[(lit ''resource'', CStr (lit ''qm1'')), (lit ''split_brain'', CBool True)]] \<rparr>
        default_registry None)"
  by (rule rdqm_commands_pass_shell_gate)
    (simp add: drbd_ok_def drbd_name_def get_d_Cons drbd_char_def lit_def is_lower_letter_def is_digit_def)

text \<open>A DRBD resource in split-brain yields exactly one finding, CRITICAL, and hides its
  connection and disk states; without split-brain, a bad connection is HIGH, any other connection
  state but Connected is MEDIUM, and each side's disk is HIGH exactly in the five bad states.\<close>
theorem drbd_triage:
  "map rcs_severity (check_drbd_split_brain [d] registry v @ check_drbd_connection [d] registry v @
      check_drbd_disk_state [d] registry v) =
   (let conn = strip (str_cell (get_d d (lit ''connection_state'') (CStr [])));
        bad = (\<lambda>k. strip (str_cell (get_d d k (CStr []))) \<in> set bad_drbd_disk)
    in if truthy (get d (lit ''split_brain'')) then [CRITICAL]
       else (if conn = [] \<or> conn = lit ''Connected'' then []
             else if conn \<in> set bad_drbd_conn then [HIGH] else [MEDIUM]) @
            (if bad (lit ''disk_state'') then [HIGH] else []) @
            (if bad (lit ''peer_disk_state'') then [HIGH] else []))"
proof -
  have fields: "rcs_severity (finding_drbd_split_brain name registry v) = CRITICAL"
    "rcs_severity (finding_drbd_connection name conn sev cause registry v) = sev"
    "rcs_severity (finding_drbd_disk who name state registry v) = HIGH" for name conn sev cause who state
    by (simp_all add: finding_drbd_split_brain_def finding_drbd_connection_def finding_drbd_disk_def)
  have disk: "map rcs_severity (drbd_disk_side registry v d who k) =
      (if strip (str_cell (get_d d k (CStr []))) \<in> set bad_drbd_disk then [HIGH] else [])" for who k
    by (auto simp: drbd_disk_side_def Let_def fields bad_drbd_disk_def)
  have conn: "map rcs_severity (drbd_connection registry v d) =
      (let conn = strip (str_cell (get_d d (lit ''connection_state'') (CStr [])))
       in if truthy (get d (lit ''split_brain'')) \<or> conn = [] \<or> conn = lit ''Connected'' then []
          else if conn \<in> set bad_drbd_conn then [HIGH] else [MEDIUM])"
    by (simp add: drbd_connection_def Let_def fields)
  show ?thesis
    by (simp add: check_drbd_split_brain_def check_drbd_connection_def check_drbd_disk_state_def fields
        disk conn Let_def)
qed

text \<open>
  The engine documents that every fix step passes the MQSC gate. The steps of these findings
  are shell commands, which it refuses.
\<close>

lemma rdqm_step_not_mqsc:
  "lit ''rdqmstatus'' \<in> set (fix_steps (finding_no_running_node qm ha registry v))"
  "\<not> mqsc_ok (lit ''rdqmstatus'')"
proof -
  show "lit ''rdqmstatus'' \<in> set (fix_steps (finding_no_running_node qm ha registry v))"
    by (simp add: finding_no_running_node_def)
  have "cut_comment (lit ''rdqmstatus'') = lit ''rdqmstatus''"
    by (rule cut_comment_id) (simp_all add: lit_def)
  moreover have "split_ws (lit ''rdqmstatus'') = [lit ''rdqmstatus'']"
    by (simp add: split_ws.simps lit_def is_space_def)
  moreover have "upper (lit ''rdqmstatus'') = lit ''RDQMSTATUS''"
    by (simp add: lit_def upper_cp_def is_lower_letter_def)
  ultimately show "\<not> mqsc_ok (lit ''rdqmstatus'')"
    by (simp add: mqsc_ok_iff allowed_words_def)
qed

end
