(* ===== verification/Match_Zos.thy ===== *)
theory Match_Zos
  imports Engine
begin

text \<open>
  \<open>rcs/matchers/zos.py\<close>: queue sharing group members, channel initiator, page sets, buffer
  pools and coupling facility structures. The group dictionary is a record, \<open>None\<close> when it
  is empty.
\<close>

definition pageset_high :: int where "pageset_high = 80"
definition pageset_critical :: int where "pageset_critical = 95"
definition bufferpool_low_free_pct :: int where "bufferpool_low_free_pct = 10"

record zos_group =
  zg_qsg_name :: cell
  zg_members :: "row list"

record zos_raw =
  zr_group :: "zos_group option"
  zr_chin :: row
  zr_pagesets :: "row list"
  zr_bufferpools :: "row list"
  zr_cf_structures :: "row list"

text \<open>\<open>d.get(a) or d.get(b) or default\<close>.\<close>

definition get2 :: "row \<Rightarrow> pystr \<Rightarrow> pystr \<Rightarrow> cell \<Rightarrow> cell" where
  "get2 r a b d = cell_or (cell_or (get r a) (get r b)) d"

section \<open>Checks\<close>

definition finding_qsg_member ::
  "pystr \<Rightarrow> pystr \<Rightarrow> pystr \<Rightarrow> kc_registry \<Rightarrow> pystr option \<Rightarrow> rcs_finding" where
  "finding_qsg_member qsg name status registry mq_version =
    \<lparr> rcs_issue = lit ''QSG member '' @ name @ lit '' status='' @
      (por status (lit ''UNKNOWN'')),
       rcs_severity = HIGH,
       rcs_reason_code = None,
       rcs_amq_code = None,
       root_cause = lit ''Queue manager '' @ name @ lit '' in QSG '' @
         (por qsg (lit ''unknown'')) @ lit '' is not ACTIVE. Inactive QSG members reduce '' @
         lit ''capacity for shared-queue workload and may indicate the QM is stopped, '' @
         lit ''abended, or partitioned from the coupling facility.'',
       fix_steps =
         [lit ''DISPLAY GROUP'',
          lit ''DISPLAY QMSTATUS''],
       verify_commands =
         [lit ''DISPLAY GROUP''],
       doc_refs = lookup_topic registry (lit ''zos_qsg_overview'') mq_version,
       rcs_confidence = lit ''High'',
       evidence =
         [(lit ''qsg'', qsg),
          (lit ''member'', name),
          (lit ''status'', status)],
       remediation_steps =
         [\<lparr> rem_scenario = lit ''Start the inactive QM (z/OS operator command)'',
             rem_commands =
               [lit ''/'' @ name @ lit '' START QMGR'',
                lit ''DISPLAY GROUP''],
             rem_notes = lit ''z/OS console / SDSF. Replace {name} with the started-task prefix.'' \<rparr>] \<rparr>"

definition qsg_member :: "pystr \<Rightarrow> kc_registry \<Rightarrow> pystr option \<Rightarrow> row \<Rightarrow> rcs_finding list" where
  "qsg_member qsg registry mq_version m =
     (let name = str_cell (get_d m (lit ''name'') (CStr (lit ''<unknown>'')));
          status = upper (str_cell (get_d m (lit ''status'') (CStr [])))
      in if status \<in> set [lit ''ACTIVE'', lit ''RUNNING''] then []
         else [finding_qsg_member qsg name status registry mq_version])"

definition check_qsg_members :: "zos_group option \<Rightarrow> kc_registry \<Rightarrow> pystr option \<Rightarrow> rcs_finding list" where
  "check_qsg_members grp registry mq_version =
     (case grp of
        None \<Rightarrow> []
      | Some g \<Rightarrow>
          concat (map (qsg_member (str_cell (cell_or (zg_qsg_name g) (CStr []))) registry mq_version) (zg_members g)))"

definition finding_chin :: "pystr \<Rightarrow> kc_registry \<Rightarrow> pystr option \<Rightarrow> rcs_finding" where
  "finding_chin status registry mq_version =
    \<lparr> rcs_issue = lit ''Channel initiator (CHIN) status is '' @
      (por status (lit ''UNKNOWN'')),
       rcs_severity = CRITICAL,
       rcs_reason_code = None,
       rcs_amq_code = None,
       root_cause = lit ''The CHIN address space is not running. All distributed channel '' @
         lit ''traffic to and from this z/OS QM is halted. Investigate the CHIN log and JES '' @
         lit ''output for abend codes.'',
       fix_steps =
         [lit ''DISPLAY QMSTATUS CHINIT'',
          lit ''DISPLAY CHSTATUS(*) ALL''],
       verify_commands =
         [lit ''DISPLAY QMSTATUS CHINIT''],
       doc_refs = lookup_topic registry (lit ''zos_chin'') mq_version,
       rcs_confidence = lit ''High'',
       evidence =
         [(lit ''chin_status'', status)],
       remediation_steps =
         [\<lparr> rem_scenario = lit ''Start the channel initiator address space'',
             rem_commands =
               [lit ''+CSQ8 START CHINIT'',
                lit ''DISPLAY QMSTATUS CHINIT''],
             rem_notes = lit ''z/OS operator command (SDSF or console). Replace 'CSQ8' with '' @
               lit ''your QM's command prefix.'' \<rparr>] \<rparr>"

definition check_chin :: "row \<Rightarrow> kc_registry \<Rightarrow> pystr option \<Rightarrow> rcs_finding list" where
  "check_chin chin registry mq_version =
     (if chin = [] then []
      else
        let status = upper (str_cell (get_d chin (lit ''status'') (CStr []))) in
        if status \<in> set [lit ''RUNNING'', lit ''ACTIVE'', lit ''STARTED''] then []
        else [finding_chin status registry mq_version])"

definition finding_pageset ::
  "pystr \<Rightarrow> int \<Rightarrow> severity \<Rightarrow> kc_registry \<Rightarrow> pystr option \<Rightarrow> rcs_finding" where
  "finding_pageset psid use_pct severity registry mq_version =
    \<lparr> rcs_issue = lit ''Page set '' @ psid @ lit '' utilization is '' @ str_int use_pct @
      lit ''%'',
       rcs_severity = severity,
       rcs_reason_code = None,
       rcs_amq_code = None,
       root_cause = lit ''Page set '' @ psid @ lit '' is '' @ str_int use_pct @
         lit ''% full. At 100% the QM cannot accept further messages routed to queues '' @
         lit ''backed by this page set. Add an extension or expand the page set.'',
       fix_steps =
         [lit ''DISPLAY USAGE PSID('' @ psid @ lit '')'',
          lit ''DISPLAY QUEUE(*) STGCLASS''],
       verify_commands =
         [lit ''DISPLAY USAGE PSID('' @ psid @ lit '')''],
       doc_refs = lookup_topic registry (lit ''zos_pageset'') mq_version,
       rcs_confidence = lit ''High'',
       evidence =
         [(lit ''psid'', psid),
          (lit ''use_pct'', str_int use_pct)],
       remediation_steps =
         [\<lparr> rem_scenario = lit ''Expand the page set with an extension dataset'',
             rem_commands =
               [lit ''# Allocate new dataset via JCL (sample):'',
                lit ''//ALLOCNEW EXEC PGM=IEFBR14'',
                lit ''//NEWPS DD DSN=CSQ.PAGESET.PS'' @ psid @
                  lit ''.EXT01,DISP=(NEW,CATLG,DELETE),'',
                lit ''//            SPACE=(CYL,(100,100,0)),LIKE=CSQ.PAGESET.PS{psid}'',
                lit ''# Then define to MQ via CSQUTIL FORMAT/EXTEND or DSN command.''],
             rem_notes = lit ''Coordinate with z/OS storage team. Adding an extension is '' @
               lit ''non-disruptive but requires DASD allocation.'' \<rparr>,
          \<lparr> rem_scenario = lit ''Rebalance queues to a different page set'',
             rem_commands =
               [lit ''DISPLAY QUEUE(*) WHERE(STGCLASS LIKE 'PS'' @ psid @ lit ''*')'',
                lit ''# Move high-traffic queues to a less-full STGCLASS:'',
                lit ''ALTER QLOCAL('NOISY.QUEUE') STGCLASS('STGCLASS_FOR_PS2')''],
             rem_notes = lit ''STGCLASS change affects new messages only. Drain queue first '' @
               lit ''if you need existing messages migrated.'' \<rparr>] \<rparr>"

definition pageset :: "kc_registry \<Rightarrow> pystr option \<Rightarrow> row \<Rightarrow> rcs_finding list" where
  "pageset registry mq_version ps =
     (let psid = str_cell (get2 ps (lit ''PSID'') (lit ''psid'') (CStr (lit ''?'')));
          use_pct = int_or (get2 ps (lit ''USEPCT'') (lit ''use_pct'') (CInt 0)) 0
      in if use_pct < pageset_high then []
         else [finding_pageset psid use_pct (if use_pct \<ge> pageset_critical then CRITICAL else HIGH)
                 registry mq_version])"

definition check_pagesets :: "row list \<Rightarrow> kc_registry \<Rightarrow> pystr option \<Rightarrow> rcs_finding list" where
  "check_pagesets pagesets registry mq_version = concat (map (pageset registry mq_version) pagesets)"

definition finding_bufferpool :: "pystr \<Rightarrow> int \<Rightarrow> kc_registry \<Rightarrow> pystr option \<Rightarrow> rcs_finding" where
  "finding_bufferpool bpid free_pct registry mq_version =
    \<lparr> rcs_issue = lit ''Buffer pool '' @ bpid @ lit '' free pages at '' @
      str_int free_pct @ lit ''%'',
       rcs_severity = HIGH,
       rcs_reason_code = None,
       rcs_amq_code = None,
       root_cause = lit ''Buffer pool '' @ bpid @ lit '' has only '' @ str_int free_pct @
         lit ''% free pages. Low free counts cause page-stealing and degrade message '' @
         lit ''throughput. Increase the buffer pool size or rebalance page set allocation.'',
       fix_steps =
         [lit ''DISPLAY USAGE BUFFPOOL('' @ bpid @ lit '')''],
       verify_commands =
         [lit ''DISPLAY USAGE BUFFPOOL('' @ bpid @ lit '')''],
       doc_refs = lookup_topic registry (lit ''zos_bufferpool'') mq_version,
       rcs_confidence = lit ''High'',
       evidence =
         [(lit ''bufferpool'', bpid),
          (lit ''free_pct'', str_int free_pct)],
       remediation_steps =
         [\<lparr> rem_scenario = lit ''Increase buffer pool size dynamically'',
             rem_commands =
               [lit ''ALTER BUFFPOOL('' @ bpid @ lit '') BUFFERS(50000)'',
                lit ''DISPLAY USAGE BUFFPOOL('' @ bpid @ lit '')''],
             rem_notes = lit ''Persists across restart. Sized in 4KiB pages '' @ emdash @
               lit '' 50,000 buffers '' @ approx_sign @ lit '' 200MB. Region size (REGION=) '' @
               lit ''on the MSTR JCL must accommodate.'' \<rparr>] \<rparr>"

definition bufferpool :: "kc_registry \<Rightarrow> pystr option \<Rightarrow> row \<Rightarrow> rcs_finding list" where
  "bufferpool registry mq_version bp =
     (let bpid = str_cell (get2 bp (lit ''BUFFPOOL'') (lit ''bufferpool'') (CStr (lit ''?'')));
          free_pct = int_or (get2 bp (lit ''FREEPCT'') (lit ''free_pct'') (CInt 100)) 100
      in if free_pct \<ge> bufferpool_low_free_pct then []
         else [finding_bufferpool bpid free_pct registry mq_version])"

definition check_bufferpools :: "row list \<Rightarrow> kc_registry \<Rightarrow> pystr option \<Rightarrow> rcs_finding list" where
  "check_bufferpools bufferpools registry mq_version = concat (map (bufferpool registry mq_version) bufferpools)"

definition finding_cf_structure ::
  "pystr \<Rightarrow> pystr \<Rightarrow> severity \<Rightarrow> kc_registry \<Rightarrow> pystr option \<Rightarrow> rcs_finding" where
  "finding_cf_structure name status severity registry mq_version =
    \<lparr> rcs_issue = lit ''CF structure '' @ name @ lit '' status='' @
      (por status (lit ''UNKNOWN'')),
       rcs_severity = severity,
       rcs_reason_code = None,
       rcs_amq_code = None,
       root_cause = lit ''Coupling facility structure '' @ name @ lit '' is in '' @
         (por status (lit ''UNKNOWN'')) @ lit '' state. Shared queues backed by this '' @
         lit ''structure are unavailable until the structure is recovered or reallocated.'',
       fix_steps =
         [lit ''DISPLAY CFSTATUS('' @ name @ lit '') ALL''],
       verify_commands =
         [lit ''DISPLAY CFSTATUS('' @ name @ lit '')''],
       doc_refs = lookup_topic registry (lit ''zos_cf_structure'') mq_version,
       rcs_confidence = lit ''High'',
       evidence =
         [(lit ''structure'', name),
          (lit ''status'', status)],
       remediation_steps =
         [\<lparr> rem_scenario = lit ''Recover the failed structure (sysplex operator)'',
             rem_commands =
               [lit ''D XCF,STR,STRNAME='' @ name,
                lit ''SETXCF FORCE,STR,STRNAME='' @ name,
                lit ''# Then re-allocate via CFRM policy ACTIVATE if needed.''],
             rem_notes = warning_sign @ lit '' SETXCF FORCE discards in-flight structure '' @
               lit ''data. Engage IBM Support before running. Verify alternate CF exists in '' @
               lit ''CFRM policy first.'' \<rparr>] \<rparr>"

definition cf_structure :: "kc_registry \<Rightarrow> pystr option \<Rightarrow> row \<Rightarrow> rcs_finding list" where
  "cf_structure registry mq_version s =
     (let name = str_cell (get2 s (lit ''STRUCTURE'') (lit ''structure'') (CStr (lit ''<unknown>'')));
          status = upper (str_cell (get2 s (lit ''STATUS'') (lit ''status'') (CStr [])))
      in if status \<in> set [lit ''ACTIVE'', lit ''AVAILABLE''] then []
         else
           let severity =
             (if status \<in> set [lit ''FAILED'', lit ''DAMAGED'', lit ''FAILED-CONNECTED'', lit ''INACCESSIBLE'']
              then CRITICAL else HIGH)
           in [finding_cf_structure name status severity registry mq_version])"

definition check_cf_structures :: "row list \<Rightarrow> kc_registry \<Rightarrow> pystr option \<Rightarrow> rcs_finding list" where
  "check_cf_structures cf_structures registry mq_version =
     concat (map (cf_structure registry mq_version) cf_structures)"

section \<open>The matcher\<close>

definition match_zos_findings :: "zos_raw \<Rightarrow> kc_registry \<Rightarrow> pystr option \<Rightarrow> rcs_finding list" where
  "match_zos_findings raw registry mq_version =
     (if zr_group raw = None \<and> zr_chin raw = [] \<and> zr_pagesets raw = [] \<and> zr_bufferpools raw = [] \<and>
         zr_cf_structures raw = [] then []
      else check_qsg_members (zr_group raw) registry mq_version @
           check_chin (zr_chin raw) registry mq_version @
           check_pagesets (zr_pagesets raw) registry mq_version @
           check_bufferpools (zr_bufferpools raw) registry mq_version @
           check_cf_structures (zr_cf_structures raw) registry mq_version)"

section \<open>The commands are read-only\<close>

lemma clean_get2 [clean_intros]:
  "clean_row r \<Longrightarrow> clean_text (str_cell d) \<Longrightarrow> clean_text (str_cell (get2 r a b d))"
  unfolding get2_def by (intro clean_intros)

lemma zos_findings_read_only:
  "read_only_finding (finding_qsg_member qsg name status registry v)"
  "read_only_finding (finding_chin status registry v)"
  "clean_text psid \<Longrightarrow> read_only_finding (finding_pageset psid use_pct sev registry v)"
  "clean_text bpid \<Longrightarrow> read_only_finding (finding_bufferpool bpid free_pct registry v)"
  "clean_text nm \<Longrightarrow> read_only_finding (finding_cf_structure nm status sev registry v)"
  by (simp_all add: finding_qsg_member_def finding_chin_def finding_pageset_def finding_bufferpool_def
      finding_cf_structure_def command_simps)

section \<open>Properties\<close>

lemma match_zos_read_only:
  assumes "list_all clean_row (zr_pagesets raw)" "list_all clean_row (zr_bufferpools raw)"
    "list_all clean_row (zr_cf_structures raw)"
  shows "list_all read_only_finding (match_zos_findings raw registry v)"
proof -
  have "list_all read_only_finding (check_pagesets (zr_pagesets raw) registry v)"
    using assms(1) by (auto simp: check_pagesets_def pageset_def Let_def list_all_iff
        intro!: zos_findings_read_only clean_intros)
  moreover have "list_all read_only_finding (check_bufferpools (zr_bufferpools raw) registry v)"
    using assms(2) by (auto simp: check_bufferpools_def bufferpool_def Let_def list_all_iff
        intro!: zos_findings_read_only clean_intros)
  moreover have "list_all read_only_finding (check_cf_structures (zr_cf_structures raw) registry v)"
    using assms(3) by (auto simp: check_cf_structures_def cf_structure_def Let_def list_all_iff
        intro!: zos_findings_read_only clean_intros)
  moreover have "list_all read_only_finding (check_qsg_members (zr_group raw) registry v)"
    "list_all read_only_finding (check_chin (zr_chin raw) registry v)"
    by (auto simp: check_qsg_members_def qsg_member_def check_chin_def Let_def list_all_iff
        zos_findings_read_only split: option.splits)
  ultimately show ?thesis by (simp add: match_zos_findings_def)
qed

text \<open>Every command in the fix steps and verify commands of a z/OS finding passes the MQSC
  gate, when the page set, buffer pool and structure rows print to text without separators.\<close>
theorem zos_commands_read_only:
  assumes "list_all clean_row (zr_pagesets raw)" "list_all clean_row (zr_bufferpools raw)"
    "list_all clean_row (zr_cf_structures raw)"
  shows "list_all read_only_finding (match_zos_findings raw registry v)"
  using assms by (rule match_zos_read_only)

lemma zos_commands_read_only_witness:
  "list_all read_only_finding
     (match_zos_findings
        \<lparr> zr_group = None, zr_chin = [], zr_pagesets = [[(lit ''PSID'', CStr (lit ''0'')), (lit ''USEPCT'', CStr (lit ''97''))]],
          zr_bufferpools = [], zr_cf_structures = [] \<rparr> default_registry None)"
  by (rule zos_commands_read_only) (simp_all add: clean_row_def)

text \<open>Page set utilisation is reported from 80 percent on, as CRITICAL from 95 percent on, and
  buffer pools below 10 percent free pages are reported as HIGH, when the rows carry the numbers as
  the text that the reply parser gives; a number that does not parse is never reported.\<close>
theorem zos_thresholds:
  "map rcs_severity (pageset registry v ((lit ''USEPCT'', CStr (str_int u)) # ps)) =
     (if u \<ge> 95 then [CRITICAL] else if u \<ge> 80 then [HIGH] else []) \<and>
   map rcs_severity (bufferpool registry v ((lit ''FREEPCT'', CStr (str_int f)) # bp)) =
     (if f < 10 then [HIGH] else []) \<and>
   (parse_int s = None \<longrightarrow> pageset registry v ((lit ''USEPCT'', CStr s) # ps) = [] \<or> s = [])"
proof -
  have ne: "str_int i \<noteq> []" for i by (auto simp: str_int_def)
  have fields: "rcs_severity (finding_pageset a b sev registry v) = sev"
    "rcs_severity (finding_bufferpool a b registry v) = HIGH" for a b sev
    by (simp_all add: finding_pageset_def finding_bufferpool_def)
  show ?thesis
    by (simp add: pageset_def bufferpool_def get2_def get_def get_d_Cons cell_or_def int_or_def ne fields
        parse_int_str_int pageset_high_def pageset_critical_def bufferpool_low_free_pct_def Let_def
        split: option.split)
qed

lemma zos_thresholds_witness:
  "pageset default_registry None [(lit ''USEPCT'', CStr (lit ''n/a''))] = []"
proof -
  have "parse_int (lit ''n/a'') = None"
    by (simp add: parse_int_def lit_def strip_def lstrip_def rstrip_def is_space_def is_digit_def)
  then show ?thesis using zos_thresholds [of default_registry None 0 "[]" 0 "[]" "lit ''n/a''"] by simp
qed

text \<open>
  A number, as opposed to its text, is lost when it is zero: \<open>d.get("FREEPCT") or 100\<close> turns
  a buffer pool without any free page into one with a hundred percent.
\<close>

lemma zero_free_pages_unreported:
  "bufferpool registry v [(lit ''FREEPCT'', CInt 0)] = []"
  by (simp add: bufferpool_def get2_def get_def get_d_Cons cell_or_def int_or_def bufferpool_low_free_pct_def)

end
