(* ===== verification/Match_Miqm.thy ===== *)
theory Match_Miqm
  imports Engine
begin

text \<open>
  \<open>rcs/matchers/miqm.py\<close>: active and standby instances, standby permission, the shared file
  system and failover events of a multi-instance queue manager.
\<close>

text \<open>\<open>\\bAMQ7228\\b|\\bAMQ7230\\b|\\bAMQ7232\\b\<close>.\<close>

definition amq_failover :: rx where
  "amq_failover =
     RAlt (RSeq RWordB (RSeq (RLit (lit ''AMQ7228'')) RWordB))
       (RAlt (RSeq RWordB (RSeq (RLit (lit ''AMQ7230'')) RWordB))
             (RSeq RWordB (RSeq (RLit (lit ''AMQ7232'')) RWordB)))"

record miqm_raw =
  mi_instances :: "row list"
  mi_standby_permitted :: cell
  mi_shared_fs_ok :: cell
  mi_shared_fs_path :: cell
  mi_error_log_tail :: cell

text \<open>\<open>str(i.get("instance_type", i.get("role", ""))).upper() == "ACTIVE"\<close>.\<close>

definition instance_active :: "row \<Rightarrow> bool" where
  "instance_active i \<longleftrightarrow>
     upper (str_cell (get_d i (lit ''instance_type'') (get_d i (lit ''role'') (CStr [])))) = lit ''ACTIVE''"

section \<open>Checks\<close>

definition finding_miqm_no_active :: "row list \<Rightarrow> kc_registry \<Rightarrow> pystr option \<Rightarrow> rcs_finding" where
  "finding_miqm_no_active instances registry mq_version =
    \<lparr> rcs_issue = lit ''MIQM has no ACTIVE instance'',
       rcs_severity = CRITICAL,
       rcs_reason_code = None,
       rcs_amq_code = None,
       root_cause = lit ''Neither configured instance reports ACTIVE. Applications cannot '' @
         lit ''connect until an instance assumes the active role. Check shared filesystem '' @
         lit ''availability and lease renewal on each host.'',
       fix_steps =
         [lit ''dspmq -o standby'',
          lit ''dspmq -x''],
       verify_commands =
         [lit ''dspmq -x''],
       doc_refs = lookup_topic registry (lit ''miqm_troubleshooting'') mq_version,
       rcs_confidence = lit ''High'',
       evidence =
         [(lit ''total_instances'', str_nat (length instances))],
       remediation_steps =
         [\<lparr> rem_scenario = lit ''Start the QM with standby permitted'',
             rem_commands =
               [lit ''# On the primary host:'',
                lit ''strmqm -x QM_NAME'',
                lit ''# On the standby host (after primary is up):'',
                lit ''strmqm -x QM_NAME''],
             rem_notes = lit ''-x enables standby. Confirm shared FS is mounted on both '' @
               lit ''hosts first.'' \<rparr>] \<rparr>"

definition check_no_active :: "row list \<Rightarrow> kc_registry \<Rightarrow> pystr option \<Rightarrow> rcs_finding list" where
  "check_no_active instances registry mq_version =
     (if instances = [] then []
      else if filter instance_active instances \<noteq> [] then []
      else [finding_miqm_no_active instances registry mq_version])"

definition finding_standby_not_permitted :: "kc_registry \<Rightarrow> pystr option \<Rightarrow> rcs_finding" where
  "finding_standby_not_permitted registry mq_version =
    \<lparr> rcs_issue = lit ''MIQM standby instances are not permitted'',
       rcs_severity = HIGH,
       rcs_reason_code = None,
       rcs_amq_code = None,
       root_cause = lit ''The QM was started without `-x` (or STANDBY(NOT PERMITTED) is '' @
         lit ''configured). Failover will not happen automatically '' @ emdash @
         lit '' the active instance is a single point of failure.'',
       fix_steps =
         [lit ''dspmq -o standby''],
       verify_commands =
         [lit ''dspmq -o standby''],
       doc_refs = lookup_topic registry (lit ''miqm_overview'') mq_version,
       rcs_confidence = lit ''High'',
       evidence =
         [(lit ''standby_permitted'', lit ''false'')],
       remediation_steps =
         [\<lparr> rem_scenario = lit ''Restart the QM with -x to permit standby'',
             rem_commands =
               [lit ''endmqm -i QM_NAME'',
                lit ''strmqm -x QM_NAME''],
             rem_notes = lit ''endmqm -i is immediate shutdown; coordinate with '' @
               lit ''applications. Then start the standby on the other host: strmqm -x QM_NAME'' \<rparr>] \<rparr>"

definition check_standby_permission ::
  "bool \<Rightarrow> row list \<Rightarrow> kc_registry \<Rightarrow> pystr option \<Rightarrow> rcs_finding list" where
  "check_standby_permission permitted instances registry mq_version =
     (if permitted \<or> instances = [] then [] else [finding_standby_not_permitted registry mq_version])"

definition finding_dual_active :: "row list \<Rightarrow> pystr \<Rightarrow> kc_registry \<Rightarrow> pystr option \<Rightarrow> rcs_finding" where
  "finding_dual_active actives hosts registry mq_version =
    \<lparr> rcs_issue = lit ''MIQM reports '' @ (str_nat (length actives)) @ lit '' ACTIVE '' @
      lit ''instances ('' @ hosts @ lit '')'',
       rcs_severity = CRITICAL,
       rcs_reason_code = None,
       rcs_amq_code = None,
       root_cause = lit ''Only one MIQM instance can hold the shared-filesystem lock. Two '' @
         lit ''ACTIVE instances usually indicates the shared filesystem lost its lock '' @
         lit ''semantics (NFS misconfiguration, GPFS quorum issue) '' @ emdash @
         lit '' risking message corruption.'',
       fix_steps =
         [lit ''dspmq -x'',
          lit ''dspmq -o standby''],
       verify_commands =
         [lit ''dspmq -x''],
       doc_refs = lookup_topic registry (lit ''miqm_troubleshooting'') mq_version,
       rcs_confidence = lit ''High'',
       evidence =
         [(lit ''active_count'', str_nat (length actives)),
          (lit ''hosts'', hosts)],
       remediation_steps =
         [\<lparr> rem_scenario = lit ''STOP traffic, identify rogue, end one instance'',
             rem_commands =
               [lit ''# 1. Drain upstream load balancer / VIP.'',
                lit ''# 2. On the rogue host (NOT the legitimate active):'',
                lit ''endmqm -i QM_NAME'',
                lit ''# 3. Confirm only ONE instance is active:'',
                lit ''dspmq -x''],
             rem_notes = warning_sign @ lit '' Risk of corruption '' @ emdash @
               lit '' engage IBM Support. The shared FS lock should prevent this; if it '' @
               lit ''didn't, the FS is misconfigured (NFS lease, GPFS quorum).'' \<rparr>] \<rparr>"

definition check_dual_active :: "row list \<Rightarrow> kc_registry \<Rightarrow> pystr option \<Rightarrow> rcs_finding list" where
  "check_dual_active instances registry mq_version =
     (let actives = filter instance_active instances in
      if length actives \<le> 1 then []
      else
        let hosts = join (lit '', '') (map (\<lambda>i. str_cell (get_d i (lit ''host'') (CStr (lit ''?'')))) actives)
        in [finding_dual_active actives hosts registry mq_version])"

definition finding_shared_fs :: "pystr \<Rightarrow> kc_registry \<Rightarrow> pystr option \<Rightarrow> rcs_finding" where
  "finding_shared_fs path registry mq_version =
    \<lparr> rcs_issue = lit ''MIQM shared filesystem health probe failed ('' @
      (por path (lit ''unknown path'')) @ lit '')'',
       rcs_severity = HIGH,
       rcs_reason_code = None,
       rcs_amq_code = None,
       root_cause = lit ''The shared filesystem hosting the QM data + log is unreachable or '' @
         lit ''denying writes. Without it, the active instance will fence itself and '' @
         lit ''standby cannot promote either.'',
       fix_steps =
         [lit ''dspmq -x'',
          lit ''dspmq -o standby''],
       verify_commands =
         [lit ''dspmq -x''],
       doc_refs = lookup_topic registry (lit ''miqm_troubleshooting'') mq_version,
       rcs_confidence = lit ''Medium'',
       evidence =
         [(lit ''path'', path)],
       remediation_steps =
         [\<lparr> rem_scenario = lit ''Verify shared filesystem mount and lock semantics'',
             rem_commands =
               [lit ''# On EACH host:'',
                lit ''mount | grep '' @ squote path,
                lit ''touch '' @ path @ lit ''/.miqm-write-test && rm '' @ path @
                  lit ''/.miqm-write-test'',
                lit ''# NFSv4 lease must be < 90s; GPFS quorum must be intact.''],
             rem_notes = lit ''MIQM requires posix file locks. NFSv3 'soft' mounts break '' @
               lit ''this. Use NFSv4 with 'hard,intr' or GPFS.'' \<rparr>] \<rparr>"

definition check_shared_fs :: "cell \<Rightarrow> miqm_raw \<Rightarrow> kc_registry \<Rightarrow> pystr option \<Rightarrow> rcs_finding list" where
  "check_shared_fs fs_ok raw registry mq_version =
     (if fs_ok = CNone \<or> truthy fs_ok then []
      else [finding_shared_fs (str_cell (cell_or (mi_shared_fs_path raw) (CStr []))) registry mq_version])"

definition finding_failover_history ::
  "(pystr \<times> mstate) list \<Rightarrow> kc_registry \<Rightarrow> pystr option \<Rightarrow> rcs_finding" where
  "finding_failover_history matches registry mq_version =
    \<lparr> rcs_issue = lit ''MIQM error log shows '' @ (str_nat (length matches)) @
      lit '' failover-related event(s)'',
       rcs_severity = MEDIUM,
       rcs_reason_code = None,
       rcs_amq_code = None,
       root_cause = lit ''Recent AMQ7228/AMQ7230/AMQ7232 events indicate the QM '' @
         lit ''transitioned active/standby. Investigate the trigger to ensure the cause is '' @
         lit ''understood (network, FS, planned).'',
       fix_steps =
         [lit ''dspmq -x''],
       verify_commands =
         [lit ''dspmq -x''],
       doc_refs = lookup_topic registry (lit ''miqm_troubleshooting'') mq_version,
       rcs_confidence = lit ''Medium'',
       evidence =
         [(lit ''failover_events'', str_nat (length matches))],
       remediation_steps =
         [\<lparr> rem_scenario = lit ''Investigate the trigger in AMQERR.LOG'',
             rem_commands =
               [lit ''# Read recent AMQERR for context (read-only, safe):'',
                lit ''tail -200 /var/mqm/qmgrs/QM_NAME/errors/AMQERR01.LOG''],
             rem_notes = lit ''Frequent failovers point to flaky network or shared-FS '' @
               lit ''leases. Isolated events are usually benign (planned maintenance).'' \<rparr>] \<rparr>"

definition check_failover_history :: "pystr \<Rightarrow> kc_registry \<Rightarrow> pystr option \<Rightarrow> rcs_finding list" where
  "check_failover_history log_tail registry mq_version =
     (if log_tail = [] \<or> re_search amq_failover log_tail = None then []
      else [finding_failover_history (re_finditer amq_failover log_tail) registry mq_version])"

section \<open>The matcher\<close>

definition match_miqm_findings :: "miqm_raw \<Rightarrow> kc_registry \<Rightarrow> pystr option \<Rightarrow> rcs_finding list" where
  "match_miqm_findings raw registry mq_version =
     (let instances = mi_instances raw;
          permitted = truthy (mi_standby_permitted raw);
          fs_ok = mi_shared_fs_ok raw;
          log_tail = str_cell (cell_or (mi_error_log_tail raw) (CStr []))
      in if instances = [] \<and> fs_ok = CNone \<and> log_tail = [] then []
         else check_no_active instances registry mq_version @
              check_standby_permission permitted instances registry mq_version @
              check_dual_active instances registry mq_version @
              check_shared_fs fs_ok raw registry mq_version @
              check_failover_history log_tail registry mq_version)"

section \<open>Properties\<close>

lemma miqm_shell_steps:
  "shell_step_ok (lit ''dspmq -x'')" "shell_step_ok (lit ''dspmq -o standby'')"
proof -
  have "split_on 32 (lit ''dspmq -x'') = [lit ''dspmq'', lit ''-x'']"
    "split_on 32 (lit ''dspmq -o standby'') = [lit ''dspmq'', lit ''-o'', lit ''standby'']"
    by (simp_all add: lit_def)
  then show "shell_step_ok (lit ''dspmq -x'')" "shell_step_ok (lit ''dspmq -o standby'')"
    by (simp_all add: shell_step_ok_def shell_ok_used)
qed

lemma miqm_shell_only:
  "shell_only_finding (finding_miqm_no_active instances registry v)"
  "shell_only_finding (finding_standby_not_permitted registry v)"
  "shell_only_finding (finding_dual_active actives hosts registry v)"
  "shell_only_finding (finding_shared_fs path registry v)"
  "shell_only_finding (finding_failover_history ms registry v)"
  by (simp_all add: shell_only_finding_def miqm_shell_steps finding_miqm_no_active_def
      finding_standby_not_permitted_def finding_dual_active_def finding_shared_fs_def
      finding_failover_history_def)

text \<open>Every command in the fix steps and verify commands of a multi-instance finding, split at
  its blanks, passes the shell gate, whatever the instance rows and the log contain.\<close>
theorem miqm_commands_pass_shell_gate:
  "list_all shell_only_finding (match_miqm_findings raw registry v)"
  by (simp add: match_miqm_findings_def check_no_active_def check_standby_permission_def
      check_dual_active_def check_shared_fs_def check_failover_history_def miqm_shell_only Let_def)

text \<open>On a non-empty instance list, no active instance and several active instances are each
  reported as CRITICAL, and with exactly one active instance neither is.\<close>
theorem miqm_active_instances:
  "map rcs_severity (check_no_active instances registry v @
    check_dual_active instances registry v) =
     (if instances = [] \<or> length (filter instance_active instances) = 1 then [] else [CRITICAL])"
proof -
  have "rcs_severity (finding_miqm_no_active instances registry v) = CRITICAL"
    "rcs_severity (finding_dual_active actives hosts registry v) = CRITICAL" for actives hosts
    by (simp_all add: finding_miqm_no_active_def finding_dual_active_def)
  moreover have "filter instance_active instances = [] \<longleftrightarrow> length (filter instance_active instances) = 0" by simp
  ultimately show ?thesis
    unfolding check_no_active_def check_dual_active_def Let_def
    by (cases "length (filter instance_active instances)") auto
qed

end
