(* ===== verification/MqscParser.thy ===== *)
theory MqscParser
  imports Regex
begin

text \<open>
  \<open>connectors/mqsc_parser.py\<close>: reply text of an MQSC command to one dictionary per object.
  The index loops of the source are recursions on the rest of the line; \<open>read_value\<close> and
  \<open>parse_attributes\<close> carry the remaining length as their measure.
\<close>

section \<open>Patterns\<close>

text \<open>\<open>^\\s*(?:AMQ\\d{4}[A-Z]:|CSQ[A-Z0-9]\\d{3}[A-Z]\\b)\<close>.\<close>

definition amq_id :: rx where
  "amq_id = RSeq (RLit (lit ''AMQ'')) (RSeq (RRep 4 (RCls is_digit)) (RSeq (RCls is_upper_letter) (RLit (lit '':''))))"

definition csq_id :: rx where
  "csq_id =
     RSeq (RLit (lit ''CSQ'')) (RSeq (RCls (\<lambda>c. is_upper_letter c \<or> is_digit c))
       (RSeq (RRep 3 (RCls is_digit)) (RSeq (RCls is_upper_letter) RWordB)))"

definition message_line :: rx where
  "message_line = RSeq RBos (RSeq (RStar (RCls is_space)) (RAlt amq_id csq_id))"

text \<open>\<open>(?<=\\S)[ \\t]+(?=AMQ\\d{4}[A-Z]:)\<close>.\<close>

definition inline_amq :: rx where
  "inline_amq =
     RSeq (RBehind (\<lambda>c. \<not> is_space c)) (RSeq (RPlus (RCls (\<lambda>c. c = 32 \<or> c = 9))) (RAhead amq_id))"

text \<open>\<open>[A-Z][A-Z0-9_]*\<close> at the front of a text: the key and what follows it.\<close>

definition key_char :: "nat \<Rightarrow> bool" where
  "key_char c \<longleftrightarrow> is_upper_letter c \<or> is_digit c \<or> c = 95"

definition match_key :: "pystr \<Rightarrow> (pystr \<times> pystr) option" where
  "match_key s =
     (case s of
        [] \<Rightarrow> None
      | c # _ \<Rightarrow> if is_upper_letter c then Some (takeWhile key_char s, dropWhile key_char s) else None)"

section \<open>Values\<close>

text \<open>
  From just after an opening quote: the quoted text up to and including its closing quote,
  and the rest. Two quotes in a row are an escaped quote; an unterminated string takes the
  rest of the line.
\<close>

fun read_quoted :: "pystr \<Rightarrow> pystr \<times> pystr" where
  "read_quoted [] = ([], [])"
| "read_quoted [c] = ([c], [])"
| "read_quoted (c # d # s) =
     (if c = 39 then
        (if d = 39 then (39 # 39 # fst (read_quoted s), snd (read_quoted s)) else ([39], d # s))
      else (c # fst (read_quoted (d # s)), snd (read_quoted (d # s))))"

lemma read_quoted_split: "fst (read_quoted s) @ snd (read_quoted s) = s"
  by (induction s rule: read_quoted.induct) simp_all

lemma read_quoted_length: "length (snd (read_quoted s)) \<le> length s"
  by (metis read_quoted_split length_append le_add2)

text \<open>\<open>_read_value\<close>: \<open>depth\<close> counts the open parentheses, \<open>out\<close> is the text read so far.\<close>

function read_value_from :: "nat \<Rightarrow> pystr \<Rightarrow> pystr \<Rightarrow> pystr \<times> pystr" where
  "read_value_from depth out [] = (strip out, [])"
| "read_value_from depth out (c # s) =
     (if c = 39 then read_value_from depth (out @ 39 # fst (read_quoted s)) (snd (read_quoted s))
      else if c = 40 then read_value_from (depth + 1) (out @ [c]) s
      else if c = 41 then
        (if depth - 1 = 0 then (strip out, s) else read_value_from (depth - 1) (out @ [c]) s)
      else read_value_from depth (out @ [c]) s)"
  by pat_completeness auto
termination
  by (relation "measure (\<lambda>(depth, out, s). length s)") (auto simp: read_quoted_length le_imp_less_Suc)

definition read_value :: "pystr \<Rightarrow> pystr \<times> pystr" where
  "read_value s = read_value_from 1 [] s"

lemma read_value_from_length: "length (snd (read_value_from depth out s)) \<le> length s"
proof (induction depth out s rule: read_value_from.induct)
  case (2 depth out c s)
  then show ?case
    using read_quoted_length [of s] by (auto simp: le_SucI intro: le_trans)
qed simp

section \<open>Attributes\<close>

text \<open>
  \<open>_parse_attributes\<close> from the current position with the attributes so far. \<open>skip_token\<close> is
  the inner loop that skips to the next white space.
\<close>

definition skip_token :: "pystr \<Rightarrow> pystr" where
  "skip_token s = dropWhile (\<lambda>c. \<not> is_space c) s"

definition attribute_token :: "bool \<Rightarrow> pystr \<Rightarrow> bool" where
  "attribute_token pairs_only s =
     (case match_key s of
        None \<Rightarrow> False
      | Some (_, rest) \<Rightarrow>
          \<not> (rest \<noteq> [] \<and> hd rest \<noteq> 40 \<and> \<not> is_space (hd rest)) \<and>
          \<not> (pairs_only \<and> \<not> (rest \<noteq> [] \<and> hd rest = 40)))"

function parse_attributes_from :: "bool \<Rightarrow> pystr pydict \<Rightarrow> pystr \<Rightarrow> pystr pydict" where
  "parse_attributes_from pairs_only attrs [] = attrs"
| "parse_attributes_from pairs_only attrs (c # s) =
     (if is_space c then parse_attributes_from pairs_only attrs s
      else if \<not> attribute_token pairs_only (c # s) then
        (if attrs = [] \<and> \<not> pairs_only then []
         else parse_attributes_from pairs_only attrs (skip_token s))
      else
        (let key = takeWhile key_char (c # s); rest = dropWhile key_char s in
         if rest \<noteq> [] \<and> hd rest = 40
         then parse_attributes_from pairs_only (dict_set key (fst (read_value (tl rest))) attrs)
                (snd (read_value (tl rest)))
         else parse_attributes_from pairs_only (dict_set key [] attrs) rest))"
  by pat_completeness auto
termination
proof (relation "measure (\<lambda>(pairs_only, attrs, s). length s)", goal_cases)
  case 1
  then show ?case by simp
next
  case (2 pairs_only attrs c s)
  then show ?case by simp
next
  case (3 pairs_only attrs c s)
  then show ?case by (simp add: skip_token_def length_dropWhile_le le_imp_less_Suc)
next
  case (4 pairs_only attrs c s key rest)
  have "length (snd (read_value (tl rest))) \<le> length (tl rest)"
    unfolding read_value_def by (rule read_value_from_length)
  also have "\<dots> \<le> length rest" by simp
  also have "\<dots> \<le> length s" using 4 by (simp add: length_dropWhile_le)
  finally show ?case by simp
next
  case (5 pairs_only attrs c s key rest)
  then show ?case by (simp add: length_dropWhile_le le_imp_less_Suc)
qed

definition parse_attributes :: "bool \<Rightarrow> pystr \<Rightarrow> pystr pydict" where
  "parse_attributes pairs_only line = parse_attributes_from pairs_only [] line"

section \<open>Replies\<close>

definition is_message_line :: "pystr \<Rightarrow> bool" where
  "is_message_line line \<longleftrightarrow> re_match message_line line \<noteq> None"

text \<open>\<open>rows.append(current)\<close> when the current dictionary is neither \<open>None\<close> nor empty.\<close>

definition flush_row :: "pystr pydict option \<Rightarrow> pystr pydict list" where
  "flush_row current = (case current of None \<Rightarrow> [] | Some d \<Rightarrow> if d = [] then [] else [d])"

fun parse_lines :: "pystr pydict option \<Rightarrow> pystr list \<Rightarrow> pystr pydict list" where
  "parse_lines current [] = flush_row current"
| "parse_lines current (line # lines) =
     (if is_message_line line then
        flush_row current @ parse_lines (Some (parse_attributes True line)) lines
      else
        (case current of
           None \<Rightarrow> parse_lines None lines
         | Some d \<Rightarrow> parse_lines (Some (dict_update d (parse_attributes False line))) lines))"

definition parse_mqsc_reply :: "pystr \<Rightarrow> pystr pydict list" where
  "parse_mqsc_reply text = parse_lines None (splitlines (re_sub (\<lambda>_. newline) inline_amq text))"

definition message_ids :: "pystr \<Rightarrow> pystr list" where
  "message_ids text =
     map (\<lambda>line. hd (split_ws (before 58 (strip line)))) (filter is_message_line (splitlines text))"

section \<open>Where keys and values come from\<close>

lemma read_quoted_sets: "set (fst (read_quoted s)) \<subseteq> set s" "set (snd (read_quoted s)) \<subseteq> set s"
  by (metis read_quoted_split set_append sup_ge1, metis read_quoted_split set_append sup_ge2)

lemma read_value_from_sets:
  "set (fst (read_value_from depth out s)) \<subseteq> set out \<union> set s \<and>
   set (snd (read_value_from depth out s)) \<subseteq> set s"
proof (induction depth out s rule: read_value_from.induct)
  case (1 depth out)
  then show ?case using set_strip by auto
next
  case (2 depth out c s)
  show ?case
  proof (cases "c = 39")
    case True
    with 2(1) read_quoted_sets [of s] show ?thesis by auto
  next
    case False
    with 2(2-4) set_strip [of out] show ?thesis by auto
  qed
qed

lemma read_value_sets: "set (fst (read_value s)) \<subseteq> set s" "set (snd (read_value s)) \<subseteq> set s"
  using read_value_from_sets [of 1 "[]" s] by (simp_all add: read_value_def)

definition key_ok :: "pystr \<Rightarrow> bool" where
  "key_ok k \<longleftrightarrow> k \<noteq> [] \<and> is_upper_letter (hd k) \<and> list_all key_char k"

definition attrs_ok :: "nat set \<Rightarrow> pystr pydict \<Rightarrow> bool" where
  "attrs_ok A d \<longleftrightarrow> distinct (map fst d) \<and> list_all (\<lambda>(k, v). key_ok k \<and> set v \<subseteq> A) d"

lemma attrs_ok_Nil [simp]: "attrs_ok A []"
  by (simp add: attrs_ok_def)

lemma mem_dict_set: "kv \<in> set (dict_set k v d) \<Longrightarrow> kv = (k, v) \<or> kv \<in> set d"
  by (induction k v d rule: dict_set.induct) (auto split: if_splits)

lemma attrs_ok_set: "attrs_ok A d \<Longrightarrow> key_ok k \<Longrightarrow> set v \<subseteq> A \<Longrightarrow> attrs_ok A (dict_set k v d)"
  unfolding attrs_ok_def list_all_iff
  by (intro conjI ballI) (auto simp: distinct_dict_set dest!: mem_dict_set)

lemma attrs_ok_update: "attrs_ok A d \<Longrightarrow> attrs_ok A e \<Longrightarrow> attrs_ok A (dict_update d e)"
proof -
  have "list_all (\<lambda>(k, v). key_ok k \<and> set v \<subseteq> A) e \<Longrightarrow> attrs_ok A d \<Longrightarrow> attrs_ok A (dict_update d e)" for d
    unfolding dict_update_def
    by (induction e arbitrary: d) (auto simp: attrs_ok_set)
  then show "attrs_ok A d \<Longrightarrow> attrs_ok A e \<Longrightarrow> ?thesis" by (simp add: attrs_ok_def)
qed

lemma is_upper_letter_key_char: "is_upper_letter c \<Longrightarrow> key_char c"
  by (simp add: key_char_def)

lemma set_dropWhile_sub: "set (dropWhile P s) \<subseteq> set s"
  by (rule subsetI) (erule set_dropWhileD)

lemma attribute_token_upper: "attribute_token p (c # s) \<Longrightarrow> is_upper_letter c"
  by (simp add: attribute_token_def match_key_def split: if_splits)

lemma key_ok_takeWhile: "is_upper_letter c \<Longrightarrow> key_ok (takeWhile key_char (c # s))"
  by (auto simp: key_ok_def is_upper_letter_key_char list_all_iff dest: set_takeWhileD)

lemma parse_attributes_from_ok:
  "attrs_ok A attrs \<Longrightarrow> set s \<subseteq> A \<Longrightarrow> attrs_ok A (parse_attributes_from pairs_only attrs s)"
proof (induction pairs_only attrs s rule: parse_attributes_from.induct)
  case (1 pairs_only attrs)
  then show ?case by simp
next
  case (2 pairs_only attrs c s)
  show ?case
  proof (cases "is_space c \<or> \<not> attribute_token pairs_only (c # s)")
    case True
    have "set (skip_token s) \<subseteq> A"
      using 2(6) set_dropWhile_sub unfolding skip_token_def by fastforce
    with True 2 show ?thesis by auto
  next
    case False
    let ?key = "takeWhile key_char (c # s)" and ?rest = "dropWhile key_char s"
    have up: "is_upper_letter c" using False attribute_token_upper by blast
    have key: "key_ok ?key" using up by (rule key_ok_takeWhile)
    have rest: "set ?rest \<subseteq> A" using 2(6) set_dropWhile_sub by fastforce
    show ?thesis
    proof (cases "?rest \<noteq> [] \<and> hd ?rest = 40")
      case True
      then have tl: "set (tl ?rest) \<subseteq> A" using rest by (meson list.set_sel(2) subset_iff)
      have "attrs_ok A (dict_set ?key (fst (read_value (tl ?rest))) attrs)"
        using attrs_ok_set [OF 2(5) key] read_value_sets(1) tl by blast
      moreover have "set (snd (read_value (tl ?rest))) \<subseteq> A"
        using read_value_sets(2) tl by blast
      ultimately show ?thesis using 2(3) [OF _ _ refl refl True] False True
        by (simp add: Let_def del: dropWhile_eq_Nil_conv takeWhile.simps dropWhile.simps)
    next
      case nopair: False
      have "attrs_ok A (dict_set ?key [] attrs)" using attrs_ok_set [OF 2(5) key] by simp
      with rest show ?thesis using 2(4) [OF _ _ refl refl nopair] False nopair
        by (auto simp add: Let_def simp del: dropWhile_eq_Nil_conv takeWhile.simps dropWhile.simps)
    qed
  qed
qed

lemma parse_attributes_ok: "set line \<subseteq> A \<Longrightarrow> attrs_ok A (parse_attributes pairs_only line)"
  unfolding parse_attributes_def by (rule parse_attributes_from_ok) simp_all

lemma parse_lines_ok:
  assumes "\<And>line. line \<in> set lines \<Longrightarrow> set line \<subseteq> A" and "\<And>d. current = Some d \<Longrightarrow> attrs_ok A d"
  shows "list_all (\<lambda>d. d \<noteq> [] \<and> attrs_ok A d) (parse_lines current lines)"
  using assms
proof (induction current lines rule: parse_lines.induct)
  case (1 current)
  then show ?case by (auto simp: flush_row_def split: option.splits)
next
  case (2 current line lines)
  have line: "attrs_ok A (parse_attributes p line)" for p
    using 2(4) by (simp add: parse_attributes_ok)
  show ?case
  proof (cases "is_message_line line")
    case True
    with 2(1) 2(4,5) line show ?thesis by (auto simp: flush_row_def split: option.splits)
  next
    case False
    show ?thesis
    proof (cases current)
      case None
      with False 2(2) 2(4) show ?thesis by simp
    next
      case (Some d)
      with False 2(3) 2(4,5) line show ?thesis by (simp add: attrs_ok_update)
    qed
  qed
qed

text \<open>What the reply text contributes to values: no line boundary, nothing else is added.\<close>

definition reply_chars :: "pystr \<Rightarrow> nat set" where
  "reply_chars text = {c \<in> set text. \<not> is_linebreak c}"

lemma reply_line_chars:
  assumes "l \<in> set (splitlines (re_sub (\<lambda>_. newline) r text))"
  shows "set l \<subseteq> reply_chars text"
proof
  fix c
  assume c: "c \<in> set l"
  from splitlines_no_break [OF assms] c
  have nb: "\<not> is_linebreak c" and mem: "c \<in> set (re_sub (\<lambda>_. newline) r text)" by auto
  have "c \<in> set text \<or> c = 10" using mem set_re_sub_const [of newline r "text"] by auto
  moreover have "is_linebreak 10" by (simp add: is_linebreak_def)
  ultimately show "c \<in> reply_chars text" using nb by (auto simp: reply_chars_def)
qed

lemma parse_mqsc_reply_ok:
  "list_all (\<lambda>d. d \<noteq> [] \<and> attrs_ok (reply_chars text) d) (parse_mqsc_reply text)"
  unfolding parse_mqsc_reply_def by (rule parse_lines_ok) (simp_all add: reply_line_chars)

section \<open>Printing and parsing\<close>

text \<open>
  The shape of a reply: each object is a message line followed by its attributes on one
  indented line.
\<close>

definition render_pair :: "pystr \<times> pystr \<Rightarrow> pystr" where
  "render_pair kv = lit ''  '' @ fst kv @ lit ''('' @ snd kv @ lit '')''"

definition render_row :: "pystr pydict \<Rightarrow> pystr" where
  "render_row d = concat (map render_pair d)"

definition details_line :: pystr where
  "details_line = lit ''AMQ8417I: Display Channel Status details.''"

definition render_reply :: "pystr pydict list \<Rightarrow> pystr" where
  "render_reply rows =
     concat (map (\<lambda>l. l @ newline) (concat (map (\<lambda>d. [details_line, render_row d]) rows)))"

text \<open>
  Values that can be printed bare: trimmed, with balanced parentheses and without quotes,
  colons and line boundaries. \<open>depth_after d v\<close> is the number of open parentheses after \<open>v\<close>.
\<close>

fun depth_after :: "nat \<Rightarrow> pystr \<Rightarrow> nat option" where
  "depth_after d [] = Some d"
| "depth_after d (c # v) =
     (if c = 40 then depth_after (d + 1) v
      else if c = 41 then (if d - 1 = 0 then None else depth_after (d - 1) v)
      else depth_after d v)"

definition value_ok :: "pystr \<Rightarrow> bool" where
  "value_ok v \<longleftrightarrow>
     strip v = v \<and> depth_after 1 v = Some 1 \<and> 39 \<notin> set v \<and> 58 \<notin> set v \<and> list_all (\<lambda>c. \<not> is_linebreak c) v"

definition row_ok :: "pystr pydict \<Rightarrow> bool" where
  "row_ok d \<longleftrightarrow>
     d \<noteq> [] \<and> distinct (map fst d) \<and> \<not> prefix (lit ''CSQ'') (fst (hd d)) \<and>
     list_all (\<lambda>kv. key_ok (fst kv) \<and> value_ok (snd kv)) d"

lemma read_value_balanced:
  "depth_after d v = Some d' \<Longrightarrow> 39 \<notin> set v \<Longrightarrow>
     read_value_from d out (v @ s) = read_value_from d' (out @ v) s"
  by (induction d v arbitrary: out rule: depth_after.induct) (auto split: if_splits)

lemma read_value_ok: "value_ok v \<Longrightarrow> read_value (v @ 41 # s) = (v, s)"
  using read_value_balanced [of 1 v 1 "[]" "41 # s"] by (simp add: value_ok_def read_value_def)

lemma key_char_not_space: "key_char c \<Longrightarrow> \<not> is_space c"
  by (auto simp: key_char_def is_upper_letter_def is_digit_def is_space_def)

lemma key_scan:
  assumes "key_ok k"
  shows "takeWhile key_char (k @ 40 # r) = k" "dropWhile key_char (k @ 40 # r) = 40 # r"
proof -
  have "\<not> key_char 40" by (simp add: key_char_def is_upper_letter_def is_digit_def)
  with assms show "takeWhile key_char (k @ 40 # r) = k" "dropWhile key_char (k @ 40 # r) = 40 # r"
    by (auto simp: key_ok_def list_all_iff takeWhile_append dropWhile_append takeWhile_idem_if_all
        dropWhile_Nil_iff)
qed

lemma parse_pair:
  assumes k: "key_ok k" and v: "value_ok v"
  shows "parse_attributes_from p attrs (render_pair (k, v) @ s) = parse_attributes_from p (dict_set k v attrs) s"
proof -
  obtain c k' where kc: "k = c # k'" using k by (cases k) (auto simp: key_ok_def)
  have up: "is_upper_letter c" using k kc by (simp add: key_ok_def)
  then have c: "key_char c" "\<not> is_space c" by (simp_all add: is_upper_letter_key_char key_char_not_space)
  have kt: "takeWhile key_char (c # k' @ 40 # v @ 41 # s) = k"
    and kd: "dropWhile key_char (k' @ 40 # v @ 41 # s) = 40 # v @ 41 # s"
    using key_scan [OF k, of "v @ 41 # s"] c by (simp_all add: kc)
  have kd': "dropWhile key_char (c # k' @ 40 # v @ 41 # s) = 40 # v @ 41 # s"
    using kd c by simp
  have tok: "attribute_token p (c # k' @ 40 # v @ 41 # s)"
    unfolding attribute_token_def match_key_def list.case
    by (simp only: up if_True option.case prod.case kd' list.sel) simp
  have sp: "is_space 32" by (simp add: is_space_def)
  have "render_pair (k, v) @ s = 32 # 32 # c # k' @ 40 # v @ 41 # s"
    by (simp add: render_pair_def kc) (simp add: lit_def)
  then have "parse_attributes_from p attrs (render_pair (k, v) @ s) =
      parse_attributes_from p attrs (c # k' @ 40 # v @ 41 # s)"
    using sp by simp
  also have "\<dots> = parse_attributes_from p (dict_set k v attrs) s"
    by (subst parse_attributes_from.simps(2))
      (simp only: c tok if_False if_True not_True_eq_False kt kd Let_def list.sel list.distinct
        not_False_eq_True simp_thms read_value_ok [OF v] fst_conv snd_conv)
  finally show ?thesis .
qed

lemma parse_row:
  assumes "list_all (\<lambda>kv. key_ok (fst kv) \<and> value_ok (snd kv)) d"
  shows "parse_attributes_from p attrs (render_row d) = dict_update attrs d"
  using assms
proof (induction d arbitrary: attrs)
  case Nil
  then show ?case by (simp add: render_row_def dict_update_def)
next
  case (Cons kv d)
  obtain k v where kv: "kv = (k, v)" by force
  with Cons parse_pair [of k v p attrs "render_row d"] show ?case
    by (simp add: render_row_def dict_update_def)
qed

lemma parse_row_ok: "row_ok d \<Longrightarrow> parse_attributes False (render_row d) = d"
  by (simp add: row_ok_def parse_attributes_def parse_row dict_update_new)

section \<open>Lines of a reply\<close>

text \<open>No message id starts inside a quiet line.\<close>

definition quiet_line :: "pystr \<Rightarrow> bool" where
  "quiet_line l \<longleftrightarrow> 10 \<notin> set l \<and> (\<forall>x c y. l = x @ c # y \<longrightarrow> c = 32 \<or> c = 9 \<longrightarrow> 58 \<notin> set y)"

lemma amq_id_no_newline: "rx_rel amq_id b w a \<Longrightarrow> 58 \<in> set w \<and> 10 \<notin> set w"
proof
  assume m: "rx_rel amq_id b w a"
  have "rx_must amq_id 58" by (simp add: amq_id_def rx_must_RLit lit_def)
  with m show "58 \<in> set w" by (rule rx_rel_must)
  have "\<not> rx_may amq_id 10"
    by (simp add: amq_id_def lit_def is_digit_def is_upper_letter_def)
  with m show "10 \<notin> set w" using rx_rel_may by blast
qed

lemma split_at_line:
  "l @ 10 # t = x @ c # y \<Longrightarrow> c \<noteq> 10 \<Longrightarrow> (\<exists>y'. l = x @ c # y' \<and> y = y' @ 10 # t) \<or> (\<exists>x'. t = x' @ c # y)"
  by (auto simp: append_eq_append_conv2 append_eq_Cons_conv Cons_eq_append_conv)

lemma inline_free:
  assumes "\<And>l. l \<in> set ls \<Longrightarrow> quiet_line l"
    and "concat (map (\<lambda>l. l @ [10]) ls) = x @ c # y" "c = 32 \<or> c = 9" "y = w @ a" "58 \<in> set w" "10 \<notin> set w"
  shows False
  using assms
proof (induction ls arbitrary: x)
  case Nil
  then show ?case by simp
next
  case (Cons l ls)
  let ?t = "concat (map (\<lambda>l. l @ [10]) ls)"
  have "l @ 10 # ?t = x @ c # y" using Cons.prems(2) by simp
  then consider y' where "l = x @ c # y'" "y = y' @ 10 # ?t" | x' where "?t = x' @ c # y"
    using split_at_line [of l ?t x c y] Cons.prems(3) by auto
  then show ?case
  proof cases
    case 1
    have "58 \<notin> set y'"
      using Cons.prems(1) [of l] 1(1) Cons.prems(3) unfolding quiet_line_def by auto
    moreover have "w @ a = y' @ 10 # ?t" using 1(2) Cons.prems(4) by simp
    then have "set w \<subseteq> set y'"
      using Cons.prems(6) by (auto simp: append_eq_append_conv2 append_eq_Cons_conv)
    ultimately show False using Cons.prems(5) by blast
  next
    case 2
    with Cons show False by auto
  qed
qed

lemma rel_star_cls: "rx_rel (RStar (RCls P)) b w a \<Longrightarrow> \<forall>c \<in> set w. P c"
  using rx_rel_may by fastforce

lemma inline_sub_quiet:
  assumes "\<And>l. l \<in> set ls \<Longrightarrow> quiet_line l"
  shows "re_sub f inline_amq (concat (map (\<lambda>l. l @ [10]) ls)) = concat (map (\<lambda>l. l @ [10]) ls)"
  unfolding re_sub_def
proof (rule sub_from_free, unfold rx_free_def, intro allI impI notI)
  fix u w v
  assume t: "concat (map (\<lambda>l. l @ [10]) ls) = u @ w @ v" and ne: "w \<noteq> []"
    and m: "rx_rel inline_amq (rev u @ []) w v"
  let ?blank = "\<lambda>c. c = 32 \<or> (c :: nat) = 9"
  have w: "\<forall>c \<in> set w. ?blank c"
    using rx_rel_may [OF m] by (auto simp: inline_amq_def)
  from m obtain b where "rx_rel (RAhead amq_id) b [] v"
    by (auto simp: inline_amq_def rel_seq_iff elim: rx_rel_cases)
  then obtain w' a' where v: "v = w' @ a'" "rx_rel amq_id b w' a'" by (auto elim: rx_rel_cases)
  have "w = butlast w @ [last w]" using ne by simp
  then have "concat (map (\<lambda>l. l @ [10]) ls) = (u @ butlast w) @ last w # v"
    using t by (metis append.assoc append_Cons append_Nil)
  from inline_free [OF assms this _ v(1)] w ne amq_id_no_newline [OF v(2)] show False by auto
qed

section \<open>Attribute lines are not message lines\<close>

lemma csq_id_start: "rx_rel csq_id b w a \<Longrightarrow> prefix (lit ''CSQ'') w"
  by (auto simp: csq_id_def rel_seq_iff lit_def)

lemma render_row_chars: "row_ok d \<Longrightarrow> 58 \<notin> set (render_row d) \<and> list_all (\<lambda>c. \<not> is_linebreak c) (render_row d)"
proof -
  assume "row_ok d"
  then have ok: "list_all (\<lambda>kv. key_ok (fst kv) \<and> value_ok (snd kv)) d" by (simp add: row_ok_def)
  have key: "c \<noteq> 58 \<and> \<not> is_linebreak c" if "key_char c" for c
    using that by (auto simp: key_char_def is_upper_letter_def is_digit_def is_linebreak_def)
  have pair: "\<forall>c \<in> set (render_pair kv). c \<noteq> 58 \<and> \<not> is_linebreak c"
    if "key_ok (fst kv)" "value_ok (snd kv)" for kv
    using that key by (auto simp: render_pair_def key_ok_def value_ok_def list_all_iff)
      (auto simp: lit_def is_linebreak_def)
  with ok show ?thesis by (auto simp: render_row_def list_all_iff)
qed

lemma render_row_not_message:
  assumes "row_ok d"
  shows "\<not> is_message_line (render_row d)"
proof
  assume "is_message_line (render_row d)"
  then obtain w a where t: "render_row d = w @ a" and m: "rx_rel message_line [] w a"
    unfolding is_message_line_def using re_match_Some_iff [of message_line "render_row d"] by auto
  from m obtain b w1 w2 where w: "w = w1 @ w2" and sp: "\<forall>c \<in> set w1. is_space c"
    and alt: "rx_rel amq_id b w2 a \<or> rx_rel csq_id b w2 a"
    by (auto simp: message_line_def rel_seq_iff rel_alt_iff dest!: rel_star_cls)
  have no58: "58 \<notin> set w2" using render_row_chars [OF assms] t w by simp
  with alt have "prefix (lit ''CSQ'') w2" using amq_id_no_newline csq_id_start by blast
  then obtain r where r: "w2 @ a = lit ''CSQ'' @ r" by (auto simp: prefix_def)
  obtain k v d' where d: "d = (k, v) # d'" using assms by (cases d) (auto simp: row_ok_def)
  have k: "key_ok k" "\<not> prefix (lit ''CSQ'') k" using assms by (simp_all add: row_ok_def d)
  obtain c k' where kc: "k = c # k'" using k(1) by (cases k) (auto simp: key_ok_def)
  have lits: "lit ''  '' = [32, 32]" "lit ''('' = [40]" "lit '')'' = [41]" "is_space 32"
    by (simp_all add: lit_def is_space_def)
  have "\<not> is_space c" using k(1) by (auto simp: key_ok_def kc key_char_not_space)
  then have "dropWhile is_space (render_row d) = k @ 40 # v @ 41 # render_row d'"
    using lits by (simp add: d render_row_def render_pair_def kc)
  moreover have "dropWhile is_space (render_row d) = lit ''CSQ'' @ r"
    unfolding t w append_assoc r using sp by (simp add: dropWhile_append2) (simp add: lit_def is_space_def)
  ultimately have eq: "k @ 40 # v @ 41 # render_row d' = lit ''CSQ'' @ r" by simp
  have "40 \<notin> set (lit ''CSQ'')" by (simp add: lit_def)
  from eq consider us where "k = lit ''CSQ'' @ us"
    | us where "k @ us = lit ''CSQ''" "40 # v @ 41 # render_row d' = us @ r"
    unfolding append_eq_append_conv2 by metis
  then show False
  proof cases
    case 1
    with k(2) show False by simp
  next
    case 2
    have "set us \<subseteq> set (lit ''CSQ'')" unfolding 2(1) [symmetric] by simp
    with 2 k(2) \<open>40 \<notin> set (lit ''CSQ'')\<close> show False by (cases us) auto
  qed
qed

lemma suffix_after: "p @ q = x @ c # y \<Longrightarrow> c \<notin> set p \<Longrightarrow> set y \<subseteq> set q"
  by (auto simp: append_eq_append_conv2 append_eq_Cons_conv Cons_eq_append_conv)

lemma details_line_facts:
  "is_message_line details_line" "quiet_line details_line" "parse_attributes True details_line = []"
  "list_all (\<lambda>c. \<not> is_linebreak c) details_line"
proof -
  show "is_message_line details_line"
    by (simp add: is_message_line_def details_line_def message_line_def amq_id_def csq_id_def rx_eval
        numeral_eq_Suc del: rx_star_fuel)
  show "list_all (\<lambda>c. \<not> is_linebreak c) details_line"
    by (simp add: details_line_def lit_def is_linebreak_def)
  show "parse_attributes True details_line = []"
    by (simp add: parse_attributes_def details_line_def lit_def is_space_def attribute_token_def match_key_def
        is_upper_letter_def key_char_def is_digit_def skip_token_def)
  have "58 \<notin> set y" if "details_line = x @ c # y" "c = 32 \<or> c = 9" for x c y
  proof -
    have "details_line = lit ''AMQ8417I:'' @ lit '' Display Channel Status details.''"
      unfolding details_line_def by (simp add: lit_append [symmetric])
    moreover have "c \<notin> set (lit ''AMQ8417I:'')" using that(2) by (auto simp: lit_def)
    ultimately have "set y \<subseteq> set (lit '' Display Channel Status details.'')"
      using that(1) suffix_after by metis
    then show ?thesis by (auto simp: lit_def)
  qed
  moreover have "10 \<notin> set details_line" by (simp add: details_line_def lit_def)
  ultimately show "quiet_line details_line" unfolding quiet_line_def by blast
qed

lemma render_row_quiet: "row_ok d \<Longrightarrow> quiet_line (render_row d)"
  unfolding quiet_line_def
proof (intro conjI allI impI)
  assume "row_ok d"
  note chars = render_row_chars [OF this]
  have "is_linebreak 10" by (simp add: is_linebreak_def)
  with chars show "10 \<notin> set (render_row d)" by (auto simp: list_all_iff)
  fix x c y
  assume "render_row d = x @ c # y"
  with chars show "58 \<notin> set y" by simp
qed

lemma parse_lines_rendered:
  assumes "list_all row_ok rows"
  shows "parse_lines current (concat (map (\<lambda>d. [details_line, render_row d]) rows)) =
    (if rows = [] then flush_row current else flush_row current @ rows)"
  using assms
proof (induction rows arbitrary: current)
  case Nil
  then show ?case by simp
next
  case (Cons d rows)
  then have d: "row_ok d" by simp
  from Cons.prems have "d \<noteq> []" by (simp add: row_ok_def)
  moreover have "dict_update [] d = d" using d by (simp add: row_ok_def dict_update_new)
  ultimately show ?case
    using Cons.IH [of "Some d"] Cons.prems d
    by (simp add: details_line_facts render_row_not_message parse_row_ok flush_row_def)
qed

section \<open>Properties\<close>

text \<open>C23: Parsing inverts printing: a reply that prints each object as a message line and a line of
  KEY(VALUE) attributes is parsed back to exactly these objects, in order, with their attributes in
  order, for all values without quotes, colons and line breaks whose parentheses are balanced
  (nested ones such as CONNAME(10.0.0.42(1414)) included).\<close>
theorem reply_round_trip:
  assumes "list_all row_ok rows"
  shows "parse_mqsc_reply (render_reply rows) = rows"
proof -
  let ?ls = "concat (map (\<lambda>d. [details_line, render_row d]) rows)"
  have "quiet_line l" and "\<forall>c \<in> set l. \<not> is_linebreak c" if "l \<in> set ?ls" for l
  proof -
    from that consider "l = details_line" | d where "d \<in> set rows" "l = render_row d"
      by (auto split: if_splits)
    then have "quiet_line l \<and> (\<forall>c \<in> set l. \<not> is_linebreak c)"
    proof cases
      case 1
      then show ?thesis using details_line_facts by (simp add: list_all_iff)
    next
      case 2
      then have "row_ok d" using assms by (simp add: list_all_iff)
      with 2 render_row_quiet render_row_chars [of d] show ?thesis by (simp add: list_all_iff)
    qed
    then show "quiet_line l" and "\<forall>c \<in> set l. \<not> is_linebreak c" by blast+
  qed
  then have "parse_mqsc_reply (render_reply rows) = parse_lines None ?ls"
    unfolding parse_mqsc_reply_def render_reply_def
    by (subst inline_sub_quiet) (blast, subst splitlines_unlines, blast+)
  then show ?thesis
    using parse_lines_rendered [OF assms, of None] by (auto simp: flush_row_def)
qed

definition sample_row :: "pystr pydict" where
  "sample_row =
     [(lit ''CHANNEL'', lit ''APP.SVRCONN''), (lit ''CONNAME'', lit ''10.0.0.42(1414)''),
      (lit ''CURRENT'', []), (lit ''STATUS'', lit ''RETRYING'')]"

lemma sample_row_ok: "row_ok sample_row"
  by (simp add: row_ok_def sample_row_def key_ok_def value_ok_def lit_def key_char_def is_upper_letter_def
      is_digit_def is_linebreak_def strip_def lstrip_def rstrip_def is_space_def)

lemma reply_round_trip_witness: "parse_mqsc_reply (render_reply [sample_row, sample_row]) = [sample_row, sample_row]"
  by (rule reply_round_trip) (simp add: sample_row_ok)

text \<open>C40: Whatever text a queue manager replies, every parsed object has at least one attribute,
  its keys are distinct and match the key pattern, and its values are made of characters of the
  reply that are not line boundaries.\<close>
theorem parsed_rows_wellformed:
  "list_all (\<lambda>d. d \<noteq> [] \<and> distinct (map fst d) \<and>
     list_all (\<lambda>(k, v). key_ok k \<and> set v \<subseteq> {c \<in> set reply. \<not> is_linebreak c}) d)
   (parse_mqsc_reply reply)"
  using parse_mqsc_reply_ok [of reply]
  by (simp add: attrs_ok_def reply_chars_def list_all_iff)

end
