(* ===== verification/Connectors.thy ===== *)
theory Connectors
  imports Connector_Base MqscParser
begin

text \<open>
  \<open>connectors/fixture.py\<close> and \<open>connectors/pymqi_connector.py\<close>: the recorded connector and
  the live one, as interpretations of \<open>mq_connector\<close>. The recorded replies are a record of
  lookups by file name (the parsed JSON). The IBM client library, the operating system and
  the hash function are the record \<open>mq_env\<close>; their answers may depend on the trace so far.
\<close>

section \<open>The fixture connector\<close>

record mqsc_fixture =
  mf_rows :: "pystr pydict list option"
  mf_raw :: "pystr option"
  mf_reason_code :: "int option"
  mf_completion_code :: "int option"

record dlq_fixture =
  df_headers :: "row list option"
  df_queue_depth :: "cell option"

record fixture_files =
  ff_dir :: pystr
  ff_exists :: bool
  ff_mqsc :: "pystr \<Rightarrow> mqsc_fixture option"
  ff_shell :: "pystr \<Rightarrow> pystr option"
  ff_dlq :: "pystr \<Rightarrow> dlq_fixture option"

record fixture_state =
  fx_connected :: bool
  fx_qm :: "pystr option"
  fx_trace :: "event list"

definition fixture_init :: fixture_state where
  "fixture_init = \<lparr> fx_connected = False, fx_qm = None, fx_trace = [] \<rparr>"

definition not_connected :: exn where
  "not_connected = MQConnectionError (lit ''not connected'')"

definition fixture_connect :: "fixture_files \<Rightarrow> qm_entry \<Rightarrow> mq_credential \<Rightarrow> (fixture_state, unit) act" where
  "fixture_connect ff entry credential s =
     (if \<not> ff_exists ff then
        (Inl (MQConnectionError (lit ''fixtures directory '' @ ff_dir ff @ lit '' missing'')), s)
      else (Inr (), s\<lparr> fx_qm := Some (qm_name entry), fx_connected := True,
                       fx_trace := fx_trace s @ [EConnect (qm_name entry)] \<rparr>))"

definition fixture_disconnect :: "(fixture_state, unit) act" where
  "fixture_disconnect s =
     (Inr (), s\<lparr> fx_connected := False, fx_qm := None, fx_trace := fx_trace s @ [EDisconnect] \<rparr>)"

definition fingerprint :: "pystr \<Rightarrow> pystr" where
  "fingerprint command =
     replace_ch 47 (lit ''_'') (replace_ch 39 [] (replace_ch 42 (lit ''ALL'')
       (replace_ch 41 (lit ''_'') (replace_ch 40 (lit ''_'') (replace_ch 32 (lit ''_'')
         (upper (strip command)))))))"

definition opt_default :: "'a \<Rightarrow> 'a option \<Rightarrow> 'a" where
  "opt_default d v = (case v of None \<Rightarrow> d | Some x \<Rightarrow> x)"

definition fixture_mqsc :: "fixture_files \<Rightarrow> pystr \<Rightarrow> (fixture_state, mqsc_result) act" where
  "fixture_mqsc ff command s =
     (if \<not> fx_connected s then (Inl not_connected, s)
      else (case assert_mqsc_allowed command of
              Inl e \<Rightarrow> (Inl e, s)
            | Inr _ \<Rightarrow>
                let s' = s\<lparr> fx_trace := fx_trace s @ [EMqsc command] \<rparr> in
                (case ff_mqsc ff (fingerprint command) of
                   None \<Rightarrow> (Inr \<lparr> mr_command = command, mr_rows = [], mr_raw = [],
                               mr_reason_code = None, mr_completion_code = Some 0 \<rparr>, s')
                 | Some d \<Rightarrow> (Inr \<lparr> mr_command = command, mr_rows = opt_default [] (mf_rows d),
                               mr_raw = opt_default [] (mf_raw d), mr_reason_code = mf_reason_code d,
                               mr_completion_code = mf_completion_code d \<rparr>, s'))))"

definition shell_key :: "pystr list \<Rightarrow> pystr" where
  "shell_key argv = replace_ch 32 (lit ''_'') (replace_ch 47 (lit ''_'') (join (lit ''_'') argv))"

definition fixture_shell :: "fixture_files \<Rightarrow> pystr list \<Rightarrow> (fixture_state, pystr) act" where
  "fixture_shell ff argv s =
     (if \<not> fx_connected s then (Inl not_connected, s)
      else (case assert_shell_allowed argv of
              Inl e \<Rightarrow> (Inl e, s)
            | Inr _ \<Rightarrow>
                (Inr (opt_default [] (ff_shell ff (shell_key argv))), s\<lparr> fx_trace := fx_trace s @ [EShell argv] \<rparr>)))"

text \<open>\<open>xs[:n]\<close>, also for negative \<open>n\<close>.\<close>

definition py_take :: "int \<Rightarrow> 'a list \<Rightarrow> 'a list" where
  "py_take n xs = (if n \<ge> 0 then take (nat n) xs else take (length xs - nat (- n)) xs)"

text \<open>\<open>int(v)\<close> of a JSON scalar.\<close>

definition json_int :: "cell \<Rightarrow> exn + int" where
  "json_int v = (case int_cell v of
       Some i \<Rightarrow> Inr i
     | None \<Rightarrow>
         (case v of
            CStr s \<Rightarrow> Inl (ValueError (lit ''invalid literal for int() with base 10: '' @ py_repr s))
          | _ \<Rightarrow> Inl (TypeError (lit ''int() argument must be a string, a bytes-like object or a real number''))))"

definition fixture_header :: "row \<Rightarrow> exn + dlq_header" where
  "fixture_header h =
     bind_res (json_int (get_d h (lit ''reason_code'') (CInt 0))) (\<lambda>reason.
     bind_res (json_int (get_d h (lit ''feedback'') (CInt 0))) (\<lambda>feedback.
     bind_res (json_int (get_d h (lit ''backout_count'') (CInt 0))) (\<lambda>backout.
     bind_res (json_int (get_d h (lit ''body_length'') (CInt 0))) (\<lambda>body.
     Inr \<lparr> dh_reason_code = reason, dh_feedback = feedback,
           dh_put_application_name = str_cell (get_d h (lit ''put_application_name'') (CStr [])),
           dh_put_application_type = str_cell (get_d h (lit ''put_application_type'') (CStr [])),
           dh_put_date = str_cell (get_d h (lit ''put_date'') (CStr [])),
           dh_put_time = str_cell (get_d h (lit ''put_time'') (CStr [])),
           dh_dest_q_name = str_cell (get_d h (lit ''dest_q_name'') (CStr [])),
           dh_dest_q_mgr_name = str_cell (get_d h (lit ''dest_q_mgr_name'') (CStr [])),
           dh_backout_count = backout, dh_body_length = body,
           dh_msg_id_hash = str_cell (get_d h (lit ''msg_id_hash'') (CStr [])),
           dh_encoding = get h (lit ''encoding''),
           dh_coded_char_set_id = get h (lit ''coded_char_set_id'') \<rparr>))))"

definition dlq_key :: "pystr \<Rightarrow> pystr" where
  "dlq_key queue_name = replace_ch 32 (lit ''_'') (replace_ch 47 (lit ''_'') (upper queue_name))"

definition fixture_browse :: "fixture_files \<Rightarrow> pystr \<Rightarrow> int \<Rightarrow> (fixture_state, browse_result) act" where
  "fixture_browse ff queue_name max_messages s =
     (if \<not> fx_connected s then (Inl not_connected, s)
      else
        let qm = opt_default [] (fx_qm s);
            s' = s\<lparr> fx_trace := fx_trace s @ [EBrowse queue_name] \<rparr>
        in (case ff_dlq ff (dlq_key queue_name) of
              None \<Rightarrow> (Inr \<lparr> br_queue_name = queue_name, br_qm_name = qm, br_sample_size = 0,
                           br_queue_depth = 0, br_headers = [] \<rparr>, s')
            | Some d \<Rightarrow>
                let headers_raw = py_take max_messages (opt_default [] (df_headers d)) in
                (bind_res (traverse fixture_header headers_raw) (\<lambda>headers.
                 bind_res (json_int (opt_default (CInt (int (length headers_raw))) (df_queue_depth d))) (\<lambda>depth.
                 Inr \<lparr> br_queue_name = queue_name, br_qm_name = qm, br_sample_size = length headers,
                       br_queue_depth = depth, br_headers = headers \<rparr>)), s')))"

definition fixture_connector :: "fixture_files \<Rightarrow> fixture_state connector" where
  "fixture_connector ff =
     \<lparr> op_connect = fixture_connect ff, op_disconnect = fixture_disconnect, op_mqsc = fixture_mqsc ff,
       op_shell = fixture_shell ff, op_browse = fixture_browse ff \<rparr>"

text \<open>A recorded reply is read from the directory of its kind: the name of its file has no slash, whatever
  the command, the arguments or the queue name are.\<close>

lemma recorded_names_flat:
  "47 \<notin> set (fingerprint command)" "47 \<notin> set (shell_key argv)" "47 \<notin> set (dlq_key queue_name)"
proof -
  have "47 \<notin> set (lit ''_'')" by (simp add: lit_def)
  then show "47 \<notin> set (fingerprint command)" "47 \<notin> set (shell_key argv)" "47 \<notin> set (dlq_key queue_name)"
    by (auto simp: fingerprint_def shell_key_def dlq_key_def set_replace_ch)
qed

lemma grows_append:
  "(\<And>s. snd (m s) = s \<or> (\<exists>e. tr (snd (m s)) = tr s @ [e] \<and> event_ok e)) \<Longrightarrow> grows tr m"
proof (rule growsI)
  fix s
  assume "\<And>s. snd (m s) = s \<or> (\<exists>e. tr (snd (m s)) = tr s @ [e] \<and> event_ok e)"
  from this [of s] show "\<exists>es. tr (snd (m s)) = tr s @ es \<and> ok_trace es"
  proof
    assume "snd (m s) = s"
    then show ?thesis by (intro exI [of _ "[]"]) simp
  next
    assume "\<exists>e. tr (snd (m s)) = tr s @ [e] \<and> event_ok e"
    then obtain e where "tr (snd (m s)) = tr s @ [e]" "event_ok e" by blast
    then show ?thesis by (intro exI [of _ "[e]"]) simp
  qed
qed

interpretation fixture: mq_connector "fixture_connector ff" fx_trace fx_connected for ff
proof
  fix e cred c argv q n s
  show "grows fx_trace (op_connect (fixture_connector ff) e cred)"
    by (rule grows_append) (auto simp: fixture_connector_def fixture_connect_def)
  show "grows fx_trace (op_disconnect (fixture_connector ff))"
    by (rule grows_append) (auto simp: fixture_connector_def fixture_disconnect_def)
  show "grows fx_trace (op_mqsc (fixture_connector ff) c)"
    by (rule grows_append) (auto simp: fixture_connector_def fixture_mqsc_def Let_def split: sum.split option.split)
  show "grows fx_trace (op_shell (fixture_connector ff) argv)"
    by (rule grows_append) (auto simp: fixture_connector_def fixture_shell_def Let_def split: sum.split)
  show "grows fx_trace (op_browse (fixture_connector ff) q n)"
    by (rule grows_append) (auto simp: fixture_connector_def fixture_browse_def Let_def split: option.split)
  show "\<not> fx_connected (snd (op_disconnect (fixture_connector ff) s))"
    by (simp add: fixture_connector_def fixture_disconnect_def)
  show "\<not> mqsc_ok c \<Longrightarrow> \<exists>e. op_mqsc (fixture_connector ff) c s = (Inl e, s)"
    by (auto simp: fixture_connector_def fixture_mqsc_def split: sum.split)
  show "\<not> shell_ok argv \<Longrightarrow> \<exists>e. op_shell (fixture_connector ff) argv s = (Inl e, s)"
    by (auto simp: fixture_connector_def fixture_shell_def split: sum.split)
qed

section \<open>The live connector: environment and state\<close>

text \<open>What \<open>connect_with_options\<close> is given: channel definition, TLS settings and credentials.\<close>

record conn_params =
  cp_qm_name :: pystr
  cp_channel :: pystr
  cp_connection_name :: pystr
  cp_cipher_spec :: "pystr option"
  cp_key_repository :: "pystr option"
  cp_certificate_label :: "pystr option"
  cp_user :: pystr
  cp_password :: pystr

type_synonym bytes = "nat list"

datatype shell_outcome = ShellNotFound | ShellTimeout | ShellDone pystr pystr

text \<open>One \<open>queue.get\<close>: a message with its id and backout count, none left, or a failure.\<close>

datatype get_outcome = GotMessage bytes bytes int | NoMessage | GetMQError int | GetFailure

record mq_env =
  me_pymqi :: bool
  me_connect :: "conn_params \<Rightarrow> int option + unit"
  me_pcf_disconnect :: "exn option"
  me_qmgr_disconnect :: "exn option"
  me_escape :: "event list \<Rightarrow> pystr \<Rightarrow> unit + pystr list option list"
  me_run :: "event list \<Rightarrow> pystr list \<Rightarrow> shell_outcome"
  me_queue_open :: "event list \<Rightarrow> pystr \<Rightarrow> bool"
  me_queue_depth :: "event list \<Rightarrow> pystr \<Rightarrow> int option"
  me_queue_get :: "event list \<Rightarrow> pystr \<Rightarrow> nat \<Rightarrow> get_outcome"
  me_queue_close :: "event list \<Rightarrow> pystr \<Rightarrow> bool"
  me_decode :: "bytes \<Rightarrow> pystr"
  me_sha256 :: "bytes \<Rightarrow> pystr"

record pymqi_state =
  px_qmgr :: bool
  px_pcf :: bool
  px_entry :: "qm_entry option"
  px_trace :: "event list"

definition pymqi_init :: pymqi_state where
  "pymqi_init = \<lparr> px_qmgr = False, px_pcf = False, px_entry = None, px_trace = [] \<rparr>"

definition local_hosts :: "pystr list" where
  "local_hosts = [lit ''localhost'', lit ''127.0.0.1'', lit ''::1'']"

definition set_if_truthy :: "pystr option \<Rightarrow> pystr option" where
  "set_if_truthy v = (case v of None \<Rightarrow> None | Some s \<Rightarrow> if s = [] then None else Some s)"

definition connection_params :: "qm_entry \<Rightarrow> mq_credential \<Rightarrow> conn_params" where
  "connection_params entry credential =
     \<lparr> cp_qm_name = qm_name entry,
       cp_channel = qm_channel entry,
       cp_connection_name = qm_host entry @ lit ''('' @ str_int (qm_port entry) @ lit '')'',
       cp_cipher_spec = set_if_truthy (cipher_spec entry),
       cp_key_repository = set_if_truthy (keystore_path credential),
       cp_certificate_label =
         (if set_if_truthy (keystore_path credential) = None then None
          else set_if_truthy (cert_label credential)),
       cp_user = cred_user credential,
       cp_password = cred_password credential \<rparr>"

section \<open>The live connector: operations\<close>

definition pymqi_missing :: exn where
  "pymqi_missing = MQConnectionError
     (lit ''pymqi is not installed. Install the IBM MQ client libraries, then the '' @
      lit ''`mq` extra: `pip install 'mq-sentinel[mq]'` (Claude Code plugin: set '' @
      lit ''MQS_PACKAGE='mq-sentinel[mq]'). See docs/byom.md.'')"

definition connect_failure :: "qm_entry \<Rightarrow> int option \<Rightarrow> exn" where
  "connect_failure entry reason =
     MQConnectionError (lit ''failed to connect to '' @ qm_name entry @
       (case reason of None \<Rightarrow> [] | Some r \<Rightarrow> lit '' (MQRC '' @ str_int r @ lit '')''))"

definition pymqi_connect :: "mq_env \<Rightarrow> qm_entry \<Rightarrow> mq_credential \<Rightarrow> (pymqi_state, unit) act" where
  "pymqi_connect env entry credential s =
     (if \<not> me_pymqi env then (Inl pymqi_missing, s)
      else
        let s' = s\<lparr> px_qmgr := True, px_trace := px_trace s @ [EConnect (qm_name entry)] \<rparr> in
        (case me_connect env (connection_params entry credential) of
           Inl reason \<Rightarrow> (Inl (connect_failure entry reason), s')
         | Inr _ \<Rightarrow> (Inr (), s'\<lparr> px_pcf := True, px_entry := Some entry \<rparr>)))"

definition pymqi_disconnect :: "mq_env \<Rightarrow> (pymqi_state, unit) act" where
  "pymqi_disconnect env s =
     (let e1 = (if px_pcf s then me_pcf_disconnect env else None);
          e2 = (if px_qmgr s then me_qmgr_disconnect env else None);
          s' = s\<lparr> px_pcf := False, px_qmgr := False, px_entry := None,
                  px_trace := (if px_qmgr s then px_trace s @ [EDisconnect] else px_trace s) \<rparr>
      in (case e2 of Some e \<Rightarrow> (Inl e, s')
          | None \<Rightarrow> (case e1 of Some e \<Rightarrow> (Inl e, s') | None \<Rightarrow> (Inr (), s'))))"

text \<open>\<open>_escaped_reply_text\<close>: the reply strings of every response record, right-stripped.\<close>

definition escaped_reply_text :: "pystr list option list \<Rightarrow> pystr" where
  "escaped_reply_text response =
     join newline (concat (map (\<lambda>v. case v of None \<Rightarrow> [] | Some vs \<Rightarrow> map rstrip vs) response))"

definition mqsc_failure :: "pystr \<Rightarrow> exn" where
  "mqsc_failure command = MQConnectionError (lit ''MQSC execution failed for '' @ py_repr command)"

definition pymqi_mqsc :: "mq_env \<Rightarrow> pystr \<Rightarrow> (pymqi_state, mqsc_result) act" where
  "pymqi_mqsc env command s =
     (if \<not> px_qmgr s then (Inl not_connected, s)
      else (case assert_mqsc_allowed command of
              Inl e \<Rightarrow> (Inl e, s)
            | Inr _ \<Rightarrow>
                if \<not> px_pcf s then (Inl (mqsc_failure command), s)
                else
                let s' = s\<lparr> px_trace := px_trace s @ [EMqsc command] \<rparr> in
                (case me_escape env (px_trace s) command of
                   Inl _ \<Rightarrow> (Inl (mqsc_failure command), s')
                 | Inr response \<Rightarrow>
                     let raw = escaped_reply_text response in
                     (Inr \<lparr> mr_command = command, mr_rows = parse_mqsc_reply raw, mr_raw = raw,
                            mr_reason_code = None, mr_completion_code = Some 0 \<rparr>, s'))))"

definition pymqi_shell :: "mq_env \<Rightarrow> pystr list \<Rightarrow> (pymqi_state, pystr) act" where
  "pymqi_shell env argv s =
     (case assert_shell_allowed argv of
        Inl e \<Rightarrow> (Inl e, s)
      | Inr _ \<Rightarrow>
          if (case px_entry s of None \<Rightarrow> True | Some e \<Rightarrow> lower (qm_host e) \<notin> set local_hosts) then
            (Inl (MQConnectionError (hd argv @
               lit '' describes the local machine; it only runs when MQ-Sentinel '' @
               lit ''is on the queue manager's host (inventory host: localhost)'')), s)
          else
            let s' = s\<lparr> px_trace := px_trace s @ [EShell argv] \<rparr> in
            (case me_run env (px_trace s) argv of
               ShellNotFound \<Rightarrow> (Inl (MQConnectionError (lit ''binary not found: '' @ hd argv)), s')
             | ShellTimeout \<Rightarrow> (Inl (MQConnectionError (lit ''timeout running '' @ shlex_join argv)), s')
             | ShellDone out err \<Rightarrow> (Inr (out @ err), s')))"

section \<open>Dead-letter headers\<close>

definition slice :: "nat \<Rightarrow> nat \<Rightarrow> 'a list \<Rightarrow> 'a list" where
  "slice i j xs = take (j - i) (drop i xs)"

text \<open>\<open>int.from_bytes(b, "big", signed=True)\<close>.\<close>

definition be_unsigned :: "bytes \<Rightarrow> int" where
  "be_unsigned b = foldl (\<lambda>acc x. acc * 256 + int x) 0 b"

definition be_signed :: "bytes \<Rightarrow> int" where
  "be_signed b =
     (let u = be_unsigned b in if b \<noteq> [] \<and> hd b \<ge> 128 then u - 256 ^ length b else u)"

text \<open>\<open>b.rstrip(b" \\x00").decode(errors="replace")\<close>.\<close>

definition text_field :: "(bytes \<Rightarrow> pystr) \<Rightarrow> bytes \<Rightarrow> pystr" where
  "text_field decode b = decode (rev (dropWhile (\<lambda>c. c = 32 \<or> c = 0) (rev b)))"

definition parse_dlh_safely :: "mq_env \<Rightarrow> bytes \<Rightarrow> bytes \<Rightarrow> int \<Rightarrow> dlq_header option" where
  "parse_dlh_safely env raw msg_id backout =
     (if raw = [] \<or> length raw < 172 \<or> \<not> prefix (lit ''MQDLH'') raw then None
      else
        let view = take 172 raw; txt = text_field (me_decode env) in
        Some \<lparr> dh_reason_code = be_signed (slice 12 16 view),
               dh_feedback = be_signed (slice 16 20 view),
               dh_put_application_name = txt (slice 64 92 view),
               dh_put_application_type = str_int (be_signed (slice 60 64 view)),
               dh_put_date = txt (slice 92 100 view),
               dh_put_time = txt (slice 100 108 view),
               dh_dest_q_name = txt (slice 108 156 view),
               dh_dest_q_mgr_name = (if length raw \<ge> 204 then txt (slice 156 204 raw) else []),
               dh_backout_count = backout,
               dh_body_length = max 0 (int (length raw) - 172),
               dh_msg_id_hash = me_sha256 env msg_id,
               dh_encoding = CNone, dh_coded_char_set_id = CNone \<rparr>)"

definition browse_failure :: "pystr \<Rightarrow> exn + 'a" where
  "browse_failure queue_name = Inl (MQConnectionError (lit ''DLQ browse failed for '' @ py_repr queue_name))"

text \<open>The browse loop: at most \<open>n\<close> messages, the \<open>i\<close>-th next.\<close>

fun browse_loop ::
  "mq_env \<Rightarrow> (nat \<Rightarrow> get_outcome) \<Rightarrow> pystr \<Rightarrow> nat \<Rightarrow> nat \<Rightarrow> exn + dlq_header list" where
  "browse_loop env next_msg queue_name i 0 = Inr []"
| "browse_loop env next_msg queue_name i (Suc n) =
     (case next_msg i of
        NoMessage \<Rightarrow> Inr []
      | GetMQError reason \<Rightarrow>
          Inl (MQConnectionError (lit ''DLQ browse failed (reason '' @ str_int reason @ lit '')''))
      | GetFailure \<Rightarrow> browse_failure queue_name
      | GotMessage raw msg_id backout \<Rightarrow>
          bind_res (browse_loop env next_msg queue_name (Suc i) n) (\<lambda>rest.
          Inr (case parse_dlh_safely env raw msg_id backout of None \<Rightarrow> rest | Some h \<Rightarrow> h # rest)))"

definition pymqi_browse :: "mq_env \<Rightarrow> pystr \<Rightarrow> int \<Rightarrow> (pymqi_state, browse_result) act" where
  "pymqi_browse env queue_name max_messages s =
     (if \<not> px_qmgr s then (Inl not_connected, s)
      else if max_messages < 1 \<or> max_messages > 500 then
        (Inl (ValueError (lit ''max_messages must be in [1, 500]'')), s)
      else
        let tr = px_trace s; s' = s\<lparr> px_trace := tr @ [EBrowse queue_name] \<rparr> in
        if \<not> me_queue_open env tr queue_name then
          (browse_failure queue_name, s')
        else
          (bind_res (browse_loop env (me_queue_get env tr queue_name) queue_name 0 (nat max_messages)) (\<lambda>headers.
           if \<not> me_queue_close env tr queue_name then browse_failure queue_name
           else Inr \<lparr> br_queue_name = queue_name,
                 br_qm_name = (case px_entry s of None \<Rightarrow> [] | Some e \<Rightarrow> qm_name e),
                 br_sample_size = length headers,
                 br_queue_depth = opt_default 0 (me_queue_depth env tr queue_name),
                 br_headers = headers \<rparr>), s'))"

definition pymqi_connector :: "mq_env \<Rightarrow> pymqi_state connector" where
  "pymqi_connector env =
     \<lparr> op_connect = pymqi_connect env, op_disconnect = pymqi_disconnect env, op_mqsc = pymqi_mqsc env,
       op_shell = pymqi_shell env, op_browse = pymqi_browse env \<rparr>"

interpretation pymqi: mq_connector "pymqi_connector env" px_trace px_qmgr for env
proof
  fix e cred c argv q n s
  show "grows px_trace (op_connect (pymqi_connector env) e cred)"
    by (rule grows_append) (auto simp: pymqi_connector_def pymqi_connect_def Let_def split: sum.split)
  have "\<exists>es. px_trace (snd (pymqi_disconnect env s)) = px_trace s @ es \<and> ok_trace es" for s
    by (cases "px_qmgr s") (auto simp: pymqi_disconnect_def Let_def split: option.split)
  then show "grows px_trace (op_disconnect (pymqi_connector env))"
    by (simp add: grows_def pymqi_connector_def)
  show "grows px_trace (op_mqsc (pymqi_connector env) c)"
    by (rule grows_append) (auto simp: pymqi_connector_def pymqi_mqsc_def Let_def split: sum.split)
  show "grows px_trace (op_shell (pymqi_connector env) argv)"
    by (rule grows_append)
      (auto simp: pymqi_connector_def pymqi_shell_def Let_def split: sum.split shell_outcome.split)
  show "grows px_trace (op_browse (pymqi_connector env) q n)"
    by (rule grows_append) (auto simp: pymqi_connector_def pymqi_browse_def Let_def)
  show "\<not> px_qmgr (snd (op_disconnect (pymqi_connector env) s))"
    by (auto simp: pymqi_connector_def pymqi_disconnect_def Let_def split: option.split)
  show "\<not> mqsc_ok c \<Longrightarrow> \<exists>e. op_mqsc (pymqi_connector env) c s = (Inl e, s)"
    by (auto simp: pymqi_connector_def pymqi_mqsc_def split: sum.split)
  show "\<not> shell_ok argv \<Longrightarrow> \<exists>e. op_shell (pymqi_connector env) argv s = (Inl e, s)"
    by (auto simp: pymqi_connector_def pymqi_shell_def split: sum.split)
qed

section \<open>The live connector's state\<close>

definition live_inv :: "pymqi_state \<Rightarrow> bool" where
  "live_inv s \<longleftrightarrow> (px_pcf s \<longleftrightarrow> px_entry s \<noteq> None) \<and> (px_pcf s \<longrightarrow> px_qmgr s)"

lemma live_inv_step:
  assumes "conn_step (pymqi_connector env) s s'" and "live_inv s"
  shows "live_inv s'"
  using assms(1)
proof cases
  case connect
  then show ?thesis using assms(2)
    by (auto simp: pymqi_connector_def pymqi_connect_def live_inv_def Let_def split: sum.splits)
next
  case disconnect
  then show ?thesis
    by (auto simp: pymqi_connector_def pymqi_disconnect_def live_inv_def Let_def split: option.splits)
next
  case mqsc
  then show ?thesis using assms(2)
    by (auto simp: pymqi_connector_def pymqi_mqsc_def live_inv_def Let_def split: sum.splits)
next
  case shell
  then show ?thesis using assms(2)
    by (auto simp: pymqi_connector_def pymqi_shell_def live_inv_def Let_def split: sum.splits shell_outcome.splits)
next
  case browse
  then show ?thesis using assms(2)
    by (auto simp: pymqi_connector_def pymqi_browse_def live_inv_def Let_def)
qed

definition is_local :: "pymqi_state \<Rightarrow> bool" where
  "is_local s = (case px_entry s of None \<Rightarrow> False | Some e \<Rightarrow> lower (qm_host e) \<in> set local_hosts)"

section \<open>Properties\<close>

text \<open>C11: However a session on the live connector goes (connecting, failing to connect, running,
  browsing and disconnecting in any order, whatever the queue manager, the operating system and
  the client library answer), every MQSC and shell command that left the process passes the
  allowlist, and the connector's fields stay consistent.\<close>
theorem live_session_read_only:
  assumes "(conn_step (pymqi_connector env))\<^sup>*\<^sup>* pymqi_init s"
  shows "ok_trace (px_trace s) \<and> live_inv s"
proof
  show "ok_trace (px_trace s)"
    by (rule pymqi.session_allowed [OF assms]) (simp add: pymqi_init_def)
  show "live_inv s"
    using assms
    by (induction rule: rtranclp_induct) (auto simp: pymqi_init_def live_inv_def [of "\<lparr>px_qmgr = _, px_pcf = _, px_entry = _, px_trace = _\<rparr>"] intro: live_inv_step)
qed

text \<open>The live connector runs a shell command exactly when it passes the allowlist and the
  connected queue manager is on this host; else nothing is run.\<close>
theorem live_shell_exact:
  "px_trace (snd (pymqi_shell env argv s)) =
     px_trace s @ (if shell_ok argv \<and> is_local s then [EShell argv] else [])"
  by (auto simp: pymqi_shell_def is_local_def Let_def split: sum.splits shell_outcome.splits option.splits)

text \<open>What the caller learns when connecting fails is the name of the queue manager and the
  numeric reason: the text does not depend on the credential, on the host or on the client
  library's own error text.\<close>
theorem connect_error_hides_credentials:
  "fst (pymqi_connect env entry credential s) \<in>
     {Inr (), Inl pymqi_missing} \<union> range (\<lambda>reason. Inl (connect_failure entry reason))"
  by (auto simp: pymqi_connect_def Let_def split: sum.splits)

lemma browse_loop_length: "browse_loop env next_msg q i n = Inr hs \<Longrightarrow> length hs \<le> n"
  by (induction n arbitrary: i hs)
    (auto simp: browse_failure_def bind_res_def split: get_outcome.splits sum.splits option.splits, fastforce+)

text \<open>A browse that succeeds was asked for 1 to 500 messages, returns at most that many
  headers, counts them right and names the connected queue manager; it reads the queue and runs
  nothing else.\<close>
theorem live_browse_bounded:
  assumes "fst (pymqi_browse env q n s) = Inr r"
  shows "1 \<le> n \<and> n \<le> 500 \<and> br_sample_size r = length (br_headers r) \<and>
    int (length (br_headers r)) \<le> n \<and> br_queue_name r = q \<and>
    px_trace (snd (pymqi_browse env q n s)) = px_trace s @ [EBrowse q]"
proof -
  let ?loop = "browse_loop env (me_queue_get env (px_trace s) q) q 0 (nat n)"
  from assms have n: "1 \<le> n" "n \<le> 500" and open_ok: "px_qmgr s" "me_queue_open env (px_trace s) q"
    by (auto simp: pymqi_browse_def browse_failure_def Let_def split: if_splits)
  with assms obtain hs where hs: "?loop = Inr hs" and r: "br_headers r = hs" "br_sample_size r = length hs" "br_queue_name r = q"
    by (auto simp: pymqi_browse_def browse_failure_def Let_def bind_res_def split: sum.splits if_splits)
  from browse_loop_length [OF hs] n open_ok r show ?thesis
    by (simp add: pymqi_browse_def Let_def)
qed

section \<open>Dead-letter headers and message bodies\<close>

lemma slice_take: "j \<le> n \<Longrightarrow> slice i j (take n xs) = slice i j xs"
  by (simp add: slice_def drop_take min_def)

lemma slice_cong_take: "take n xs = take n ys \<Longrightarrow> j \<le> n \<Longrightarrow> slice i j xs = slice i j ys"
  by (metis slice_take)

lemma prefix_take_iff: "prefix xs ys \<longleftrightarrow> take (length xs) ys = xs"
  by (metis append_eq_conv_conj prefixE take_is_prefix)

text \<open>C33: What a browse reveals of a message is fixed by its first 204 bytes, its length and its
  descriptor: two messages that agree on those give the same header, whatever else their bodies
  hold.\<close>
theorem header_hides_body:
  assumes "take 204 raw = take 204 raw'" and "length raw = length raw'"
  shows "parse_dlh_safely env raw msg_id backout = parse_dlh_safely env raw' msg_id backout"
proof -
  have t: "take n raw = take n raw'" if "n \<le> 204" for n
    using arg_cong [OF assms(1), of "take n"] that by (simp add: min_def)
  have p: "prefix (lit ''MQDLH'') raw \<longleftrightarrow> prefix (lit ''MQDLH'') raw'"
  proof -
    have "length (lit ''MQDLH'') = 5" by (simp add: length_lit)
    with t [of 5] show ?thesis by (simp only: prefix_take_iff)
  qed
  have s: "slice 156 204 raw = slice 156 204 raw'"
    by (rule slice_cong_take [OF assms(1)]) simp
  show ?thesis
    using assms(2) p t [of 172] s
    by (cases "raw = []"; cases "raw' = []") (simp_all add: parse_dlh_safely_def Let_def)
qed

definition sample_credential :: mq_credential where
  "sample_credential = \<lparr> cred_user = lit ''mon'', cred_password = lit ''secret'',
     keystore_path = None, keystore_password = None, cert_label = None \<rparr>"

text \<open>A queue manager with one message on its dead-letter queue.\<close>

definition sample_message :: "bytes \<Rightarrow> bytes" where
  "sample_message body = lit ''MQDLH'' @ replicate 167 32 @ body"

definition sample_env :: "bytes \<Rightarrow> mq_env" where
  "sample_env body =
     \<lparr> me_pymqi = True, me_connect = (\<lambda>_. Inr ()), me_pcf_disconnect = None, me_qmgr_disconnect = None,
       me_escape = (\<lambda>_ _. Inr []), me_run = (\<lambda>_ _. ShellDone [] []),
       me_queue_open = (\<lambda>_ _. True), me_queue_depth = (\<lambda>_ _. Some 1),
       me_queue_get = (\<lambda>_ _ i. if i = 0 then GotMessage (sample_message body) [7] 2 else NoMessage),
       me_queue_close = (\<lambda>_ _. True), me_decode = (\<lambda>b. b), me_sha256 = (\<lambda>b. str_int (be_unsigned b)) \<rparr>"

definition sample_live :: pymqi_state where
  "sample_live = \<lparr> px_qmgr = True, px_pcf = True, px_entry = Some sample_entry,
     px_trace = [EConnect (qm_name sample_entry)] \<rparr>"

lemma sample_connected: "pymqi_connect (sample_env b) sample_entry sample_credential pymqi_init = (Inr (), sample_live)"
  by (simp add: pymqi_connect_def sample_env_def pymqi_init_def sample_live_def Let_def)

lemma sample_step: "conn_step (pymqi_connector (sample_env b)) pymqi_init sample_live"
  using conn_step.connect [of "pymqi_connector (sample_env b)" pymqi_init sample_entry sample_credential]
  by (simp add: pymqi_connector_def sample_connected)

lemma live_session_read_only_witness: "ok_trace (px_trace sample_live) \<and> live_inv sample_live"
  by (rule live_session_read_only [OF r_into_rtranclp [of "conn_step (pymqi_connector (sample_env []))", OF sample_step]])

lemma sample_parse:
  "\<exists>h. parse_dlh_safely (sample_env b) (sample_message body) msg_id n = Some h"
  by (simp add: parse_dlh_safely_def sample_message_def length_lit Let_def)

lemma live_browse_bounded_witness:
  "\<exists>r. fst (pymqi_browse (sample_env []) (lit ''DLQ'') 5 sample_live) = Inr r \<and>
     br_sample_size r = length (br_headers r) \<and> int (length (br_headers r)) \<le> 5"
proof -
  obtain h where h: "parse_dlh_safely (sample_env []) (sample_message []) [7] 2 = Some h"
    using sample_parse by blast
  have next_msg: "me_queue_get (sample_env []) tr q 0 = GotMessage (sample_message []) [7] 2"
    "me_queue_get (sample_env []) tr q (Suc 0) = NoMessage" for tr q
    by (simp_all add: sample_env_def)
  have "browse_loop (sample_env []) (me_queue_get (sample_env []) tr q) q 0 (Suc (Suc n)) = Inr [h]" for tr q n
    by (simp only: browse_loop.simps next_msg get_outcome.case bind_res_simps h option.case)
  moreover have "nat 5 = Suc (Suc 3)" by simp
  ultimately have "browse_loop (sample_env []) (me_queue_get (sample_env []) tr q) q 0 (nat 5) = Inr [h]" for tr q
    by (simp only:)
  then obtain r where r: "fst (pymqi_browse (sample_env []) (lit ''DLQ'') 5 sample_live) = Inr r"
    by (simp add: pymqi_browse_def sample_live_def Let_def) (simp add: sample_env_def)
  from live_browse_bounded [OF this] r show ?thesis by blast
qed

lemma header_hides_body_witness:
  "parse_dlh_safely (sample_env []) (sample_message (replicate 32 65 @ lit ''secret'')) [7] 2 =
   parse_dlh_safely (sample_env []) (sample_message (replicate 32 65 @ lit ''public'')) [7] 2"
  by (rule header_hides_body) (simp_all add: sample_message_def length_lit lit_def)

text \<open>The header of an MQDLH is 172 bytes. The destination queue manager is read 32 bytes past
  its end: two messages with the same header and bodies of the same length are told apart.\<close>
lemma header_leaks_body:
  "length (sample_message (replicate 32 65)) = length (sample_message (replicate 32 66)) \<and>
   take 172 (sample_message (replicate 32 65)) = take 172 (sample_message (replicate 32 66)) \<and>
   map_option dh_dest_q_mgr_name (parse_dlh_safely (sample_env []) (sample_message (replicate 32 65)) [7] 2) \<noteq>
   map_option dh_dest_q_mgr_name (parse_dlh_safely (sample_env []) (sample_message (replicate 32 66)) [7] 2)"
proof -
  have field: "map_option dh_dest_q_mgr_name (parse_dlh_safely (sample_env []) (sample_message (replicate 32 c)) [7] 2) =
      Some (replicate 16 32 @ replicate 32 c)" if "c = 65 \<or> c = 66" for c
  proof -
    have "slice 156 204 (sample_message (replicate 32 c)) = replicate 16 32 @ replicate 32 c"
      by (simp add: slice_def sample_message_def length_lit drop_append)
    moreover have "text_field (\<lambda>b. b) (replicate 16 32 @ replicate 32 c) = replicate 16 32 @ replicate 32 c"
      using that by (auto simp: text_field_def dropWhile_append)
    moreover have "me_decode (sample_env []) = (\<lambda>b. b)" by (simp add: sample_env_def)
    ultimately show ?thesis
      by (simp add: parse_dlh_safely_def Let_def) (simp add: sample_message_def length_lit)
  qed
  show ?thesis by (simp add: field) (simp add: sample_message_def length_lit)
qed

end
