(* ===== verification/Topology.thy ===== *)
theory Topology
  imports Connectors KCRegistry
begin

text \<open>
  \<open>topology/detect.py\<close>: version normalisation, the signals of one queue manager and the
  classification. Detection runs on any connector; what holds for every connector is proved
  inside \<open>mq_connector\<close>. Debug logging has no counterpart.
\<close>

section \<open>Version numbers\<close>

text \<open>\<open>int(raw[i:i+2])\<close> of two ASCII digits.\<close>

definition two_digits :: "pystr \<Rightarrow> nat \<Rightarrow> nat" where
  "two_digits raw i = 10 * (raw ! i - 48) + (raw ! Suc i - 48)"

definition normalize_mq_version :: "pystr option \<Rightarrow> pystr option" where
  "normalize_mq_version raw =
     (case raw of
        None \<Rightarrow> None
      | Some r \<Rightarrow>
          if length r = 8 \<and> list_all is_digit r then
            Some (join (lit ''.'') (map (\<lambda>i. str_nat (two_digits r i)) [0, 2, 4, 6]))
          else Some r)"

section \<open>Detection\<close>

record fingerprint =
  fp_topology :: topology
  fp_mq_version :: "pystr option"
  fp_platform :: "pystr option"
  fp_is_zos :: bool
  fp_is_clustered :: bool
  fp_is_uniform_cluster :: bool
  fp_has_standby :: bool
  fp_is_native_ha :: bool
  fp_is_rdqm :: bool
  fp_evidence :: "pystr pydict"

definition classify :: "bool \<Rightarrow> bool \<Rightarrow> bool \<Rightarrow> bool \<Rightarrow> bool \<Rightarrow> bool \<Rightarrow> topology" where
  "classify is_zos is_native_ha is_rdqm has_standby is_clustered is_uniform_cluster =
     (if is_zos then ZOS_QSG
      else if is_native_ha then NATIVE_HA
      else if is_rdqm then RDQM
      else if has_standby then MULTI_INSTANCE
      else if is_uniform_cluster then UNIFORM_CLUSTER
      else if is_clustered then TRADITIONAL_CLUSTER
      else STANDALONE)"

text \<open>The value of the first row that has the attribute.\<close>

fun first_attr :: "pystr \<Rightarrow> pystr pydict list \<Rightarrow> pystr option" where
  "first_attr attr [] = None"
| "first_attr attr (r # rows) =
     (case map_of r attr of Some v \<Rightarrow> Some v | None \<Rightarrow> first_attr attr rows)"

definition safe_attr :: "'s connector \<Rightarrow> pystr \<Rightarrow> pystr \<Rightarrow> ('s, pystr option) act" where
  "safe_attr C command attr =
     or_else (bind_act (op_mqsc C command) (\<lambda>r. ret (first_attr attr (mr_rows r)))) None"

definition safe_raw :: "'s connector \<Rightarrow> pystr \<Rightarrow> ('s, pystr) act" where
  "safe_raw C command = or_else (bind_act (op_mqsc C command) (\<lambda>r. ret (mr_raw r))) []"

text \<open>The tests on the texts of \<open>rdqmstatus\<close> and of \<open>dspmq -o standby\<close>.\<close>

definition rdqm_text :: "pystr \<Rightarrow> bool" where
  "rdqm_text out \<longleftrightarrow> sublist (lit ''Node:'') out \<or> sublist (lit ''DRBD'') (upper out)"

definition standby_text :: "pystr \<Rightarrow> bool" where
  "standby_text out \<longleftrightarrow> sublist (lit ''PERMITTED'') (upper out) \<or> sublist (lit ''STANDBY'') (upper out)"

definition shell_indicates_rdqm :: "'s connector \<Rightarrow> ('s, bool) act" where
  "shell_indicates_rdqm C =
     or_else (bind_act (op_shell C [lit ''rdqmstatus'']) (\<lambda>out. ret (rdqm_text out))) False"

definition dspmq_indicates_standby :: "'s connector \<Rightarrow> ('s, bool) act" where
  "dspmq_indicates_standby C =
     or_else (bind_act (op_shell C [lit ''dspmq'', lit ''-o'', lit ''standby''])
       (\<lambda>out. ret (standby_text out))) False"

definition opt_text :: "pystr option \<Rightarrow> pystr" where
  "opt_text v = (case v of None \<Rightarrow> [] | Some s \<Rightarrow> s)"

definition py_bool_text :: "bool \<Rightarrow> pystr" where
  "py_bool_text b = (if b then lit ''True'' else lit ''False'')"

text \<open>The fingerprint as a function of the six answers.\<close>

definition fingerprint_of ::
  "pystr option \<Rightarrow> pystr option \<Rightarrow> pystr \<Rightarrow> bool \<Rightarrow> bool \<Rightarrow> pystr \<Rightarrow> fingerprint" where
  "fingerprint_of version platform qmstatus_raw is_rdqm has_standby clusqmgr_raw =
     (let is_zos = (prefix (lit ''MVS'') (upper (opt_text platform)) \<or>
                    sublist (lit ''ZOS'') (upper (opt_text platform)));
          is_native_ha = (sublist (lit ''NATIVEHA'') (upper qmstatus_raw) \<or>
                          sublist (lit ''INSYNC'') (upper qmstatus_raw));
          is_clustered = (strip clusqmgr_raw \<noteq> []);
          is_uniform_cluster = sublist (lit ''UNIFORM'') (upper clusqmgr_raw)
      in \<lparr> fp_topology = classify is_zos is_native_ha is_rdqm has_standby is_clustered is_uniform_cluster,
           fp_mq_version = version, fp_platform = platform, fp_is_zos = is_zos,
           fp_is_clustered = is_clustered, fp_is_uniform_cluster = is_uniform_cluster,
           fp_has_standby = has_standby, fp_is_native_ha = is_native_ha, fp_is_rdqm = is_rdqm,
           fp_evidence =
             [(lit ''version_query'', opt_text version), (lit ''platform_query'', opt_text platform),
              (lit ''qmstatus_present'', py_bool_text (qmstatus_raw \<noteq> [])),
              (lit ''clusqmgr_present'', py_bool_text is_clustered)] \<rparr>)"

definition detect :: "'s connector \<Rightarrow> ('s, fingerprint) act" where
  "detect C =
     bind_act (safe_attr C (lit ''DISPLAY QMGR VERSION'') (lit ''VERSION'')) (\<lambda>version.
     bind_act (safe_attr C (lit ''DISPLAY QMGR PLATFORM'') (lit ''PLATFORM'')) (\<lambda>platform.
     bind_act (safe_raw C (lit ''DISPLAY QMSTATUS'')) (\<lambda>qmstatus_raw.
     bind_act (shell_indicates_rdqm C) (\<lambda>is_rdqm.
     bind_act (dspmq_indicates_standby C) (\<lambda>has_standby.
     bind_act (safe_raw C (lit ''DISPLAY CLUSQMGR(*) CLUSTER'')) (\<lambda>clusqmgr_raw.
     ret (fingerprint_of (normalize_mq_version version) platform qmstatus_raw is_rdqm has_standby
            clusqmgr_raw)))))))"

section \<open>Computations that cannot raise\<close>

named_theorems total_intros "rules for computations that cannot raise"

definition no_raise :: "('s, 'a) act \<Rightarrow> bool" where
  "no_raise m \<longleftrightarrow> (\<forall>s. is_ok (fst (m s)))"

lemma no_raiseD: "no_raise m \<Longrightarrow> \<exists>x s'. m s = (Inr x, s')"
  unfolding no_raise_def by (metis is_ok.elims(2) prod.collapse)

lemma no_raise_ret [total_intros]: "no_raise (ret x)"
  by (simp add: no_raise_def ret_def)

lemma no_raise_or_else [total_intros]: "no_raise (or_else m d)"
  by (auto simp: no_raise_def or_else_def split: prod.split sum.split)

lemma no_raise_bind [total_intros]: "no_raise m \<Longrightarrow> (\<And>x. no_raise (f x)) \<Longrightarrow> no_raise (bind_act m f)"
  unfolding no_raise_def bind_act_def
  by (auto split: prod.split sum.split) (metis fst_conv is_ok.simps(1))

lemma no_raise_lift [total_intros]: "no_raise (lift_res (Inr x))"
  by (simp add: no_raise_def lift_res_def)

lemma no_raise_safe [total_intros]:
  "no_raise (safe_attr C c a)" "no_raise (safe_raw C c)" "no_raise (shell_indicates_rdqm C)"
  "no_raise (dspmq_indicates_standby C)"
  by (simp_all add: safe_attr_def safe_raw_def shell_indicates_rdqm_def dspmq_indicates_standby_def no_raise_or_else)

lemma no_raise_detect: "no_raise (detect C)"
  unfolding detect_def by (intro total_intros)

context mq_connector
begin

lemma safe_grows [trace_intros]:
  "grows tr (safe_attr C c a)" "grows tr (safe_raw C c)" "grows tr (shell_indicates_rdqm C)"
  "grows tr (dspmq_indicates_standby C)"
  unfolding safe_attr_def safe_raw_def shell_indicates_rdqm_def dspmq_indicates_standby_def
  by (intro trace_intros mqsc_trace shell_trace)+

lemma detect_grows: "grows tr (detect C)"
  unfolding detect_def by (intro trace_intros)

end

section \<open>Properties\<close>

text \<open>Detection is best-effort and read-only: on the live connector, in any state and whatever
  each query answers or raises, it returns a fingerprint, and all it sends passes the allowlist.\<close>
theorem detection_returns:
  "\<exists>fp es. fst (detect (pymqi_connector env) s) = Inr fp \<and>
     px_trace (snd (detect (pymqi_connector env) s)) = px_trace s @ es \<and> ok_trace es"
proof -
  obtain fp s' where "detect (pymqi_connector env) s = (Inr fp, s')"
    using no_raiseD [OF no_raise_detect, of "pymqi_connector env" s] by blast
  with growsD [OF pymqi.detect_grows, of env s] show ?thesis by simp
qed

lemma split_on_append: "d \<notin> set w \<Longrightarrow> split_on d (w @ d # s) = w # split_on d s"
  by (induction w) auto

lemma join_dot: "join (lit ''.'') (w # w' # ws) = w @ 46 # join (lit ''.'') (w' # ws)"
  by (simp add: lit_def)

text \<open>A two-digit number in decimal, as VERSION prints each part.\<close>

definition two_chars :: "nat \<Rightarrow> pystr" where
  "two_chars n = [48 + n div 10, 48 + n mod 10]"

text \<open>The eight-digit VERSION of a queue manager is turned into the dotted form of its four
  parts, whose first two parts select the release that documentation references are filtered by;
  normalising again changes nothing.\<close>
theorem version_normalised:
  assumes "ver < 100" "rel < 100" "mnt < 100" "fix < 100"
  shows "normalize_mq_version (Some (two_chars ver @ two_chars rel @ two_chars mnt @ two_chars fix)) =
      Some (join (lit ''.'') [str_nat ver, str_nat rel, str_nat mnt, str_nat fix]) \<and>
    major_minor (join (lit ''.'') [str_nat ver, str_nat rel, str_nat mnt, str_nat fix]) =
      join (lit ''.'') [str_nat ver, str_nat rel] \<and>
    normalize_mq_version (Some (join (lit ''.'') [str_nat ver, str_nat rel, str_nat mnt, str_nat fix])) =
      Some (join (lit ''.'') [str_nat ver, str_nat rel, str_nat mnt, str_nat fix])"
proof -
  have dots: "46 \<notin> set (str_nat n)" for n
    by (auto dest!: set_str_int simp: is_digit_def)
  have "list_all is_digit (two_chars n)" if "n < 100" for n
    using that by (simp add: two_chars_def is_digit_def less_mult_imp_div_less less_Suc_eq_le [symmetric])
  moreover have "10 * int (n div 10) + int (n mod 10) = int n" for n
    by (simp add: zdiv_int zmod_int)
  ultimately have form: "normalize_mq_version (Some (two_chars ver @ two_chars rel @ two_chars mnt @ two_chars fix)) =
      Some (join (lit ''.'') [str_nat ver, str_nat rel, str_nat mnt, str_nat fix])"
    using assms by (simp add: normalize_mq_version_def two_digits_def) (simp add: two_chars_def)
  have "\<not> list_all is_digit (join (lit ''.'') [str_nat ver, str_nat rel, str_nat mnt, str_nat fix])"
    by (simp add: join_dot is_digit_def del: join.simps)
  then have "normalize_mq_version (Some (join (lit ''.'') [str_nat ver, str_nat rel, str_nat mnt, str_nat fix])) =
      Some (join (lit ''.'') [str_nat ver, str_nat rel, str_nat mnt, str_nat fix])"
    by (simp add: normalize_mq_version_def del: join.simps)
  moreover have "major_minor (join (lit ''.'') [str_nat ver, str_nat rel, str_nat mnt, str_nat fix]) =
      join (lit ''.'') [str_nat ver, str_nat rel]"
    by (simp only: major_minor_def join_dot) (simp add: split_on_append split_on_word dots, simp add: lit_def)
  ultimately show ?thesis using form by blast
qed

lemma upper_cp_space: "is_space c \<Longrightarrow> upper_cp c = [c]"
  by (auto simp: is_space_def upper_cp_def upper_specials_def is_lower_letter_def)

lemma sublist_set: "sublist xs ys \<Longrightarrow> set xs \<subseteq> set ys"
  by (auto simp: sublist_def)

lemma blank_has_no_letter:
  assumes "strip s = []"
  shows "\<not> sublist (lit ''UNIFORM'') (upper s)"
proof -
  have sp: "is_space c" if "c \<in> set s" for c
    using assms that by (simp add: strip_eq_Nil_iff)
  then have "upper s = s" by (simp add: upper_fixed upper_cp_space)
  moreover have "85 \<notin> set s" using sp [of 85] by (auto simp: is_space_def)
  moreover have "85 \<in> set (lit ''UNIFORM'')" by (simp add: lit_def)
  ultimately show ?thesis using sublist_set by fastforce
qed

text \<open>A queue manager is classified as stand-alone exactly when no signal speaks against it:
  the platform is not z/OS, the status text, \<open>rdqmstatus\<close> and \<open>dspmq\<close> show no replication or
  standby, and the CLUSQMGR reply is blank.\<close>
theorem standalone_iff:
  "fp_topology (fingerprint_of version platform qmstatus is_rdqm has_standby clusqmgr) = STANDALONE \<longleftrightarrow>
     \<not> prefix (lit ''MVS'') (upper (opt_text platform)) \<and>
     \<not> sublist (lit ''ZOS'') (upper (opt_text platform)) \<and>
     \<not> sublist (lit ''NATIVEHA'') (upper qmstatus) \<and> \<not> sublist (lit ''INSYNC'') (upper qmstatus) \<and>
     \<not> is_rdqm \<and> \<not> has_standby \<and> strip clusqmgr = []"
  using blank_has_no_letter [of clusqmgr] by (auto simp: fingerprint_of_def Let_def classify_def)

text \<open>The standby test looks for a word that the negative answer contains as well.\<close>
lemma refused_standby_counts: "standby_text (lit ''QMNAME(QM1) STANDBY(NOT PERMITTED)'')"
  by (simp add: standby_text_def lit_def upper_cp_def is_lower_letter_def sublist_Cons_right)

lemma version_normalised_witness:
  "normalize_mq_version (Some (two_chars 9 @ two_chars 4 @ two_chars 0 @ two_chars 10)) =
     Some (join (lit ''.'') [str_nat 9, str_nat 4, str_nat 0, str_nat 10])"
  using version_normalised [of 9 4 0 10] by simp

end
