(* ===== verification/Tools_Base.thy ===== *)
theory Tools_Base
  imports Topology Engine
begin

text \<open>
  \<open>tools/base.py\<close>: the response envelope and \<open>open_qm\<close>, and the best-effort queries that the
  tools share. A tool is a computation on a connector; the context manager is a function of the
  body that runs inside it.
\<close>

section \<open>What a tool takes from its process\<close>

text \<open>
  NFKC normalisation, the order in which a set of strings is enumerated, the successive readings
  of the clock in microseconds and the time stamp of the response.
\<close>

record runtime =
  rt_nfkc :: "pystr \<Rightarrow> pystr"
  rt_iter_set :: "pystr list \<Rightarrow> pystr list"
  rt_clock :: "nat \<Rightarrow> int"
  rt_now :: pystr

record services =
  sv_inventory :: inventory
  sv_resolve :: "pystr \<Rightarrow> exn + mq_credential"
  sv_registry :: "kc_registry option"

definition registry_of :: "services \<Rightarrow> kc_registry" where
  "registry_of sv = (case sv_registry sv of None \<Rightarrow> default_registry | Some r \<Rightarrow> r)"

section \<open>The response\<close>

record check_result =
  cr_findings :: "rcs_finding list"
  cr_raw_evidence :: "(pystr \<times> pyval) list"

definition of_evidence :: "pystr pydict \<Rightarrow> pyval" where
  "of_evidence ev = PDict (map (\<lambda>(k, v). (k, PStr v)) ev)"

definition topology_dict :: "fingerprint \<Rightarrow> pyval" where
  "topology_dict t =
     PDict [(lit ''topology'', PStr (topology_value (fp_topology t))),
            (lit ''mq_version'', of_opt_str (fp_mq_version t)),
            (lit ''platform'', of_opt_str (fp_platform t)),
            (lit ''is_clustered'', PBool (fp_is_clustered t)),
            (lit ''is_native_ha'', PBool (fp_is_native_ha t)),
            (lit ''is_rdqm'', PBool (fp_is_rdqm t)),
            (lit ''has_standby'', PBool (fp_has_standby t)),
            (lit ''evidence'', of_evidence (fp_evidence t))]"

definition response_fields ::
  "runtime \<Rightarrow> pystr \<Rightarrow> pystr \<Rightarrow> fingerprint \<Rightarrow> check_result \<Rightarrow> (pystr \<times> pyval) list" where
  "response_fields rt tool qm fp res =
     [(lit ''tool'', PStr tool),
      (lit ''qm_name'', PStr qm),
      (lit ''topology'', topology_dict fp),
      (lit ''findings'', PList (map (as_dict (rt_nfkc rt)) (cr_findings res))),
      (lit ''raw_evidence'', PDict (cr_raw_evidence res)),
      (lit ''generated_at'', PStr (rt_now rt)),
      (lit ''trust_level'', PStr (lit ''rcs_findings''))]"

definition tool_response :: "runtime \<Rightarrow> pystr \<Rightarrow> pystr \<Rightarrow> fingerprint \<Rightarrow> check_result \<Rightarrow> pyval" where
  "tool_response rt tool qm fp res = sanitize (rt_nfkc rt) (PDict (response_fields rt tool qm fp res))"

section \<open>The connection of a tool\<close>

definition open_qm ::
  "'s connector \<Rightarrow> services \<Rightarrow> pystr \<Rightarrow> (qm_entry \<Rightarrow> fingerprint \<Rightarrow> ('s, 'a) act) \<Rightarrow> ('s, 'a) act" where
  "open_qm C sv qm body =
     bind_act (lift_res (inv_get (sv_inventory sv) qm)) (\<lambda>entry.
     bind_act (lift_res (sv_resolve sv (secret_ref entry))) (\<lambda>credential.
     bind_act (op_connect C entry credential) (\<lambda>_.
     finally_do (bind_act (detect C) (body entry)) (op_disconnect C))))"

text \<open>The shape of every single-category tool: open, run the checks, build the response.\<close>

definition run_tool ::
  "'s connector \<Rightarrow> runtime \<Rightarrow> services \<Rightarrow> pystr \<Rightarrow> pystr \<Rightarrow>
     (fingerprint \<Rightarrow> kc_registry \<Rightarrow> ('s, check_result) act) \<Rightarrow> ('s, pyval) act" where
  "run_tool C rt sv tool qm checks =
     open_qm C sv qm (\<lambda>_ fp.
       bind_act (checks fp (registry_of sv)) (\<lambda>res. ret (tool_response rt tool qm fp res)))"

section \<open>Best-effort queries\<close>

definition safe_rows :: "'s connector \<Rightarrow> pystr \<Rightarrow> ('s, row list) act" where
  "safe_rows C command =
     or_else (bind_act (op_mqsc C command) (\<lambda>r. ret (map to_row (mr_rows r)))) []"

definition safe_shell :: "'s connector \<Rightarrow> pystr list \<Rightarrow> ('s, pystr) act" where
  "safe_shell C argv = or_else (op_shell C argv) []"

lemma no_raise_queries [total_intros]: "no_raise (safe_rows C c)" "no_raise (safe_shell C argv)"
  by (simp_all add: safe_rows_def safe_shell_def no_raise_or_else)

context mq_connector
begin

lemma queries_grow [trace_intros]: "grows tr (safe_rows C c)" "grows tr (safe_shell C argv)"
  unfolding safe_rows_def safe_shell_def by (intro trace_intros mqsc_trace shell_trace)+

lemma open_qm_grows:
  assumes "\<And>entry fp. grows tr (body entry fp)"
  shows "grows tr (open_qm C sv qm body)"
  unfolding open_qm_def
  by (intro trace_intros connect_trace disconnect_trace detect_grows assms)

lemma run_tool_grows:
  assumes "\<And>fp reg. grows tr (checks fp reg)"
  shows "grows tr (run_tool C rt sv tool qm checks)"
  unfolding run_tool_def by (intro open_qm_grows trace_intros assms)

text \<open>When the connection succeeded, the connector is disconnected at the end, whatever happened
  in between.\<close>

lemma open_qm_disconnects:
  assumes "inv_get (sv_inventory sv) qm = Inr entry" and "sv_resolve sv (secret_ref entry) = Inr credential"
    and "op_connect C entry credential s = (Inr (), s1)"
  shows "\<not> connected (snd (open_qm C sv qm body s))"
  using assms finally_disconnected
  by (simp add: open_qm_def bind_act_def lift_res_def)

lemma open_qm_result:
  assumes "inv_get (sv_inventory sv) qm = Inr entry" and "sv_resolve sv (secret_ref entry) = Inr credential"
    and "op_connect C entry credential s = (Inr (), s1)"
    and body: "\<And>fp. no_raise (body entry fp)"
    and disc: "\<And>s. fst (op_disconnect C s) = Inr ()"
  shows "\<exists>r. fst (open_qm C sv qm body s) = Inr r"
proof -
  have "no_raise (bind_act (detect C) (body entry))"
    by (intro total_intros no_raise_detect body)
  then obtain r s2 where "bind_act (detect C) (body entry) s1 = (Inr r, s2)"
    using no_raiseD [of "bind_act (detect C) (body entry)" s1] by blast
  moreover obtain s3 where "op_disconnect C s2 = (Inr (), s3)"
    using disc [of s2] by (metis prod.collapse)
  ultimately show ?thesis
    using assms(1-3) by (simp add: open_qm_def bind_act_def lift_res_def finally_do_def)
qed

end

end
