(* ===== verification/Tools_Mqsc.thy ===== *)
theory Tools_Mqsc
  imports Tools_Base Match_Channels Match_Dlq Match_Cluster Match_NativeHA Match_Zos
    "HOL-Library.List_Lexorder"
begin

text \<open>
  The tools that query over MQSC: \<open>tools/channels.py\<close>, \<open>tools/dlq.py\<close>, \<open>tools/cluster.py\<close>,
  \<open>tools/native_ha.py\<close> and \<open>tools/zos.py\<close>. Each has a function that gathers the inputs and
  calls the matcher, and the tool that runs it on a connection of its own.
\<close>

definition pnat :: "nat \<Rightarrow> pyval" where
  "pnat n = PInt (int n)"

section \<open>Channels\<close>

definition log_tail_limit :: nat where "log_tail_limit = 200"

text \<open>\<open>xs[-n:]\<close>.\<close>

definition last_n :: "nat \<Rightarrow> 'a list \<Rightarrow> 'a list" where
  "last_n n xs = drop (length xs - n) xs"

definition collect_channel_status :: "'s connector \<Rightarrow> ('s, row list) act" where
  "collect_channel_status C = safe_rows C (lit ''DISPLAY CHSTATUS(*) ALL'')"

definition read_error_log_tail :: "'s connector \<Rightarrow> ('s, pystr) act" where
  "read_error_log_tail C =
     or_else (bind_act (op_mqsc C (lit ''DISPLAY QMSTATUS'')) (\<lambda>r.
       ret (join newline (last_n log_tail_limit (splitlines (mr_raw r)))))) []"

definition channel_result :: "runtime \<Rightarrow> row list \<Rightarrow> pystr \<Rightarrow> kc_registry \<Rightarrow> pystr option \<Rightarrow> check_result" where
  "channel_result rt channels log_tail registry version =
     \<lparr> cr_findings = match_channel_failures (rt_iter_set rt)
         \<lparr> ch_channels = channels, ch_error_log_tail = log_tail \<rparr> registry version,
       cr_raw_evidence =
         [(lit ''channels_examined'', pnat (length channels)),
          (lit ''log_tail_lines'', pnat (length (splitlines log_tail)))] \<rparr>"

definition run_channel_checks ::
  "'s connector \<Rightarrow> runtime \<Rightarrow> fingerprint \<Rightarrow> kc_registry \<Rightarrow> ('s, check_result) act" where
  "run_channel_checks C rt fp registry =
     bind_act (collect_channel_status C) (\<lambda>channels.
     bind_act (read_error_log_tail C) (\<lambda>log_tail.
     ret (channel_result rt channels log_tail registry (fp_mq_version fp))))"

definition diagnose_failed_channels :: "'s connector \<Rightarrow> runtime \<Rightarrow> services \<Rightarrow> pystr \<Rightarrow> ('s, pyval) act" where
  "diagnose_failed_channels C rt sv qm =
     run_tool C rt sv (lit ''diagnose_failed_channels'') qm (run_channel_checks C rt)"

section \<open>Dead-letter queue\<close>

definition max_sample :: int where "max_sample = 500"
definition default_sample :: int where "default_sample = 50"

definition default_dlq :: pystr where "default_dlq = lit ''SYSTEM.DEAD.LETTER.QUEUE''"

text \<open>The first non-empty DEADQ of the rows.\<close>

fun first_deadq :: "pystr pydict list \<Rightarrow> pystr" where
  "first_deadq [] = default_dlq"
| "first_deadq (r # rows) =
     (case map_of r (lit ''DEADQ'') of
        None \<Rightarrow> first_deadq rows
      | Some q \<Rightarrow> if q = [] then first_deadq rows else q)"

definition resolve_dlq_name :: "'s connector \<Rightarrow> ('s, pystr) act" where
  "resolve_dlq_name C =
     or_else (bind_act (op_mqsc C (lit ''DISPLAY QMGR DEADQ'')) (\<lambda>r. ret (first_deadq (mr_rows r)))) default_dlq"

definition run_dlq_checks ::
  "'s connector \<Rightarrow> int \<Rightarrow> fingerprint \<Rightarrow> kc_registry \<Rightarrow> ('s, check_result) act" where
  "run_dlq_checks C sample_size fp registry =
     (if sample_size < 1 \<or> sample_size > max_sample then
        raise (ValueError (lit ''sample_size must be in [1, 500]''))
      else
        bind_act (resolve_dlq_name C) (\<lambda>dlq_name.
        bind_act (op_browse C dlq_name sample_size) (\<lambda>browse.
        bind_act (lift_res (match_dlq_findings (browse_dict browse) registry (fp_mq_version fp))) (\<lambda>findings.
        ret \<lparr> cr_findings = findings,
              cr_raw_evidence =
                [(lit ''dlq_name'', PStr (br_queue_name browse)),
                 (lit ''queue_depth'', PInt (br_queue_depth browse)),
                 (lit ''sample_size'', pnat (br_sample_size browse)),
                 (lit ''bodies_read'', PBool False)] \<rparr>))))"

definition analyze_dlq :: "'s connector \<Rightarrow> runtime \<Rightarrow> services \<Rightarrow> int \<Rightarrow> pystr \<Rightarrow> ('s, pyval) act" where
  "analyze_dlq C rt sv sample_size qm =
     run_tool C rt sv (lit ''analyze_dlq_and_suggest_reprocessing'') qm (run_dlq_checks C sample_size)"

section \<open>Clusters\<close>

text \<open>\<open>sorted({str(r.get("CLUSTER", "")) for r in rows if r.get("CLUSTER")})\<close>.\<close>

definition clusters_seen :: "row list \<Rightarrow> pystr list" where
  "clusters_seen rows =
     sort (remdups (map (\<lambda>r. str_cell (get_d r (lit ''CLUSTER'') (CStr [])))
       (filter (\<lambda>r. truthy (get r (lit ''CLUSTER''))) rows)))"

definition cluster_result ::
  "runtime \<Rightarrow> row list \<Rightarrow> pystr \<Rightarrow> pystr \<Rightarrow> kc_registry \<Rightarrow> pystr option \<Rightarrow> check_result" where
  "cluster_result rt clusqmgrs repos_raw this_qm registry version =
     \<lparr> cr_findings = match_cluster_findings (rt_clock rt)
         \<lparr> cl_clusqmgrs = clusqmgrs, cl_repos = repos_raw, cl_this_qm = this_qm \<rparr> registry version,
       cr_raw_evidence =
         [(lit ''clusqmgr_rows'', pnat (length clusqmgrs)),
          (lit ''clusters_seen'', of_strs (clusters_seen clusqmgrs)),
          (lit ''this_qm'', PStr this_qm)] \<rparr>"

definition run_cluster_checks ::
  "'s connector \<Rightarrow> runtime \<Rightarrow> pystr \<Rightarrow> fingerprint \<Rightarrow> kc_registry \<Rightarrow> ('s, check_result) act" where
  "run_cluster_checks C rt fallback_qm_name fp registry =
     bind_act (safe_rows C (lit ''DISPLAY CLUSQMGR(*) ALL'')) (\<lambda>clusqmgrs.
     bind_act (safe_raw C (lit ''DISPLAY QMGR REPOS REPOSNL'')) (\<lambda>repos_raw.
     bind_act (safe_attr C (lit ''DISPLAY QMGR QMNAME'') (lit ''QMNAME'')) (\<lambda>name.
     ret (cluster_result rt clusqmgrs repos_raw (por (opt_text name) fallback_qm_name) registry
            (fp_mq_version fp)))))"

definition check_cluster_health :: "'s connector \<Rightarrow> runtime \<Rightarrow> services \<Rightarrow> pystr \<Rightarrow> ('s, pyval) act" where
  "check_cluster_health C rt sv qm =
     run_tool C rt sv (lit ''check_cluster_health'') qm (run_cluster_checks C rt qm)"

section \<open>Native HA\<close>

text \<open>The classes \<open>[A-Z]\<close> and \<open>[A-Z0-9._%/]\<close> under \<open>re.IGNORECASE\<close>.\<close>

definition letter_i :: "nat \<Rightarrow> bool" where
  "letter_i x \<longleftrightarrow> is_upper_letter x \<or> is_lower_letter x \<or> x \<in> {0x130, 0x131, 0x17F, 0x212A}"

definition group_char :: "nat \<Rightarrow> bool" where
  "group_char x \<longleftrightarrow> letter_i x \<or> is_digit x \<or> x \<in> {46, 95, 37, 47}"

text \<open>\<open>KEY\\s*\\(\\s*(body)\\s*\\)\<close>, case ignored.\<close>

definition attr_pattern :: "pystr \<Rightarrow> rx \<Rightarrow> rx" where
  "attr_pattern key body =
     RSeq (RLitI key) (RSeq (RStar (RCls is_space)) (RSeq (RCls (\<lambda>c. c = 40))
       (RSeq (RStar (RCls is_space)) (RSeq (RGrp 1 body) (RSeq (RStar (RCls is_space)) (RCls (\<lambda>c. c = 41)))))))"

definition crr_lag_re :: rx where
  "crr_lag_re = attr_pattern (lit ''REPLICATIONLAG'') (RPlus (RCls is_digit))"

definition rg_re :: rx where
  "rg_re = attr_pattern (lit ''RECOVERYGROUP'') (RPlus (RCls group_char))"

definition crr_role_re :: rx where
  "crr_role_re = attr_pattern (lit ''RGROLE'') (RPlus (RCls letter_i))"

text \<open>\<open>m.group(n) if m else default\<close>.\<close>

definition search_group :: "nat \<Rightarrow> rx \<Rightarrow> pystr \<Rightarrow> pystr option" where
  "search_group n r s = (case re_search r s of None \<Rightarrow> None | Some (_, m) \<Rightarrow> m_group n m)"

text \<open>The empty row stands for \<open>None\<close>.\<close>

definition parse_crr :: "pystr \<Rightarrow> row" where
  "parse_crr raw =
     (let rg = search_group 1 rg_re raw; lag = search_group 1 crr_lag_re raw;
          role = search_group 1 crr_role_re raw
      in if raw = [] \<or> rg = None \<and> lag = None then []
         else [(lit ''enabled'', CBool True),
               (lit ''recovery_group'', CStr (opt_text rg)),
               (lit ''lag_seconds'',
                CInt (case lag of None \<Rightarrow> 0 | Some d \<Rightarrow> (case parse_int d of None \<Rightarrow> 0 | Some i \<Rightarrow> i))),
               (lit ''role'', CStr (opt_text role))])"

definition count_field :: "pystr \<Rightarrow> pystr \<Rightarrow> row list \<Rightarrow> nat" where
  "count_field k v rows = length (filter (\<lambda>i. upper (str_cell (get_d i k (CStr []))) = v) rows)"

definition native_ha_input :: "row list \<Rightarrow> pystr \<Rightarrow> native_ha_raw" where
  "native_ha_input instances rg_raw =
     \<lparr> nh_instances = instances,
       nh_quorum_required = CInt (if instances = [] then 0 else int (length instances div 2 + 1)),
       nh_crr = parse_crr rg_raw \<rparr>"

definition native_ha_evidence :: "row list \<Rightarrow> row \<Rightarrow> (pystr \<times> pyval) list" where
  "native_ha_evidence instances crr =
     [(lit ''instance_count'', pnat (length instances)),
      (lit ''in_sync_count'', pnat (count_field (lit ''INSYNC'') (lit ''YES'') instances)),
      (lit ''active_count'', pnat (count_field (lit ''ROLE'') (lit ''ACTIVE'') instances)),
      (lit ''crr_enabled'', PBool (truthy (get crr (lit ''enabled'')))),
      (lit ''crr_lag_seconds'', PInt (int_or (cell_or (get crr (lit ''lag_seconds'')) (CInt 0)) 0))]"

definition run_native_ha_checks :: "'s connector \<Rightarrow> fingerprint \<Rightarrow> kc_registry \<Rightarrow> ('s, check_result) act" where
  "run_native_ha_checks C fp registry =
     bind_act (safe_rows C (lit ''DISPLAY NATIVEHASTATUS'')) (\<lambda>instances.
     bind_act (safe_raw C (lit ''DISPLAY QMSTATUS RECOVERYGROUP'')) (\<lambda>rg_raw.
     bind_act (lift_res (match_native_ha_findings (native_ha_input instances rg_raw) registry (fp_mq_version fp))) (\<lambda>findings.
     ret \<lparr> cr_findings = findings, cr_raw_evidence = native_ha_evidence instances (parse_crr rg_raw) \<rparr>)))"

definition diagnose_native_ha_issues :: "'s connector \<Rightarrow> runtime \<Rightarrow> services \<Rightarrow> pystr \<Rightarrow> ('s, pyval) act" where
  "diagnose_native_ha_issues C rt sv qm =
     run_tool C rt sv (lit ''diagnose_native_ha_issues'') qm (run_native_ha_checks C)"

section \<open>z/OS\<close>

text \<open>The queue sharing group's name is the first non-empty one; every row with a QMNAME is a member.\<close>

fun qsg_name_of :: "row list \<Rightarrow> pystr \<Rightarrow> pystr" where
  "qsg_name_of [] qsg = qsg"
| "qsg_name_of (r # rows) qsg =
     qsg_name_of rows (case map_of r (lit ''QSGNAME'') of
         Some v \<Rightarrow> if qsg = [] then str_cell v else qsg | None \<Rightarrow> qsg)"

definition qsg_members_of :: "row list \<Rightarrow> row list" where
  "qsg_members_of rows =
     concat (map (\<lambda>r. case map_of r (lit ''QMNAME'') of
         None \<Rightarrow> []
       | Some v \<Rightarrow> [[(lit ''name'', CStr (str_cell v)),
                     (lit ''status'', CStr (str_cell (get_d r (lit ''STATUS'') (CStr []))))]]) rows)"

fun chin_status_of :: "row list \<Rightarrow> pystr" where
  "chin_status_of [] = []"
| "chin_status_of (r # rows) =
     (case map_of r (lit ''CHINIT'') of Some v \<Rightarrow> str_cell v | None \<Rightarrow> chin_status_of rows)"

definition zos_input :: "row list \<Rightarrow> row list \<Rightarrow> row list \<Rightarrow> row list \<Rightarrow> row list \<Rightarrow> zos_raw" where
  "zos_input group_rows chinit_rows pagesets bufferpools cf_rows =
     (let chin_status = chin_status_of chinit_rows
      in \<lparr> zr_group = Some \<lparr> zg_qsg_name = CStr (qsg_name_of group_rows []),
                            zg_members = qsg_members_of group_rows \<rparr>,
           zr_chin = (if chin_status = [] then [] else [(lit ''status'', CStr chin_status)]),
           zr_pagesets = pagesets, zr_bufferpools = bufferpools, zr_cf_structures = cf_rows \<rparr>)"

definition run_zos_checks :: "'s connector \<Rightarrow> fingerprint \<Rightarrow> kc_registry \<Rightarrow> ('s, check_result) act" where
  "run_zos_checks C fp registry =
     bind_act (safe_rows C (lit ''DISPLAY GROUP'')) (\<lambda>group_rows.
     bind_act (safe_rows C (lit ''DISPLAY QMSTATUS CHINIT'')) (\<lambda>chinit_rows.
     bind_act (safe_rows C (lit ''DISPLAY USAGE PSID(*)'')) (\<lambda>pagesets.
     bind_act (safe_rows C (lit ''DISPLAY USAGE BUFFPOOL(*)'')) (\<lambda>bufferpools.
     bind_act (safe_rows C (lit ''DISPLAY CFSTATUS(*) ALL'')) (\<lambda>cf_rows.
     ret \<lparr> cr_findings = match_zos_findings (zos_input group_rows chinit_rows pagesets bufferpools cf_rows)
             registry (fp_mq_version fp),
           cr_raw_evidence =
             [(lit ''qsg_name'', PStr (qsg_name_of group_rows [])),
              (lit ''qsg_member_count'', pnat (length (qsg_members_of group_rows))),
              (lit ''pageset_count'', pnat (length pagesets)),
              (lit ''bufferpool_count'', pnat (length bufferpools)),
              (lit ''cf_structure_count'', pnat (length cf_rows)),
              (lit ''chin_status'', PStr (chin_status_of chinit_rows))] \<rparr>)))))"

definition diagnose_zos_qsg_issues :: "'s connector \<Rightarrow> runtime \<Rightarrow> services \<Rightarrow> pystr \<Rightarrow> ('s, pyval) act" where
  "diagnose_zos_qsg_issues C rt sv qm =
     run_tool C rt sv (lit ''diagnose_zos_qsg_issues'') qm (run_zos_checks C)"

section \<open>What holds on every connector\<close>

context mq_connector
begin

lemma run_checks_grow [trace_intros]:
  "grows tr (run_channel_checks C rt fp reg)" "grows tr (run_dlq_checks C n fp reg)"
  "grows tr (run_cluster_checks C rt q fp reg)" "grows tr (run_native_ha_checks C fp reg)"
  "grows tr (run_zos_checks C fp reg)"
  unfolding run_channel_checks_def collect_channel_status_def read_error_log_tail_def run_dlq_checks_def
    resolve_dlq_name_def run_cluster_checks_def run_native_ha_checks_def run_zos_checks_def
  by (intro trace_intros mqsc_trace browse_trace)+

lemma mqsc_tools_grow:
  "grows tr (diagnose_failed_channels C rt sv qm)" "grows tr (analyze_dlq C rt sv n qm)"
  "grows tr (check_cluster_health C rt sv qm)" "grows tr (diagnose_native_ha_issues C rt sv qm)"
  "grows tr (diagnose_zos_qsg_issues C rt sv qm)"
  unfolding diagnose_failed_channels_def analyze_dlq_def check_cluster_health_def
    diagnose_native_ha_issues_def diagnose_zos_qsg_issues_def
  by (intro run_tool_grows trace_intros)+

end

end
