(* ===== verification/HealthCheck.thy ===== *)
theory HealthCheck
  imports Tools_Mqsc "HOL-Library.Product_Lexorder" "HOL-Library.Multiset"
begin

text \<open>
  \<open>tools/health_check.py\<close>: the composite check. The three categories run on one connection,
  a failing category is skipped, and the findings are sorted and summarised.
\<close>

section \<open>Severities are ordered\<close>

fun severity_rank :: "severity \<Rightarrow> nat" where
  "severity_rank CRITICAL = 0"
| "severity_rank HIGH = 1"
| "severity_rank MEDIUM = 2"
| "severity_rank LOW = 3"
| "severity_rank INFO = 4"

lemma severity_rank_inject [simp]: "severity_rank s = severity_rank t \<longleftrightarrow> s = t"
  by (cases s; cases t) simp_all

text \<open>The most severe comes first.\<close>

instantiation severity :: linorder
begin

definition less_eq_severity :: "severity \<Rightarrow> severity \<Rightarrow> bool" where
  "s \<le> t \<longleftrightarrow> severity_rank s \<le> severity_rank t"

definition less_severity :: "severity \<Rightarrow> severity \<Rightarrow> bool" where
  "s < t \<longleftrightarrow> severity_rank s < severity_rank t"

instance
  by standard (auto simp: less_eq_severity_def less_severity_def)

end

definition severities :: "severity list" where
  "severities = [CRITICAL, HIGH, MEDIUM, LOW, INFO]"

lemma set_severities: "set severities = UNIV"
proof -
  have "s \<in> set severities" for s by (cases s) (simp_all add: severities_def)
  then show ?thesis by blast
qed

section \<open>Categories and the sort key\<close>

definition category_rank :: "nat pydict" where
  "category_rank = [(lit ''channels'', 0), (lit ''dlq'', 1), (lit ''cluster'', 2)]"

definition rank_of :: "pystr \<Rightarrow> nat" where
  "rank_of category = (case map_of category_rank category of None \<Rightarrow> 99 | Some n \<Rightarrow> n)"

type_synonym categorised = "pystr \<times> rcs_finding"

definition finding_sort_key :: "categorised \<Rightarrow> nat \<times> nat \<times> pystr" where
  "finding_sort_key item =
     (severity_rank (rcs_severity (snd item)), rank_of (fst item), rcs_issue (snd item))"

definition sorted_findings :: "categorised list \<Rightarrow> categorised list" where
  "sorted_findings all_findings = sort_key finding_sort_key all_findings"

section \<open>The summary\<close>

definition count_severity :: "severity \<Rightarrow> categorised list \<Rightarrow> nat" where
  "count_severity s fs = length (filter (\<lambda>item. rcs_severity (snd item) = s) fs)"

definition count_category :: "pystr \<Rightarrow> categorised list \<Rightarrow> nat" where
  "count_category c fs = length (filter (\<lambda>item. fst item = c) fs)"

definition overall_status :: "categorised list \<Rightarrow> pystr" where
  "overall_status fs =
     (if count_severity CRITICAL fs \<noteq> 0 then lit ''CRITICAL''
      else if count_severity HIGH fs \<noteq> 0 then lit ''HIGH''
      else if count_severity MEDIUM fs \<noteq> 0 then lit ''MEDIUM''
      else if count_severity LOW fs \<noteq> 0 then lit ''LOW''
      else lit ''OK'')"

definition total_findings :: "categorised list \<Rightarrow> nat" where
  "total_findings fs = sum_list (map (\<lambda>s. count_severity s fs) severities)"

definition top_issue :: "categorised \<Rightarrow> pyval" where
  "top_issue item =
     PDict [(lit ''severity'', PStr (severity_value (rcs_severity (snd item)))),
            (lit ''category'', PStr (fst item)),
            (lit ''issue'', PStr (rcs_issue (snd item)))]"

definition build_summary :: "categorised list \<Rightarrow> pyval" where
  "build_summary fs =
     PDict [(lit ''total_findings'', pnat (total_findings fs)),
            (lit ''overall_status'', PStr (overall_status fs)),
            (lit ''by_severity'',
             PDict (map (\<lambda>s. (severity_value s, pnat (count_severity s fs))) severities)),
            (lit ''by_category'',
             PDict (map (\<lambda>c. (c, pnat (count_category c fs))) (map fst category_rank))),
            (lit ''top_issues'', PList (map top_issue (take 5 fs)))]"

section \<open>Running the categories\<close>

text \<open>What has been gathered so far.\<close>

record health_state =
  hs_run :: "pystr list"
  hs_skipped :: "(pystr \<times> pystr) list"
  hs_findings :: "categorised list"
  hs_evidence :: "(pystr \<times> pyval) list"

definition health_init :: health_state where
  "health_init = \<lparr> hs_run = [], hs_skipped = [], hs_findings = [], hs_evidence = [] \<rparr>"

type_synonym category_result = "rcs_finding list \<times> (pystr \<times> pyval) list"

definition run_channels ::
  "'s connector \<Rightarrow> runtime \<Rightarrow> fingerprint \<Rightarrow> kc_registry \<Rightarrow> ('s, category_result) act" where
  "run_channels C rt fp registry =
     bind_act (run_channel_checks C rt fp registry) (\<lambda>res. ret (cr_findings res, cr_raw_evidence res))"

definition run_dlq ::
  "'s connector \<Rightarrow> int \<Rightarrow> fingerprint \<Rightarrow> kc_registry \<Rightarrow> ('s, category_result) act" where
  "run_dlq C sample_size fp registry =
     bind_act (run_dlq_checks C sample_size fp registry) (\<lambda>res. ret (cr_findings res, cr_raw_evidence res))"

definition run_cluster ::
  "'s connector \<Rightarrow> runtime \<Rightarrow> pystr \<Rightarrow> fingerprint \<Rightarrow> kc_registry \<Rightarrow> ('s, category_result) act" where
  "run_cluster C rt qm fp registry =
     bind_act (run_cluster_checks C rt qm fp registry) (\<lambda>res. ret (cr_findings res, cr_raw_evidence res))"

definition record_category :: "pystr \<Rightarrow> exn + category_result \<Rightarrow> health_state \<Rightarrow> health_state" where
  "record_category name r h =
     (case r of
        Inl e \<Rightarrow> h\<lparr> hs_skipped := hs_skipped h @ [(name, class_name e)] \<rparr>
      | Inr (fs, raw) \<Rightarrow>
          h\<lparr> hs_run := hs_run h @ [name],
             hs_evidence := dict_set name (PDict raw) (hs_evidence h),
             hs_findings := hs_findings h @ map (Pair name) fs \<rparr>)"

text \<open>\<open>_safe_run\<close> and the bookkeeping after it.\<close>

definition safe_run :: "pystr \<Rightarrow> ('s, category_result) act \<Rightarrow> health_state \<Rightarrow> ('s, health_state) act" where
  "safe_run name checks h s = (case checks s of (r, s') \<Rightarrow> (Inr (record_category name r h), s'))"

definition run_categories ::
  "'s connector \<Rightarrow> runtime \<Rightarrow> int \<Rightarrow> pystr \<Rightarrow> fingerprint \<Rightarrow> kc_registry \<Rightarrow> ('s, health_state) act" where
  "run_categories C rt dlq_sample_size qm fp registry =
     bind_act (safe_run (lit ''channels'') (run_channels C rt fp registry) health_init) (\<lambda>h.
     bind_act (safe_run (lit ''dlq'') (run_dlq C dlq_sample_size fp registry) h) (\<lambda>h.
     safe_run (lit ''cluster'') (run_cluster C rt qm fp registry) h))"

definition skipped_dict :: "pystr \<times> pystr \<Rightarrow> pyval" where
  "skipped_dict s = PDict [(lit ''category'', PStr (fst s)), (lit ''error'', PStr (snd s))]"

text \<open>\<open>{**finding.as_dict(), "category": category}\<close>.\<close>

definition with_category :: "runtime \<Rightarrow> categorised \<Rightarrow> pyval" where
  "with_category rt item =
     (case as_dict (rt_nfkc rt) (snd item) of
        PDict kvs \<Rightarrow> PDict (dict_set (lit ''category'') (PStr (fst item)) kvs)
      | v \<Rightarrow> v)"

definition health_fields ::
  "runtime \<Rightarrow> int \<Rightarrow> pystr \<Rightarrow> fingerprint \<Rightarrow> health_state \<Rightarrow> (pystr \<times> pyval) list" where
  "health_fields rt duration_ms qm fp h =
     (let fs = sorted_findings (hs_findings h)
      in [(lit ''tool'', PStr (lit ''full_mq_health_check'')),
          (lit ''qm_name'', PStr qm),
          (lit ''topology'', topology_dict fp),
          (lit ''summary'', build_summary fs),
          (lit ''findings'', PList (map (with_category rt) fs)),
          (lit ''raw_evidence'', PDict (hs_evidence h)),
          (lit ''checks_run'', of_strs (hs_run h)),
          (lit ''checks_skipped'', PList (map skipped_dict (hs_skipped h))),
          (lit ''duration_ms'', PInt duration_ms),
          (lit ''generated_at'', PStr (rt_now rt)),
          (lit ''trust_level'', PStr (lit ''rcs_findings''))])"

definition health_response :: "runtime \<Rightarrow> int \<Rightarrow> pystr \<Rightarrow> fingerprint \<Rightarrow> health_state \<Rightarrow> pyval" where
  "health_response rt duration_ms qm fp h =
     sanitize (rt_nfkc rt) (PDict (health_fields rt duration_ms qm fp h))"

definition full_mq_health_check ::
  "'s connector \<Rightarrow> runtime \<Rightarrow> services \<Rightarrow> int \<Rightarrow> int \<Rightarrow> pystr \<Rightarrow> ('s, pyval) act" where
  "full_mq_health_check C rt sv dlq_sample_size duration_ms qm =
     bind_act (open_qm C sv qm (\<lambda>_ fp.
         bind_act (run_categories C rt dlq_sample_size qm fp (registry_of sv)) (\<lambda>h. ret (fp, h))))
       (\<lambda>(fp, h). ret (health_response rt duration_ms qm fp h))"

section \<open>What holds on every connector\<close>

lemma no_raise_safe_run [total_intros]: "no_raise (safe_run name checks h)"
  by (auto simp: no_raise_def safe_run_def split: prod.split)

lemma no_raise_categories: "no_raise (run_categories C rt n qm fp reg)"
  unfolding run_categories_def by (intro total_intros)

lemma grows_safe_run [trace_intros]: "grows tr checks \<Longrightarrow> grows tr (safe_run name checks h)"
  unfolding grows_def safe_run_def by (auto split: prod.split) (metis snd_conv)

context mq_connector
begin

lemma health_check_grows: "grows tr (full_mq_health_check C rt sv n d qm)"
  unfolding full_mq_health_check_def run_categories_def run_channels_def run_dlq_def run_cluster_def
  by (intro trace_intros open_qm_grows) (auto intro: trace_intros)

lemma health_check_result:
  assumes "inv_get (sv_inventory sv) qm = Inr entry" and "sv_resolve sv (secret_ref entry) = Inr credential"
    and "op_connect C entry credential s = (Inr (), s1)"
    and disc: "\<And>s. fst (op_disconnect C s) = Inr ()"
  shows "\<exists>r. fst (full_mq_health_check C rt sv n d qm s) = Inr r"
proof -
  let ?body = "\<lambda>(_ :: qm_entry) fp. bind_act (run_categories C rt n qm fp (registry_of sv)) (\<lambda>h. ret (fp, h))"
  have "no_raise (?body entry fp)" for fp
    by (intro total_intros no_raise_categories)
  from open_qm_result [where body = ?body, OF assms(1-3) this disc]
  obtain r where r: "fst (open_qm C sv qm ?body s) = Inr r" by blast
  obtain q s' where q: "open_qm C sv qm ?body s = (q, s')" by (rule prod.exhaust)
  with r have "q = Inr r" by simp
  with q show ?thesis by (simp add: full_mq_health_check_def bind_act_def ret_def split: prod.split)
qed

end

section \<open>Properties\<close>

lemma sorted_findings_perm: "mset (sorted_findings fs) = mset fs"
  by (simp add: sorted_findings_def)

lemma count_severity_mset: "count_severity s fs = size (filter_mset (\<lambda>i. rcs_severity (snd i) = s) (mset fs))"
  by (simp add: count_severity_def flip: mset_filter)

lemma count_severity_sorted: "count_severity s (sorted_findings fs) = count_severity s fs"
  by (simp add: count_severity_mset sorted_findings_perm)

lemma total_findings_length: "total_findings fs = length fs"
proof (induction fs)
  case Nil
  show ?case by (simp add: total_findings_def severities_def count_severity_def)
next
  case (Cons f fs)
  then show ?case
    by (cases "rcs_severity (snd f)") (simp_all add: total_findings_def severities_def count_severity_def)
qed

lemma count_severity_0: "count_severity s fs = 0 \<longleftrightarrow> (\<forall>f \<in> set fs. rcs_severity (snd f) \<noteq> s)"
  by (auto simp: count_severity_def filter_empty_conv)

lemma hd_sorted_severity:
  assumes "sorted_findings fs = f # gs" and "g \<in> set fs"
  shows "rcs_severity (snd f) \<le> rcs_severity (snd g)"
proof -
  have "sorted (map finding_sort_key (f # gs))"
    using assms(1) sorted_sort_key [of finding_sort_key fs] by (simp add: sorted_findings_def)
  moreover have "g \<in> set (f # gs)"
    using assms by (metis set_mset_mset sorted_findings_perm)
  ultimately have "finding_sort_key f \<le> finding_sort_key g" by auto
  then show ?thesis
    by (auto simp: finding_sort_key_def less_eq_prod_def less_prod_def less_eq_severity_def split: if_splits)
qed

text \<open>The health report ranks and loses nothing: its findings are exactly the gathered ones, in
  ascending order of severity rank, category rank and issue; findings that tie on all three keep
  the order in which they were gathered.\<close>
theorem findings_ranked:
  "mset (sorted_findings fs) = mset fs \<and>
   sorted (map finding_sort_key (sorted_findings fs)) \<and>
   filter (\<lambda>f. finding_sort_key f = k) (sorted_findings fs) = filter (\<lambda>f. finding_sort_key f = k) fs"
  by (simp add: sorted_findings_def sort_key_stable)

text \<open>C27: The overall status is the severity of the first finding of the report, that is of the
  most severe one gathered; it is OK exactly when no finding is worse than INFO.\<close>
theorem overall_status_is_worst:
  "overall_status (sorted_findings fs) =
     (case sorted_findings fs of
        [] \<Rightarrow> lit ''OK''
      | f # _ \<Rightarrow> if rcs_severity (snd f) = INFO then lit ''OK'' else severity_value (rcs_severity (snd f)))"
proof (cases "sorted_findings fs")
  case Nil
  then show ?thesis by (simp add: overall_status_def count_severity_def)
next
  case (Cons f gs)
  have least: "rcs_severity (snd f) \<le> rcs_severity (snd g)" if "g \<in> set (f # gs)" for g
    using hd_sorted_severity [OF Cons, of g] that Cons by (metis set_mset_mset sorted_findings_perm)
  have zero: "count_severity s (f # gs) = 0" if "s < rcs_severity (snd f)" for s
    unfolding count_severity_0 by (metis least leD that)
  have own: "count_severity (rcs_severity (snd f)) (f # gs) \<noteq> 0"
    by (auto simp: count_severity_0)
  show ?thesis
    using zero own unfolding Cons
    by (cases "rcs_severity (snd f)") (simp_all add: overall_status_def less_severity_def)
qed

text \<open>The totals of the summary agree: the number of findings is the number gathered, it is the
  sum over the severities, and over the categories when every finding is from one of the three.\<close>
theorem summary_totals:
  assumes "list_all (\<lambda>f. fst f \<in> set (map fst category_rank)) fs"
  shows "total_findings (sorted_findings fs) = length fs \<and>
    sum_list (map (\<lambda>c. count_category c (sorted_findings fs)) (map fst category_rank)) = length fs"
proof -
  have len: "length (sorted_findings fs) = length fs"
    by (simp add: sorted_findings_def)
  have all: "list_all (\<lambda>f. fst f \<in> set (map fst category_rank)) (sorted_findings fs)"
    using assms by (simp add: sorted_findings_def list_all_iff)
  have "list_all (\<lambda>f. fst f \<in> set (map fst category_rank)) gs \<Longrightarrow>
    sum_list (map (\<lambda>c. count_category c gs) (map fst category_rank)) = length gs" for gs
  proof (induction gs)
    case Nil
    show ?case by (simp add: category_rank_def count_category_def)
  next
    case (Cons g gs)
    have "lit ''channels'' \<noteq> lit ''dlq''" "lit ''channels'' \<noteq> lit ''cluster''" "lit ''dlq'' \<noteq> lit ''cluster''"
      by (simp_all add: lit_def)
    with Cons show ?case by (auto simp: category_rank_def count_category_def)
  qed
  from this [OF all] show ?thesis by (simp add: total_findings_length len)
qed

lemma run_categories_state:
  assumes "fst (run_categories C rt n qm fp reg s) = Inr h"
  shows "mset (hs_run h @ map fst (hs_skipped h)) = mset (map fst category_rank) \<and>
    list_all (\<lambda>f. fst f \<in> set (hs_run h)) (hs_findings h)"
  using assms
  by (auto simp: run_categories_def bind_act_def safe_run_def record_category_def health_init_def
      category_rank_def list_all_iff split: prod.splits sum.splits)

text \<open>C28: One bad category cannot hide the others or fail the tool: on the live connector the three
  categories always complete, each is listed exactly once as run or as skipped, and every finding
  comes from a category that was run.\<close>
theorem categories_accounted:
  "\<exists>h. fst (run_categories (pymqi_connector env) rt n qm fp reg s) = Inr h \<and>
     mset (hs_run h @ map fst (hs_skipped h)) = mset (map fst category_rank) \<and>
     list_all (\<lambda>f. fst f \<in> set (hs_run h)) (hs_findings h)"
proof -
  obtain h where "fst (run_categories (pymqi_connector env) rt n qm fp reg s) = Inr h"
    using no_raiseD [OF no_raise_categories, of "pymqi_connector env" rt n qm fp reg s] by force
  with run_categories_state [OF this] show ?thesis by blast
qed

end
