(* ===== verification/Tools_Shell.thy ===== *)
theory Tools_Shell
  imports Tools_Base Match_Rdqm Match_Miqm
begin

text \<open>
  The tools that read shell diagnostics: \<open>tools/rdqm.py\<close> (the parsers of \<open>rdqmstatus\<close>,
  \<open>crm_mon\<close> and \<open>drbdadm\<close>) and \<open>tools/miqm.py\<close> (the parser of \<open>dspmq -x\<close>).
\<close>

section \<open>Pattern shorthands\<close>

abbreviation rsp :: rx where "rsp \<equiv> RCls is_space"
abbreviation rns :: rx where "rns \<equiv> RCls (\<lambda>c. \<not> is_space c)"
abbreviation rdot :: rx where "rdot \<equiv> RCls (\<lambda>c. c \<noteq> 10)"

fun rseq :: "rx list \<Rightarrow> rx" where
  "rseq [] = REps"
| "rseq [r] = r"
| "rseq (r # rs) = RSeq r (rseq rs)"

definition group1 :: "nat \<Rightarrow> (pystr \<times> mstate) option \<Rightarrow> pystr option" where
  "group1 n m = (case m of None \<Rightarrow> None | Some (_, t) \<Rightarrow> m_group n t)"

section \<open>rdqmstatus\<close>

definition rdqm_qm_name_re :: rx where
  "rdqm_qm_name_re = rseq [RBol, RLit (lit ''Queue manager name:''), RPlus rsp, RGrp 1 (RPlus rns)]"

definition rdqm_ha_state_re :: rx where
  "rdqm_ha_state_re =
     rseq [RBol, ROpt (RLitI (lit ''HA '')), ROpt (RLitI (lit ''current '')), RLitI (lit ''status:''),
       RPlus rsp, RGrp 1 (RPlus rdot), REol]"

definition rdqm_running_re :: rx where
  "rdqm_running_re =
     rseq [RBol, RAlt (RLitI (lit ''Running on'')) (RLitI (lit ''Current node'')), RLitI (lit '':''),
       RPlus rsp, RGrp 1 (RPlus rns)]"

definition rdqm_preferred_re :: rx where
  "rdqm_preferred_re = rseq [RBol, RLitI (lit ''Preferred location:''), RPlus rsp, RGrp 1 (RPlus rns)]"

definition rdqm_replica_line_re :: rx where
  "rdqm_replica_line_re =
     rseq [RBol, RStar rsp, RLitI (lit ''Node:''), RPlus rsp, RGrp 1 (RPlus rns), RPlus rsp,
       RAlt (RLitI (lit ''HA replica'')) (RLitI (lit ''Status'')), RLitI (lit '':''), RPlus rsp,
       RGrp 2 (RPlus rdot), REol]"

record rdqm_view =
  rv_status :: row
  rv_replicas :: "row list"

text \<open>\<open>{}\<close> is the view without fields.\<close>

definition parse_rdqmstatus :: "pystr \<Rightarrow> pystr \<Rightarrow> rdqm_view" where
  "parse_rdqmstatus raw fallback_qm =
     (if raw = [] then \<lparr> rv_status = [], rv_replicas = [] \<rparr>
      else
        \<lparr> rv_status =
            [(lit ''qm_name'', CStr (case group1 1 (re_search rdqm_qm_name_re raw) of None \<Rightarrow> fallback_qm | Some s \<Rightarrow> s)),
             (lit ''ha_state'', CStr (strip (opt_text (group1 1 (re_search rdqm_ha_state_re raw))))),
             (lit ''running_node'', CStr (opt_text (group1 1 (re_search rdqm_running_re raw)))),
             (lit ''preferred_location'', CStr (opt_text (group1 1 (re_search rdqm_preferred_re raw))))],
          rv_replicas =
            map (\<lambda>m. [(lit ''node'', CStr (opt_text (group1 1 (Some m)))),
                      (lit ''status'', CStr (strip (opt_text (group1 2 (Some m)))))])
              (re_finditer rdqm_replica_line_re raw) \<rparr>)"

section \<open>crm mon\<close>

definition crm_node_line_re :: rx where
  "crm_node_line_re =
     rseq [RBol, RLit (lit ''* Node''), RPlus rsp, RGrp 1 (RPlus rns), RLit (lit '':''), RPlus rsp, RGrp 2 (RPlus rns)]"

definition crm_list_re :: "pystr \<Rightarrow> rx" where
  "crm_list_re label =
     rseq [RBol, RLit label, RStar rsp, RLit (lit ''[''), RStar rsp, RGrp 1 (RPlus (RCls (\<lambda>c. c \<noteq> 93))),
       RStar rsp, RLit (lit '']'')]"

definition crm_online_line_re :: rx where "crm_online_line_re = crm_list_re (lit ''Online:'')"
definition crm_offline_line_re :: rx where "crm_offline_line_re = crm_list_re (lit ''OFFLINE:'')"

definition crm_failed_re :: rx where
  "crm_failed_re =
     rseq [RLitI (lit ''*''), RPlus rsp, RGrp 1 (RPlus rns), RLazy rdot,
       RGrp 2 (RAlt (RLitI (lit ''FAILED'')) (RAlt (RLitI (lit ''Stopped''))
         (RAlt (RLitI (lit ''Stop (disabled)'')) (RLitI (lit ''unmanaged''))))),
       RPlus rsp, ROpt (RAlt (RLitI (lit ''on'')) (RLitI (lit ''because''))), RStar rsp, RGrp 3 (RStar rns)]"

text \<open>The per-node lines, used when neither list is there.\<close>

definition node_states :: "pystr \<Rightarrow> (pystr \<times> pystr) list" where
  "node_states raw =
     map (\<lambda>m. (opt_text (group1 1 (Some m)), lower (opt_text (group1 2 (Some m))))) (re_finditer crm_node_line_re raw)"

definition crm_nodes :: "pystr \<Rightarrow> pystr list \<times> pystr list" where
  "crm_nodes raw =
     (let online = split_ws (opt_text (group1 1 (re_search crm_online_line_re raw)));
          offline = split_ws (opt_text (group1 1 (re_search crm_offline_line_re raw)))
      in if online = [] \<and> offline = [] then
           (map fst (filter (\<lambda>(_, st). st = lit ''online'') (node_states raw)),
            map fst (filter (\<lambda>(_, st). st = lit ''offline'' \<or> st = lit ''standby'') (node_states raw)))
         else (online, offline))"

definition crm_failed_resources :: "pystr \<Rightarrow> row list" where
  "crm_failed_resources raw =
     (if sublist (lit ''Failed Resource Actions'') raw \<or> sublist (lit ''Failed Actions'') raw then
        map (\<lambda>m. [(lit ''resource'', CStr (opt_text (group1 1 (Some m)))),
                  (lit ''status'', CStr (opt_text (group1 2 (Some m)))),
                  (lit ''node'', CStr (opt_text (group1 3 (Some m))))])
          (re_finditer crm_failed_re raw)
      else [])"

text \<open>\<open>{}\<close> is \<open>None\<close>.\<close>

definition parse_crm_mon :: "pystr \<Rightarrow> pacemaker_view option" where
  "parse_crm_mon raw =
     (if raw = [] then None
      else case crm_nodes raw of (online, offline) \<Rightarrow>
        Some \<lparr> pm_total_nodes = int (length online + length offline), pm_online_nodes = online,
               pm_offline_nodes = offline, pm_failed_resources = crm_failed_resources raw \<rparr>)"

section \<open>drbdadm status\<close>

definition drbd_resource_header_re :: rx where
  "drbd_resource_header_re =
     rseq [RBos, RGrp 1 (RPlus rns), RPlus rsp, RLit (lit ''role:''), RGrp 2 (RPlus rns), RPlus rsp,
       RLit (lit ''disk:''), RGrp 3 (RPlus rns), RStar rsp, REos]"

definition drbd_peer_header_re :: rx where
  "drbd_peer_header_re =
     rseq [RBos, RPlus rsp, RGrp 1 (RPlus rns), RPlus rsp, RLit (lit ''connection:''), RGrp 2 (RPlus rns),
       RStar rsp, REos]"

definition drbd_peer_detail_re :: rx where
  "drbd_peer_detail_re =
     rseq [RBos, RPlus rsp, RLit (lit ''role:''), RGrp 1 (RPlus rns), RPlus rsp,
       RAlt (RLit (lit ''peer-disk'')) (RLit (lit ''peer disk'')), RLit (lit '':''), RGrp 2 (RPlus rns)]"

definition drbd_split_brain_re :: rx where
  "drbd_split_brain_re = rseq [RLitI (lit ''split''), ROpt rdot, RLitI (lit ''brain'')]"

record drbd_resource =
  dr_name :: pystr
  dr_role :: pystr
  dr_disk :: pystr

record drbd_peer =
  dp_peer :: pystr
  dp_conn :: pystr
  dp_role :: pystr
  dp_disk :: pystr

definition drbd_entry :: "bool \<Rightarrow> drbd_resource \<Rightarrow> drbd_peer \<Rightarrow> row" where
  "drbd_entry marker r p =
     [(lit ''resource'', CStr (dr_name r)), (lit ''role'', CStr (dr_role r)), (lit ''disk_state'', CStr (dr_disk r)),
      (lit ''peer'', CStr (dp_peer p)), (lit ''connection_state'', CStr (dp_conn p)),
      (lit ''peer_role'', CStr (dp_role p)), (lit ''peer_disk_state'', CStr (dp_disk p)),
      (lit ''split_brain'', CBool marker)]"

text \<open>\<open>_flush_peer\<close> on the current resource and the pending peer.\<close>

definition flush_peer :: "bool \<Rightarrow> drbd_resource option \<Rightarrow> drbd_peer option \<Rightarrow> row list" where
  "flush_peer marker res peer =
     (case res of None \<Rightarrow> [] | Some r \<Rightarrow> (case peer of None \<Rightarrow> [] | Some p \<Rightarrow> [drbd_entry marker r p]))"

text \<open>What one line is: a resource header, a peer header, a peer detail or neither.\<close>

datatype drbd_line = DResource drbd_resource | DPeer pystr pystr | DDetail pystr pystr | DOther

definition classify_line :: "bool \<Rightarrow> bool \<Rightarrow> pystr \<Rightarrow> drbd_line" where
  "classify_line in_resource has_peer line =
     (case re_match drbd_resource_header_re line of
        Some m \<Rightarrow> DResource \<lparr> dr_name = opt_text (m_group 1 m), dr_role = opt_text (m_group 2 m),
                             dr_disk = opt_text (m_group 3 m) \<rparr>
      | None \<Rightarrow>
          (case (re_match drbd_peer_header_re line, in_resource) of
             (Some m, True) \<Rightarrow> DPeer (opt_text (m_group 1 m)) (opt_text (m_group 2 m))
           | _ \<Rightarrow>
               (case (re_match drbd_peer_detail_re line, has_peer) of
                  (Some m, True) \<Rightarrow> DDetail (opt_text (m_group 1 m)) (opt_text (m_group 2 m))
                | _ \<Rightarrow> DOther)))"

fun drbd_lines :: "bool \<Rightarrow> drbd_resource option \<Rightarrow> drbd_peer option \<Rightarrow> pystr list \<Rightarrow> row list" where
  "drbd_lines marker res peer [] = flush_peer marker res peer"
| "drbd_lines marker res peer (line # lines) =
     (case classify_line (res \<noteq> None) (peer \<noteq> None) line of
        DResource r \<Rightarrow> flush_peer marker res peer @ drbd_lines marker (Some r) None lines
      | DPeer name conn \<Rightarrow>
          flush_peer marker res peer @
          drbd_lines marker res (Some \<lparr> dp_peer = name, dp_conn = conn, dp_role = [], dp_disk = [] \<rparr>) lines
      | DDetail role disk \<Rightarrow>
          drbd_lines marker res (map_option (\<lambda>p. p\<lparr> dp_role := role, dp_disk := disk \<rparr>) peer) lines
      | DOther \<Rightarrow> drbd_lines marker res peer lines)"

definition unknown_split_brain :: row where
  "unknown_split_brain =
     [(lit ''resource'', CStr (lit ''<unknown>'')), (lit ''role'', CStr []), (lit ''disk_state'', CStr []),
      (lit ''connection_state'', CStr []), (lit ''peer_role'', CStr []), (lit ''peer_disk_state'', CStr []),
      (lit ''split_brain'', CBool True)]"

definition split_brain_marker :: "pystr \<Rightarrow> bool" where
  "split_brain_marker raw \<longleftrightarrow> re_search drbd_split_brain_re raw \<noteq> None"

definition parse_drbd :: "pystr \<Rightarrow> row list" where
  "parse_drbd raw =
     (if raw = [] then []
      else
        let marker = split_brain_marker raw; out = drbd_lines marker None None (splitlines raw)
        in if out = [] \<and> marker then [unknown_split_brain] else out)"

section \<open>The RDQM tool\<close>

definition rdqm_input :: "pystr \<Rightarrow> pystr \<Rightarrow> pystr \<Rightarrow> pystr \<Rightarrow> rdqm_raw" where
  "rdqm_input rdqm_raw crm_raw drbd_raw qm =
     \<lparr> rq_rdqm_status = rv_status (parse_rdqmstatus rdqm_raw qm), rq_pacemaker = parse_crm_mon crm_raw,
       rq_drbd = parse_drbd drbd_raw \<rparr>"

definition rdqm_evidence :: "rdqm_raw \<Rightarrow> (pystr \<times> pyval) list" where
  "rdqm_evidence raw =
     (let count = (\<lambda>n. PInt (case rq_pacemaker raw of None \<Rightarrow> 0 | Some p \<Rightarrow> n p)) in
      [(lit ''pacemaker_total'', count pm_total_nodes),
       (lit ''pacemaker_online'', count (\<lambda>p. int (length (pm_online_nodes p)))),
       (lit ''pacemaker_offline'', count (\<lambda>p. int (length (pm_offline_nodes p)))),
       (lit ''pacemaker_failed_resources'', count (\<lambda>p. int (length (pm_failed_resources p)))),
       (lit ''drbd_resources'', PInt (int (length (rq_drbd raw)))),
       (lit ''drbd_split_brain'', PBool (list_ex (\<lambda>d. truthy (get d (lit ''split_brain''))) (rq_drbd raw))),
       (lit ''rdqm_running_node'',
        PStr (str_cell (cell_or (get (rq_rdqm_status raw) (lit ''running_node'')) (CStr []))))])"

definition run_rdqm_checks :: "'s connector \<Rightarrow> pystr \<Rightarrow> fingerprint \<Rightarrow> kc_registry \<Rightarrow> ('s, check_result) act" where
  "run_rdqm_checks C qm fp registry =
     bind_act (safe_shell C [lit ''rdqmstatus'']) (\<lambda>rdqm_raw.
     bind_act (safe_shell C [lit ''crm_mon'', lit ''-1'']) (\<lambda>crm_raw.
     bind_act (safe_shell C [lit ''drbdadm'', lit ''status'']) (\<lambda>drbd_raw.
     let raw = rdqm_input rdqm_raw crm_raw drbd_raw qm in
     ret \<lparr> cr_findings = match_rdqm_findings raw registry (fp_mq_version fp),
           cr_raw_evidence = rdqm_evidence raw \<rparr>)))"

definition diagnose_rdqm_issues :: "'s connector \<Rightarrow> runtime \<Rightarrow> services \<Rightarrow> pystr \<Rightarrow> ('s, pyval) act" where
  "diagnose_rdqm_issues C rt sv qm =
     run_tool C rt sv (lit ''diagnose_rdqm_issues'') qm (run_rdqm_checks C qm)"

section \<open>The multi-instance tool\<close>

definition instance_line_re :: rx where
  "instance_line_re =
     rseq [RLitI (lit ''QMNAME(''), RGrp 1 (RPlus rns), RLit (lit '')''), RPlus rsp, RLitI (lit ''STATUS(''),
       RGrp 2 (RPlus (RCls (\<lambda>c. c \<noteq> 41))), RLit (lit '')''),
       ROpt (rseq [RPlus rsp, RLitI (lit ''INSTANCE(''), RGrp 3 (RPlus rns), RLit (lit '')'')]),
       ROpt (rseq [RPlus rsp, RLitI (lit ''MODE(''), RGrp 4 (RPlus rns), RLit (lit '')'')])]"

definition standby_permitted_re :: rx where
  "standby_permitted_re =
     rseq [RLitI (lit ''STANDBY(''), RStar rsp, RLitI (lit ''PERMITTED''), RStar rsp, RLit (lit '')'')]"

definition infer_role :: "pystr \<Rightarrow> pystr" where
  "infer_role status =
     (let s = upper status
      in if sublist (lit ''STANDBY'') s then lit ''STANDBY''
         else if sublist (lit ''RUNNING'') s \<or> sublist (lit ''ACTIVE'') s then lit ''ACTIVE''
         else lit ''NONE'')"

definition parse_instance :: "pystr \<times> mstate \<Rightarrow> row" where
  "parse_instance m =
     (let host = opt_text (group1 3 (Some m)); mode = upper (opt_text (group1 4 (Some m)));
          status = strip (opt_text (group1 2 (Some m)));
          instance_type = (if mode = [] then infer_role status else mode)
      in [(lit ''qm_name'', CStr (opt_text (group1 1 (Some m)))), (lit ''host'', CStr host),
          (lit ''status'', CStr status), (lit ''instance_type'', CStr instance_type),
          (lit ''role'', CStr instance_type)])"

definition parse_instances :: "pystr \<Rightarrow> row list" where
  "parse_instances raw = (if raw = [] then [] else map parse_instance (re_finditer instance_line_re raw))"

definition standby_permitted :: "pystr \<Rightarrow> bool" where
  "standby_permitted text \<longleftrightarrow> re_search standby_permitted_re text \<noteq> None"

definition miqm_input :: "row list \<Rightarrow> bool \<Rightarrow> pystr \<Rightarrow> miqm_raw" where
  "miqm_input instances permitted log_tail =
     \<lparr> mi_instances = instances, mi_standby_permitted = CBool permitted, mi_shared_fs_ok = CNone,
       mi_shared_fs_path = CNone, mi_error_log_tail = CStr log_tail \<rparr>"

definition run_miqm_checks :: "'s connector \<Rightarrow> fingerprint \<Rightarrow> kc_registry \<Rightarrow> ('s, check_result) act" where
  "run_miqm_checks C fp registry =
     bind_act (safe_shell C [lit ''dspmq'', lit ''-x'']) (\<lambda>dspmq_x.
     bind_act (safe_shell C [lit ''dspmq'', lit ''-o'', lit ''standby'']) (\<lambda>dspmq_standby.
     bind_act (safe_raw C (lit ''DISPLAY QMSTATUS'')) (\<lambda>log_tail.
     let instances = parse_instances dspmq_x; permitted = standby_permitted dspmq_standby in
     ret \<lparr> cr_findings = match_miqm_findings (miqm_input instances permitted log_tail) registry (fp_mq_version fp),
           cr_raw_evidence =
             [(lit ''instance_count'', PInt (int (length instances))),
              (lit ''active_count'', PInt (int (length (filter (\<lambda>i.
                 upper (str_cell (get_d i (lit ''instance_type'') (CStr []))) = lit ''ACTIVE'') instances)))),
              (lit ''standby_permitted'', PBool permitted)] \<rparr>)))"

definition diagnose_multi_instance_issues ::
  "'s connector \<Rightarrow> runtime \<Rightarrow> services \<Rightarrow> pystr \<Rightarrow> ('s, pyval) act" where
  "diagnose_multi_instance_issues C rt sv qm =
     run_tool C rt sv (lit ''diagnose_multi_instance_issues'') qm (run_miqm_checks C)"

section \<open>What holds on every connector\<close>

lemma no_raise_shell_checks: "no_raise (run_rdqm_checks C q fp reg)" "no_raise (run_miqm_checks C fp reg)"
  unfolding run_rdqm_checks_def run_miqm_checks_def Let_def by (intro total_intros)+

context mq_connector
begin

lemma shell_checks_grow [trace_intros]:
  "grows tr (run_rdqm_checks C q fp reg)" "grows tr (run_miqm_checks C fp reg)"
  unfolding run_rdqm_checks_def run_miqm_checks_def Let_def by (intro trace_intros)+

lemma shell_tools_grow:
  "grows tr (diagnose_rdqm_issues C rt sv qm)" "grows tr (diagnose_multi_instance_issues C rt sv qm)"
  unfolding diagnose_rdqm_issues_def diagnose_multi_instance_issues_def
  by (intro run_tool_grows trace_intros)+

end

section \<open>Properties of the DRBD parser\<close>

lemma drbd_lines_marker:
  "list_all (\<lambda>d. get d (lit ''split_brain'') = CBool marker) (drbd_lines marker res peer lines)"
proof (induction marker res peer lines rule: drbd_lines.induct)
  have flush: "list_all (\<lambda>d. get d (lit ''split_brain'') = CBool m) (flush_peer m r p)" for m r p
    by (auto simp: flush_peer_def drbd_entry_def get_def get_d_def lit_def split: option.split)
  {
    case (1 marker res peer)
    show ?case by (simp add: flush)
  next
    case (2 marker res peer line lines)
    then show ?case
      by (cases "classify_line (res \<noteq> None) (peer \<noteq> None) line") (simp_all add: flush)
  }
qed

text \<open>C29: A split-brain report is never lost and never made up: every parsed entry carries the
  marker exactly when the text of \<open>drbdadm status\<close> mentions a split brain, there is an entry
  whenever it does, and the check that follows reports a CRITICAL finding in exactly that case.\<close>
theorem split_brain_reported:
  "list_all (\<lambda>d. get d (lit ''split_brain'') = CBool (split_brain_marker raw)) (parse_drbd raw) \<and>
   (\<exists>f \<in> set (check_drbd_split_brain (parse_drbd raw) registry v). rcs_severity f = CRITICAL) =
     split_brain_marker raw"
proof -
  let ?D = "parse_drbd raw"
  have all: "list_all (\<lambda>d. get d (lit ''split_brain'') = CBool (split_brain_marker raw)) ?D"
    using drbd_lines_marker [of "split_brain_marker raw"]
    by (auto simp: parse_drbd_def Let_def unknown_split_brain_def get_def get_d_def lit_def)
  have empty: "\<not> split_brain_marker []"
    by (simp add: split_brain_marker_def re_search_def drbd_split_brain_re_def lit_def first_match_def search_from.simps)
  then have ne: "split_brain_marker raw \<Longrightarrow> ?D \<noteq> []"
    by (auto simp: parse_drbd_def Let_def)
  have "(\<exists>f \<in> set (check_drbd_split_brain ?D registry v). rcs_severity f = CRITICAL) \<longleftrightarrow>
    (\<exists>d \<in> set ?D. truthy (get d (lit ''split_brain'')))"
    by (auto simp: check_drbd_split_brain_def finding_drbd_split_brain_def)
  also have "\<dots> \<longleftrightarrow> split_brain_marker raw"
    using all ne by (cases ?D) (auto simp: list_all_iff)
  finally show ?thesis using all by blast
qed

section \<open>Examples\<close>

text \<open>
  When the instances of a queue manager are on lines of their own below its line, only the
  first one becomes a row, so two active instances go unnoticed.
\<close>

definition two_active_instances :: pystr where
  "two_active_instances =
     lit ''QMNAME(Q) STATUS(Running)'' @ [10] @ lit '' INSTANCE(a) MODE(Active)'' @ [10] @
     lit '' INSTANCE(b) MODE(Active)''"

lemma second_instance_lost:
  "length (parse_instances two_active_instances) = 1 \<and>
   check_dual_active (parse_instances two_active_instances) registry v = []"
proof -
  have "length (parse_instances two_active_instances) = 1"
    by (simp add: two_active_instances_def parse_instances_def re_finditer_def find_from.simps
        instance_line_re_def rx_eval same_letter_def del: rx_star_fuel)
  moreover have "check_dual_active xs registry v = []" if "length xs = 1" for xs
    using that by (cases xs) (auto simp: check_dual_active_def Let_def)
  ultimately show ?thesis by blast
qed

text \<open>Two resources, the first with two peers.\<close>

definition sample_drbd :: "pystr list" where
  "sample_drbd =
     [lit ''a role:P disk:U'', lit ''  n1 connection:C'', lit ''    role:S peer-disk:U'',
      lit ''  n2 connection:X'', lit ''b role:S disk:I'', lit ''  n1 connection:C'']"

lemma parse_sample_drbd:
  "drbd_lines False None None sample_drbd =
     [drbd_entry False \<lparr> dr_name = lit ''a'', dr_role = lit ''P'', dr_disk = lit ''U'' \<rparr>
        \<lparr> dp_peer = lit ''n1'', dp_conn = lit ''C'', dp_role = lit ''S'', dp_disk = lit ''U'' \<rparr>,
      drbd_entry False \<lparr> dr_name = lit ''a'', dr_role = lit ''P'', dr_disk = lit ''U'' \<rparr>
        \<lparr> dp_peer = lit ''n2'', dp_conn = lit ''X'', dp_role = [], dp_disk = [] \<rparr>,
      drbd_entry False \<lparr> dr_name = lit ''b'', dr_role = lit ''S'', dr_disk = lit ''I'' \<rparr>
        \<lparr> dp_peer = lit ''n1'', dp_conn = lit ''C'', dp_role = [], dp_disk = [] \<rparr>]"
  by (simp add: sample_drbd_def classify_line_def drbd_resource_header_re_def drbd_peer_header_re_def
      drbd_peer_detail_re_def rx_eval m_group_def flush_peer_def opt_text_def del: rx_star_fuel)

end
