(* ===== verification/Tools.thy ===== *)
theory Tools
  imports HealthCheck Tools_Shell
begin

text \<open>
  What the tools of the server have in common: each one is shown, on the live connector, to run
  allowed commands only, to leave no connection open, and to answer whenever it could connect.
  The facts that hold for every connector come from \<open>mq_connector\<close>.
\<close>

section \<open>The diagnostic tools\<close>

definition all_tools ::
  "'s connector \<Rightarrow> runtime \<Rightarrow> services \<Rightarrow> int \<Rightarrow> int \<Rightarrow> pystr \<Rightarrow> ('s, pyval) act list" where
  "all_tools C rt sv sample_size duration_ms qm =
     [diagnose_failed_channels C rt sv qm,
      analyze_dlq C rt sv sample_size qm,
      check_cluster_health C rt sv qm,
      diagnose_native_ha_issues C rt sv qm,
      diagnose_rdqm_issues C rt sv qm,
      diagnose_multi_instance_issues C rt sv qm,
      diagnose_zos_qsg_issues C rt sv qm,
      full_mq_health_check C rt sv sample_size duration_ms qm]"

lemmas single_tool_defs = diagnose_failed_channels_def analyze_dlq_def check_cluster_health_def
  diagnose_native_ha_issues_def diagnose_rdqm_issues_def diagnose_multi_instance_issues_def
  diagnose_zos_qsg_issues_def

lemma snd_bind_ret: "snd (bind_act m (\<lambda>x. ret (f x)) s) = snd (m s)"
  by (auto simp: bind_act_def ret_def split: prod.split sum.split)

context mq_connector
begin

lemma all_tools_grow: "list_all (grows tr) (all_tools C rt sv n d qm)"
  by (simp add: all_tools_def mqsc_tools_grow shell_tools_grow health_check_grows)

lemma all_tools_disconnect:
  assumes "inv_get (sv_inventory sv) qm = Inr entry" and "sv_resolve sv (secret_ref entry) = Inr credential"
    and "op_connect C entry credential s = (Inr (), s1)"
  shows "list_all (\<lambda>tool. \<not> connected (snd (tool s))) (all_tools C rt sv n d qm)"
proof -
  have "\<not> connected (snd (full_mq_health_check C rt sv n d qm s))"
    unfolding full_mq_health_check_def case_prod_unfold snd_bind_ret
    by (rule open_qm_disconnects [OF assms])
  then show ?thesis
    by (simp add: all_tools_def single_tool_defs run_tool_def open_qm_disconnects [OF assms])
qed

end

lemma no_raise_mqsc_checks:
  "no_raise (run_channel_checks C rt fp reg)" "no_raise (run_cluster_checks C rt q fp reg)"
  "no_raise (run_zos_checks C fp reg)" "no_raise (run_native_ha_checks C fp reg)"
proof -
  show "no_raise (run_channel_checks C rt fp reg)" "no_raise (run_cluster_checks C rt q fp reg)"
    "no_raise (run_zos_checks C fp reg)"
    unfolding run_channel_checks_def collect_channel_status_def read_error_log_tail_def
      run_cluster_checks_def run_zos_checks_def
    by (intro total_intros)+
  have "\<exists>fs. match_native_ha_findings (native_ha_input i r) reg v = Inr fs" for i r v
    by (auto simp: match_native_ha_findings_def native_ha_input_def check_quorum_def cell_or_def Let_def)
  then have "no_raise (lift_res (match_native_ha_findings (native_ha_input i r) reg v))" for i r v
    by (metis no_raise_lift)
  then show "no_raise (run_native_ha_checks C fp reg)"
    unfolding run_native_ha_checks_def by (intro total_intros)
qed

section \<open>Properties\<close>

text \<open>Every tool is read-only end to end: run on the live connector in any state, with any
  inventory, secrets, sample size and queue manager name and whatever the environment answers, it
  only sends commands that pass the allowlist.\<close>
theorem tools_read_only:
  "list_all (\<lambda>tool. \<exists>es. px_trace (snd (tool s)) = px_trace s @ es \<and> ok_trace es)
     (all_tools (pymqi_connector env) rt sv sample_size duration_ms qm)"
  using pymqi.all_tools_grow [of env rt sv sample_size duration_ms qm]
  by (simp add: grows_def list_all_iff)

text \<open>C16: No tool leaves a connection behind: once the queue manager is known, its credential is
  read and the connection is made, every tool has disconnected when it returns, also when a check,
  the detection or the disconnect itself raises.\<close>
theorem tools_disconnect:
  assumes "inv_get (sv_inventory sv) qm = Inr entry"
    and "sv_resolve sv (secret_ref entry) = Inr credential"
    and "fst (pymqi_connect env entry credential s) = Inr ()"
  shows "list_all (\<lambda>tool. \<not> px_qmgr (snd (tool s)))
    (all_tools (pymqi_connector env) rt sv sample_size duration_ms qm)"
proof -
  have "op_connect (pymqi_connector env) entry credential s =
      (Inr (), snd (pymqi_connect env entry credential s))"
    using assms(3) by (simp add: pymqi_connector_def prod_eq_iff)
  from pymqi.all_tools_disconnect [OF assms(1,2) this] show ?thesis .
qed

lemma no_raise_run: "(\<And>fp reg. no_raise (checks fp reg)) \<Longrightarrow>
  no_raise (bind_act (checks fp reg) (\<lambda>res. ret (tool_response rt tool qm fp res)))"
  by (intro total_intros)

context mq_connector
begin

lemma run_tool_result:
  assumes "inv_get (sv_inventory sv) qm = Inr entry" and "sv_resolve sv (secret_ref entry) = Inr credential"
    and "op_connect C entry credential s = (Inr (), s1)"
    and "\<And>s. fst (op_disconnect C s) = Inr ()" and "\<And>fp reg. no_raise (checks fp reg)"
  shows "is_ok (fst (run_tool C rt sv tool qm checks s))"
proof -
  have "\<exists>r. fst (run_tool C rt sv tool qm checks s) = Inr r"
    unfolding run_tool_def
    by (rule open_qm_result [OF assms(1-3) _ assms(4)]) (rule no_raise_run [OF assms(5)])
  then show ?thesis by auto
qed

end


section \<open>Concrete runs\<close>

definition sample_runtime :: runtime where
  "sample_runtime = \<lparr> rt_nfkc = (\<lambda>s. s), rt_iter_set = remdups, rt_clock = (\<lambda>_. 0), rt_now = [] \<rparr>"

definition sample_services :: services where
  "sample_services =
     \<lparr> sv_inventory = InMemoryInventory [sample_entry], sv_resolve = (\<lambda>_. Inr sample_credential),
       sv_registry = None \<rparr>"

lemma sample_services_facts:
  "inv_get (sv_inventory sample_services) (lit ''QM1'') = Inr sample_entry"
  "sv_resolve sample_services ref = Inr sample_credential"
  "fst (pymqi_connect (sample_env b) sample_entry sample_credential pymqi_init) = Inr ()"
  "me_pcf_disconnect (sample_env b) = None" "me_qmgr_disconnect (sample_env b) = None"
  by (simp_all add: sample_services_def inv_get_def InMemoryInventory_def dict_update_def sample_connected)
    (simp_all add: sample_entry_def sample_env_def)

lemma tools_disconnect_witness:
  "list_all (\<lambda>tool. \<not> px_qmgr (snd (tool pymqi_init)))
    (all_tools (pymqi_connector (sample_env [])) sample_runtime sample_services 50 0 (lit ''QM1''))"
  by (rule tools_disconnect) (rule sample_services_facts)+


section \<open>What the queries of the live connector return\<close>

text \<open>\<open>ensures P m\<close>: every value that \<open>m\<close> returns satisfies \<open>P\<close>.\<close>

definition ensures :: "('a \<Rightarrow> bool) \<Rightarrow> ('s, 'a) act \<Rightarrow> bool" where
  "ensures P m \<longleftrightarrow> (\<forall>s x. fst (m s) = Inr x \<longrightarrow> P x)"

lemma ensures_ret: "P x \<Longrightarrow> ensures P (ret x)"
  by (simp add: ensures_def ret_def)

lemma ensures_bind: "ensures P m \<Longrightarrow> (\<And>x. P x \<Longrightarrow> ensures Q (f x)) \<Longrightarrow> ensures Q (bind_act m f)"
  unfolding ensures_def bind_act_def
  by (intro allI) (auto split: prod.splits sum.splits, metis fst_conv)

lemma ensures_or_else: "ensures P m \<Longrightarrow> P d \<Longrightarrow> ensures P (or_else m d)"
  unfolding ensures_def or_else_def
  by (intro allI) (auto split: prod.splits sum.splits, metis fst_conv)

lemma ensures_lift: "(\<And>x. r = Inr x \<Longrightarrow> P x) \<Longrightarrow> ensures P (lift_res r)"
  by (simp add: ensures_def lift_res_def)

lemma ensures_any: "ensures (\<lambda>_. True) m"
  by (simp add: ensures_def)

text \<open>Replies without semicolons and NUL characters, as MQSC output is.\<close>

definition plain_replies :: "mq_env \<Rightarrow> bool" where
  "plain_replies env \<longleftrightarrow>
     (\<forall>tr c response. me_escape env tr c = Inr response \<longrightarrow>
        59 \<notin> set (escaped_reply_text response) \<and> 0 \<notin> set (escaped_reply_text response))"

lemma parsed_row_clean:
  assumes "59 \<notin> set text" "0 \<notin> set text"
  shows "list_all clean_row (map to_row (parse_mqsc_reply text))"
proof -
  have clean: "clean_text v" if "set v \<subseteq> reply_chars text" for v
  proof -
    have "\<not> mqsc_forbidden_char c" if "c \<in> reply_chars text" for c
    proof -
      from that have "c \<in> set text" "\<not> is_linebreak c" by (auto simp: reply_chars_def)
      with assms show ?thesis by (cases c) (auto simp: mqsc_forbidden_char_def is_linebreak_def)
    qed
    with that show ?thesis by (auto simp: clean_text_def list_all_iff)
  qed
  have "clean_row (to_row d)" if "attrs_ok (reply_chars text) d" for d
    using that clean by (auto simp: attrs_ok_def clean_row_def to_row_def list_all_iff)
  with parse_mqsc_reply_ok [of "text"] show ?thesis
    by (auto simp: list_all_iff)
qed

lemma live_rows_clean:
  assumes "plain_replies env"
  shows "ensures (list_all clean_row) (safe_rows (pymqi_connector env) command)"
  unfolding safe_rows_def
proof (rule ensures_or_else [OF ensures_bind])
  show "ensures (\<lambda>r. list_all clean_row (map to_row (mr_rows r))) (op_mqsc (pymqi_connector env) command)"
    using assms parsed_row_clean
    by (auto simp: ensures_def pymqi_connector_def pymqi_mqsc_def Let_def plain_replies_def
        split: sum.splits if_splits)
qed (auto intro: ensures_ret)



text \<open>
  A dead-letter header is written by the application that put the message. Its destination is
  spliced into a fix step unchecked, so a crafted header gives a fix step that the gate refuses.
\<close>

definition crafted_header :: row where
  "crafted_header = [(lit ''dest_q_name'', CStr (lit ''A;B''))]"

lemma crafted_header_breaks_fix_step:
  "\<not> mqsc_ok (hd (fix_steps (finding_for_reason q 2053 [crafted_header] registry v)))"
proof -
  have "hd (fix_steps (finding_for_reason q 2053 [crafted_header] registry v)) =
      lit ''DISPLAY QUEUE('' @ squote (lit ''A;B'') @ lit '') CURDEPTH MAXDEPTH''"
    by (simp add: finding_for_reason_def fix_steps_for_reason_def counter_def counter_add_def
        most_common_def header_texts_def crafted_header_def get_d_Cons Let_def)
  moreover have "59 \<in> set (squote (lit ''A;B''))" by (simp add: lit_def)
  ultimately show ?thesis
    using mqsc_ok_no_forbidden [of _ 59] by (force simp: mqsc_forbidden_char_def)
qed

end
