(* ===== verification/Config.thy ===== *)
theory Config
  imports Values
begin

text \<open>
  \<open>config.py\<close>: the settings and what makes them acceptable in production. pydantic's reading of
  the environment into the records is an argument of \<open>load_settings\<close>; a field whose type is a
  \<open>Literal\<close> is a datatype. The rate limit is a natural number.
\<close>

datatype transport = Stdio | HttpTransport
datatype deployment = Dev | Staging | Prod
datatype connector_setting = Auto | FixtureSetting | PymqiSetting
datatype connector_mode = FixtureMode | PymqiMode

fun deployment_value :: "deployment \<Rightarrow> pystr" where
  "deployment_value Dev = lit ''dev''"
| "deployment_value Staging = lit ''staging''"
| "deployment_value Prod = lit ''prod''"

record security_config =
  sc_enforce_readonly :: bool
  sc_max_response_bytes :: int
  sc_max_mqsc_rows :: int
  sc_max_log_lines :: int
  sc_rate_limit_per_minute :: nat
  sc_allowed_doc_hosts :: "pystr list"

record auth_config =
  ac_oidc_issuer :: "pystr option"
  ac_oidc_audience :: "pystr option"
  ac_oidc_jwks_url :: "pystr option"
  ac_oidc_scopes :: "pystr option"
  ac_disable_auth_for_local_dev :: bool

record audit_config =
  au_log_path :: pystr
  au_hash_chain :: bool
  au_forward_syslog :: bool
  au_syslog_address :: "pystr option"

record telemetry_config =
  tc_otlp_endpoint :: "pystr option"
  tc_service_name :: pystr
  tc_metrics_port :: int

record server_config =
  sv_transport :: transport
  sv_http_host :: pystr
  sv_http_port :: int
  sv_environment :: deployment
  sv_inventory_dir :: "pystr option"
  sv_connector :: connector_setting
  sv_public_url :: "pystr option"
  sv_secrets_dir :: "pystr option"

record settings =
  st_server :: server_config
  st_security :: security_config
  st_auth :: auth_config
  st_audit :: audit_config
  st_telemetry :: telemetry_config

definition default_settings :: settings where
  "default_settings =
     \<lparr> st_server = \<lparr> sv_transport = Stdio, sv_http_host = lit ''127.0.0.1'', sv_http_port = 8080,
         sv_environment = Dev, sv_inventory_dir = None, sv_connector = Auto, sv_public_url = None,
         sv_secrets_dir = None \<rparr>,
       st_security = \<lparr> sc_enforce_readonly = True, sc_max_response_bytes = 256 * 1024, sc_max_mqsc_rows = 500,
         sc_max_log_lines = 1000, sc_rate_limit_per_minute = 60, sc_allowed_doc_hosts = [lit ''www.ibm.com''] \<rparr>,
       st_auth = \<lparr> ac_oidc_issuer = None, ac_oidc_audience = None, ac_oidc_jwks_url = None,
         ac_oidc_scopes = None, ac_disable_auth_for_local_dev = False \<rparr>,
       st_audit = \<lparr> au_log_path = lit ''./audit.jsonl'', au_hash_chain = True, au_forward_syslog = False,
         au_syslog_address = None \<rparr>,
       st_telemetry = \<lparr> tc_otlp_endpoint = None, tc_service_name = lit ''mq-sentinel'', tc_metrics_port = 9464 \<rparr> \<rparr>"

text \<open>A setting that is absent or empty does not count as given.\<close>

definition given :: "pystr option \<Rightarrow> bool" where
  "given v \<longleftrightarrow> v \<noteq> None \<and> v \<noteq> Some []"

definition resolved_connector :: "server_config \<Rightarrow> connector_mode" where
  "resolved_connector sv =
     (case sv_connector sv of
        Auto \<Rightarrow> if given (sv_inventory_dir sv) then PymqiMode else FixtureMode
      | FixtureSetting \<Rightarrow> FixtureMode
      | PymqiSetting \<Rightarrow> PymqiMode)"

definition assert_production_safe :: "settings \<Rightarrow> exn + unit" where
  "assert_production_safe st =
     (if sv_environment (st_server st) = Prod \<and> ac_disable_auth_for_local_dev (st_auth st) then
        Inl (RuntimeError (lit ''disable_auth_for_local_dev is not permitted in production environment''))
      else if sv_environment (st_server st) = Prod \<and> resolved_connector (st_server st) = FixtureMode then
        Inl (RuntimeError (lit ''the demo fixture connector is not permitted in production environment; '' @
          lit ''set MQS_SERVER_INVENTORY_DIR (and MQS_SERVER_SECRETS_DIR) for live QMs''))
      else Inr ())"

definition load_settings :: "exn + settings \<Rightarrow> exn + settings" where
  "load_settings read_settings =
     bind_res read_settings (\<lambda>st. bind_res (assert_production_safe st) (\<lambda>_. Inr st))"

lemma load_settings_safe:
  assumes "load_settings read_settings = Inr st" and "sv_environment (st_server st) = Prod"
  shows "\<not> ac_disable_auth_for_local_dev (st_auth st)" and "resolved_connector (st_server st) = PymqiMode"
  using assms
  by (auto simp: load_settings_def assert_production_safe_def split: if_splits)
    (metis connector_mode.exhaust)

end
