(* ===== verification/Auth.thy ===== *)
theory Auth
  imports Complex_Main Values PyText
begin

text \<open>
  \<open>auth/oidc.py\<close> and \<open>auth/rbac.py\<close>: bearer tokens, the two verifiers and the role table. The JOSE
  library and the HTTP client are the record \<open>jose_env\<close>; the clock reading is an argument. The
  lock makes a key set lookup atomic.
\<close>

section \<open>Bearer tokens and principals\<close>

definition parse_bearer :: "pystr option \<Rightarrow> pystr option" where
  "parse_bearer header_value =
     (case header_value of
        None \<Rightarrow> None
      | Some h \<Rightarrow>
          (case split_ws h of
             [scheme, token] \<Rightarrow> if lower scheme = lit ''bearer'' \<and> strip token \<noteq> [] then Some (strip token) else None
           | _ \<Rightarrow> None))"

record principal =
  pr_subject :: pystr
  pr_tenant :: "pystr option"
  pr_roles :: "pystr list"
  pr_claims :: "(pystr \<times> pyval) list"

section \<open>The development verifier\<close>

definition stub_principal :: "pystr \<Rightarrow> pystr list \<Rightarrow> principal" where
  "stub_principal subject roles =
     \<lparr> pr_subject = subject, pr_tenant = Some (lit ''local''),
       pr_roles = (if roles = [] then [lit ''nonprod-read''] else roles), pr_claims = [] \<rparr>"

definition stub_verify :: "principal \<Rightarrow> pystr \<Rightarrow> exn + principal" where
  "stub_verify p token =
     (if token = [] then Inl (TokenVerificationError (lit ''empty token'')) else Inr p)"

section \<open>The production verifier\<close>

record oidc_config =
  oc_issuer :: pystr
  oc_audience :: pystr
  oc_jwks_url :: "pystr option"
  oc_roles_claim :: pystr
  oc_tenant_claim :: pystr
  oc_leeway :: int
  oc_ttl :: rat
  oc_algorithms :: "pystr list"

record oidc_state =
  os_jwks :: "pyval option"
  os_cached_at :: rat

fun pv_truthy :: "pyval \<Rightarrow> bool" where
  "pv_truthy PNone = False"
| "pv_truthy (PBool b) = b"
| "pv_truthy (PInt i) = (i \<noteq> 0)"
| "pv_truthy (PStr s) = (s \<noteq> [])"
| "pv_truthy (PList vs) = (vs \<noteq> [])"
| "pv_truthy (PTuple vs) = (vs \<noteq> [])"
| "pv_truthy (PDict kvs) = (kvs \<noteq> [])"

text \<open>The key that a token is checked with: one key of the set, or the set as a whole.\<close>

datatype key_choice = KeySet pyval | SingleKey pyval

text \<open>
  \<open>je_header\<close> is the decoded header of a token or nothing when it has no such shape;
  \<open>je_decode\<close> imports the key, decodes the token under the claims options and validates the
  claims, or gives the class of the JOSE, value or key error that it raised; \<open>je_fetch\<close> is the
  body of the key set page at a time, or the class of the error; \<open>je_str\<close> is \<open>str\<close> of a list
  or an object.
\<close>

record jose_env =
  je_header :: "pystr \<Rightarrow> pyval option"
  je_decode :: "key_choice \<Rightarrow> pyval \<Rightarrow> int \<Rightarrow> pystr \<Rightarrow> pystr + (pystr \<times> pyval) list"
  je_fetch :: "rat \<Rightarrow> pystr \<Rightarrow> pystr + pyval"
  je_str :: "pyval \<Rightarrow> pystr"

definition default_algorithms :: "pystr list" where
  "default_algorithms =
     [lit ''RS256'', lit ''RS384'', lit ''RS512'', lit ''ES256'', lit ''ES384'', lit ''PS256'']"

fun supplied :: "pyval option \<Rightarrow> bool" where
  "supplied None = False"
| "supplied (Some v) = pv_truthy v"

text \<open>The constructor of the production verifier, with the default keyword arguments.\<close>

definition new_oidc :: "pystr \<Rightarrow> pystr \<Rightarrow> pystr option \<Rightarrow> pyval option \<Rightarrow> rat \<Rightarrow> exn + oidc_config \<times> oidc_state" where
  "new_oidc issuer audience jwks_url jwks now =
     (if (jwks_url = None \<or> jwks_url = Some []) \<and> \<not> supplied jwks then
        Inl (ValueError (lit ''either jwks_url or jwks must be provided''))
      else if issuer = [] \<or> audience = [] then
        Inl (ValueError (lit ''issuer and audience are required''))
      else
        Inr (\<lparr> oc_issuer = issuer, oc_audience = audience, oc_jwks_url = jwks_url,
               oc_roles_claim = lit ''roles'', oc_tenant_claim = lit ''tenant'', oc_leeway = 30,
               oc_ttl = 600, oc_algorithms = default_algorithms \<rparr>,
             \<lparr> os_jwks = jwks, os_cached_at = (if supplied jwks then now else 0) \<rparr>))"

definition claims_options :: "oidc_config \<Rightarrow> pyval" where
  "claims_options oc =
     PDict [(lit ''iss'', PDict [(lit ''essential'', PBool True), (lit ''value'', PStr (oc_issuer oc))]),
            (lit ''aud'', PDict [(lit ''essential'', PBool True), (lit ''value'', PStr (oc_audience oc))]),
            (lit ''exp'', PDict [(lit ''essential'', PBool True)])]"

text \<open>A page whose body is \<open>null\<close> leaves the cache empty.\<close>

definition cached_page :: "pyval \<Rightarrow> pyval option" where
  "cached_page v = (if v = PNone then None else Some v)"

definition get_jwks :: "jose_env \<Rightarrow> oidc_config \<Rightarrow> rat \<Rightarrow> oidc_state \<Rightarrow> (exn + pyval) \<times> oidc_state" where
  "get_jwks je oc now st =
     (case os_jwks st of
        Some jwks \<Rightarrow>
          if now - os_cached_at st < oc_ttl oc then (Inr jwks, st)
          else (case oc_jwks_url oc of
                  None \<Rightarrow> (Inr jwks, st)
                | Some url \<Rightarrow>
                    if url = [] then (Inr jwks, st)
                    else (case je_fetch je now url of
                            Inl _ \<Rightarrow> (Inr jwks, st)
                          | Inr fresh \<Rightarrow> (Inr fresh, \<lparr> os_jwks = cached_page fresh, os_cached_at = now \<rparr>)))
      | None \<Rightarrow>
          (case oc_jwks_url oc of
             None \<Rightarrow> (Inl (TokenVerificationError (lit ''no JWKS available'')), st)
           | Some url \<Rightarrow>
               if url = [] then (Inl (TokenVerificationError (lit ''no JWKS available'')), st)
               else (case je_fetch je now url of
                       Inl cls \<Rightarrow> (Inl (TokenVerificationError (lit ''JWKS fetch failed: '' @ cls)), st)
                     | Inr fresh \<Rightarrow> (Inr fresh, \<lparr> os_jwks = cached_page fresh, os_cached_at = now \<rparr>))))"

definition no_attribute :: exn where
  "no_attribute = AttributeError (lit ''get'')"

text \<open>\<open>v.get(k, d)\<close>, which only objects have, and \<open>for x in v\<close>.\<close>

definition py_get_d :: "pyval \<Rightarrow> pystr \<Rightarrow> pyval \<Rightarrow> exn + pyval" where
  "py_get_d v k d =
     (case v of
        PDict kvs \<Rightarrow> Inr (case map_of kvs k of None \<Rightarrow> d | Some x \<Rightarrow> x)
      | _ \<Rightarrow> Inl no_attribute)"

abbreviation py_get :: "pyval \<Rightarrow> pystr \<Rightarrow> exn + pyval" where
  "py_get v k \<equiv> py_get_d v k PNone"

fun py_iter :: "pyval \<Rightarrow> exn + pyval list" where
  "py_iter (PList vs) = Inr vs"
| "py_iter (PTuple vs) = Inr vs"
| "py_iter (PStr s) = Inr (map (\<lambda>c. PStr [c]) s)"
| "py_iter (PDict kvs) = Inr (map (\<lambda>kv. PStr (fst kv)) kvs)"
| "py_iter _ = Inl (TypeError (lit ''not iterable''))"

fun find_kid :: "oidc_config \<Rightarrow> pyval \<Rightarrow> pyval list \<Rightarrow> exn + key_choice" where
  "find_kid oc kid [] = Inl (TokenVerificationError (lit ''no matching JWK for token kid''))"
| "find_kid oc kid (k # ks) =
     bind_res (py_get k (lit ''kid'')) (\<lambda>v.
       if v \<noteq> kid then find_kid oc kid ks
       else bind_res (py_get k (lit ''alg'')) (\<lambda>alg.
         if pv_truthy alg \<and> alg \<notin> PStr ` set (oc_algorithms oc) then
           Inl (TokenVerificationError (lit ''disallowed signing algorithm''))
         else Inr (SingleKey k)))"

definition header_kid :: "jose_env \<Rightarrow> pystr \<Rightarrow> pyval" where
  "header_kid je token =
     (case je_header je (before 46 token) of
        Some (PDict kvs) \<Rightarrow> (case map_of kvs (lit ''kid'') of None \<Rightarrow> PNone | Some v \<Rightarrow> v)
      | _ \<Rightarrow> PNone)"

definition select_key :: "jose_env \<Rightarrow> oidc_config \<Rightarrow> pystr \<Rightarrow> pyval \<Rightarrow> exn + key_choice" where
  "select_key je oc token jwks =
     (if \<not> pv_truthy (header_kid je token) then Inr (KeySet jwks)
      else bind_res (py_get_d jwks (lit ''keys'') (PList [])) (\<lambda>keys.
        bind_res (py_iter keys) (find_kid oc (header_kid je token))))"

definition only_strings :: "pyval list \<Rightarrow> pystr list" where
  "only_strings vs = concat (map (\<lambda>v. case v of PStr s \<Rightarrow> [s] | _ \<Rightarrow> []) vs)"

definition extract_roles :: "oidc_config \<Rightarrow> (pystr \<times> pyval) list \<Rightarrow> pystr list" where
  "extract_roles oc claims =
     (case map_of claims (oc_roles_claim oc) of
        Some (PList vs) \<Rightarrow> only_strings vs
      | Some (PStr s) \<Rightarrow> split_ws (replace_ch 44 [32] s)
      | _ \<Rightarrow>
          (case map_of claims (lit ''realm_access'') of
             Some (PDict realm) \<Rightarrow>
               (case map_of realm (lit ''roles'') of Some (PList vs) \<Rightarrow> only_strings vs | _ \<Rightarrow> [])
           | _ \<Rightarrow> []))"

definition py_str :: "jose_env \<Rightarrow> pyval \<Rightarrow> pystr" where
  "py_str je v =
     (case v of
        PNone \<Rightarrow> lit ''None'' | PBool b \<Rightarrow> (if b then lit ''True'' else lit ''False'')
      | PInt i \<Rightarrow> str_int i | PStr s \<Rightarrow> s | _ \<Rightarrow> je_str je v)"

definition principal_of :: "jose_env \<Rightarrow> oidc_config \<Rightarrow> (pystr \<times> pyval) list \<Rightarrow> exn + principal" where
  "principal_of je oc claims =
     (let sub = (case map_of claims (lit ''sub'') of None \<Rightarrow> PNone | Some v \<Rightarrow> v);
          subject = (if pv_truthy sub then py_str je sub else [])
      in if subject = [] then Inl (TokenVerificationError (lit ''token missing 'sub' claim''))
         else Inr \<lparr> pr_subject = subject,
                    pr_tenant = (case map_of claims (oc_tenant_claim oc) of
                                   None \<Rightarrow> None | Some PNone \<Rightarrow> None | Some v \<Rightarrow> Some (py_str je v)),
                    pr_roles = extract_roles oc claims, pr_claims = claims \<rparr>)"

definition oidc_verify ::
  "jose_env \<Rightarrow> oidc_config \<Rightarrow> rat \<Rightarrow> pystr \<Rightarrow> oidc_state \<Rightarrow> (exn + principal) \<times> oidc_state" where
  "oidc_verify je oc now token st =
     (if token = [] then (Inl (TokenVerificationError (lit ''missing token'')), st)
      else (case get_jwks je oc now st of
              (Inl e, st') \<Rightarrow> (Inl e, st')
            | (Inr jwks, st') \<Rightarrow>
                (bind_res (select_key je oc token jwks) (\<lambda>key.
                   case je_decode je key (claims_options oc) (oc_leeway oc) token of
                     Inl cls \<Rightarrow> Inl (TokenVerificationError (lit ''token verification failed: '' @ cls))
                   | Inr claims \<Rightarrow> principal_of je oc claims), st')))"

section \<open>The verifier protocol\<close>

text \<open>
  What the server relies on in either verifier: the empty token is refused and changes nothing, and
  a verified principal has a subject, the name that is rate limited and written to the audit log.
  The development verifier keeps the second promise when it was made with a subject.
\<close>

locale token_verifier =
  fixes verify :: "rat \<Rightarrow> pystr \<Rightarrow> 'v \<Rightarrow> (exn + principal) \<times> 'v"
    and wf :: "'v \<Rightarrow> bool"
  assumes empty_refused: "\<exists>m. verify now [] v = (Inl (TokenVerificationError m), v)"
    and verified_subject: "wf v \<Longrightarrow> fst (verify now token v) = Inr p \<Longrightarrow> pr_subject p \<noteq> []"
    and verify_keeps: "wf v \<Longrightarrow> wf (snd (verify now token v))"
begin

lemma verified_token: "fst (verify now token v) = Inr p \<Longrightarrow> token \<noteq> []"
  using empty_refused [of now v] by (cases "token = []") auto

lemma run_keeps: "wf v \<Longrightarrow> wf (fold (\<lambda>(now, token) v. snd (verify now token v)) calls v)"
  by (induction calls arbitrary: v) (auto simp: verify_keeps)

lemma later_subject:
  assumes "wf v" and "fst (verify now token (fold (\<lambda>(now, token) v. snd (verify now token v)) calls v)) = Inr p"
  shows "pr_subject p \<noteq> []"
  using run_keeps [OF assms(1)] assms(2) by (rule verified_subject)

end

interpretation stub: token_verifier "\<lambda>_ token p. (stub_verify p token, p)" "\<lambda>p. pr_subject p \<noteq> []"
  by unfold_locales (auto simp: stub_verify_def split: if_splits)

lemma principal_of_subject: "principal_of je oc claims = Inr p \<Longrightarrow> pr_subject p \<noteq> []"
  by (auto simp: principal_of_def Let_def split: if_splits)

interpretation oidc: token_verifier "oidc_verify je oc" "\<lambda>_. True" for je oc
proof unfold_locales
  show "\<exists>m. oidc_verify je oc now [] st = (Inl (TokenVerificationError m), st)" for now st
    by (simp add: oidc_verify_def)
  show "pr_subject p \<noteq> []" if "fst (oidc_verify je oc now token st) = Inr p" for now token st p
  proof -
    from that obtain claims where "principal_of je oc claims = Inr p"
      by (cases "get_jwks je oc now st" rule: prod.exhaust; cases "fst (get_jwks je oc now st)";
        cases "select_key je oc token (projr (fst (get_jwks je oc now st)))")
        (auto simp: oidc_verify_def split: if_splits sum.splits)
    then show ?thesis by (rule principal_of_subject)
  qed
qed simp

section \<open>Roles\<close>

datatype action = READ_NONPROD | READ_PROD | AUDIT_VIEW

fun action_value :: "action \<Rightarrow> pystr" where
  "action_value READ_NONPROD = lit ''read:nonprod''"
| "action_value READ_PROD = lit ''read:prod''"
| "action_value AUDIT_VIEW = lit ''audit:view''"

definition role_grants :: "action list pydict" where
  "role_grants =
     [(lit ''nonprod-read'', [READ_NONPROD]),
      (lit ''prod-read'', [READ_NONPROD, READ_PROD]),
      (lit ''admin-audit'', [READ_NONPROD, READ_PROD, AUDIT_VIEW])]"

definition allowed_actions :: "principal \<Rightarrow> action list" where
  "allowed_actions p =
     concat (map (\<lambda>r. case map_of role_grants r of None \<Rightarrow> [] | Some grants \<Rightarrow> grants) (pr_roles p))"

definition authorize :: "principal \<Rightarrow> action \<Rightarrow> exn + unit" where
  "authorize p a =
     (if a \<notin> set (allowed_actions p) then
        Inl (AuthorizationError (lit ''principal '' @ py_repr (pr_subject p) @
          lit '' lacks required action '' @ py_repr (action_value a)))
      else Inr ())"

section \<open>Bearer headers\<close>

lemma takeWhile_word: "(\<And>c. c \<in> set w \<Longrightarrow> \<not> is_space c) \<Longrightarrow> takeWhile (\<lambda>c. \<not> is_space c) w = w"
  by (rule takeWhile_idem_if_all) blast

lemma split_ws_head:
  assumes "w \<noteq> []" and "\<And>c. c \<in> set w \<Longrightarrow> \<not> is_space c"
  shows "split_ws w = [w]" and "is_space d \<Longrightarrow> split_ws (w @ d # s) = w # split_ws s"
proof -
  have drop: "dropWhile is_space (w @ s) = w @ s" for s
    using assms by (cases w) auto
  have tw: "takeWhile (\<lambda>c. \<not> is_space c) w = w" "dropWhile (\<lambda>c. \<not> is_space c) w = []"
    using assms(2) by (auto intro: takeWhile_word simp: dropWhile_Nil_iff)
  show "split_ws w = [w]"
    using split_ws_step [OF drop [of "[]"]] assms(1) tw by simp
  assume d: "is_space d"
  have "takeWhile (\<lambda>c. \<not> is_space c) (w @ d # s) = w" "dropWhile (\<lambda>c. \<not> is_space c) (w @ d # s) = d # s"
    using assms(2) d by (auto simp: takeWhile_append2 dropWhile_append2)
  with split_ws_step [OF drop [of "d # s"]] d show "split_ws (w @ d # s) = w # split_ws s"
    by (simp add: split_ws_space)
qed

lemma parse_bearer_token: "parse_bearer h = Some t \<Longrightarrow> t \<noteq> []"
  by (auto simp: parse_bearer_def split: option.splits list.splits if_splits)

text \<open>C39: A token without white space is read back from the header it was sent in, whatever the
  case of the scheme; and what is read from a header is never empty and never holds white space.\<close>
theorem bearer_roundtrip:
  "(scheme \<noteq> [] \<and> (\<forall>c \<in> set scheme. \<not> is_space c) \<and> lower scheme = lit ''bearer'' \<and>
     token \<noteq> [] \<and> (\<forall>c \<in> set token. \<not> is_space c) \<longrightarrow>
     parse_bearer (Some (scheme @ 32 # token)) = Some token) \<and>
   (parse_bearer header_value = Some t \<longrightarrow> t \<noteq> [] \<and> (\<forall>c \<in> set t. \<not> is_space c))"
proof (intro conjI impI)
  assume a: "scheme \<noteq> [] \<and> (\<forall>c \<in> set scheme. \<not> is_space c) \<and> lower scheme = lit ''bearer'' \<and>
     token \<noteq> [] \<and> (\<forall>c \<in> set token. \<not> is_space c)"
  have "is_space 32" by (simp add: is_space_def)
  with a have "split_ws (scheme @ 32 # token) = [scheme, token]"
    using split_ws_head [of scheme] split_ws_head(1) [of token] by auto
  moreover have "strip token = token" using a by (auto intro: strip_no_space)
  ultimately show "parse_bearer (Some (scheme @ 32 # token)) = Some token"
    using a by (simp add: parse_bearer_def)
next
  assume "parse_bearer header_value = Some t"
  then show "t \<noteq> []" by (rule parse_bearer_token)
next
  assume "parse_bearer header_value = Some t"
  then obtain h scheme token where "split_ws h = [scheme, token]" "t = strip token"
    by (auto simp: parse_bearer_def split: option.splits list.splits if_splits)
  moreover from this(1) split_ws_tokens [of token h] have "\<forall>c \<in> set token. \<not> is_space c" by simp
  ultimately show "\<forall>c \<in> set t. \<not> is_space c" using set_strip [of token] by blast
qed

lemma bearer_roundtrip_witness:
  "parse_bearer (Some (lit ''BEARER'' @ 32 # lit ''abc'')) = Some (lit ''abc'') \<and> lit ''abc'' \<noteq> []"
proof -
  have "lit ''BEARER'' \<noteq> [] \<and> (\<forall>c \<in> set (lit ''BEARER''). \<not> is_space c) \<and> lower (lit ''BEARER'') = lit ''bearer'' \<and>
    lit ''abc'' \<noteq> [] \<and> (\<forall>c \<in> set (lit ''abc''). \<not> is_space c)"
    by (intro conjI) (simp_all add: lit_def is_space_def lower_def lower_cp_def is_upper_letter_def)
  then have "parse_bearer (Some (lit ''BEARER'' @ 32 # lit ''abc'')) = Some (lit ''abc'')"
    by (rule mp [OF conjunct1 [OF bearer_roundtrip]])
  then show ?thesis by simp
qed

section \<open>What a role grants\<close>

lemma authorize_iff: "authorize p a = Inr () \<longleftrightarrow> a \<in> set (allowed_actions p)"
  by (simp add: authorize_def)

lemma authorize_cases: "authorize p a = Inr () \<or> (\<exists>m. authorize p a = Inl (AuthorizationError m))"
  by (simp add: authorize_def)

lemma granted_iff:
  "a \<in> set (allowed_actions p) \<longleftrightarrow>
     (\<exists>r \<in> set (pr_roles p). r = lit ''admin-audit'' \<or> r = lit ''prod-read'' \<and> a \<noteq> AUDIT_VIEW \<or>
       r = lit ''nonprod-read'' \<and> a = READ_NONPROD)"
proof -
  have "a \<in> set (case map_of role_grants r of None \<Rightarrow> [] | Some grants \<Rightarrow> grants) \<longleftrightarrow>
      r = lit ''admin-audit'' \<or> r = lit ''prod-read'' \<and> a \<noteq> AUDIT_VIEW \<or> r = lit ''nonprod-read'' \<and> a = READ_NONPROD" for r
    by (cases a) (auto simp: role_grants_def)
  then show ?thesis by (auto simp: allowed_actions_def)
qed

section \<open>The key set cache\<close>

text \<open>Verifications at increasing times; what is in the cache was fetched from the URL.\<close>

inductive oidc_step :: "jose_env \<Rightarrow> oidc_config \<Rightarrow> rat \<times> oidc_state \<Rightarrow> rat \<times> oidc_state \<Rightarrow> bool" for je oc where
  verify: "t \<le> now \<Longrightarrow> oidc_step je oc (t, st) (now, snd (oidc_verify je oc now token st))"

inductive_cases oidc_stepE: "oidc_step je oc (t, st) (t', st')"

definition cache_ok :: "jose_env \<Rightarrow> oidc_config \<Rightarrow> rat \<Rightarrow> oidc_state \<Rightarrow> bool" where
  "cache_ok je oc t st \<longleftrightarrow>
     (\<forall>jwks. os_jwks st = Some jwks \<longrightarrow>
        os_cached_at st \<le> t \<and> (\<exists>url. oc_jwks_url oc = Some url \<and> je_fetch je (os_cached_at st) url = Inr jwks))"

definition fetched_set :: "jose_env \<Rightarrow> oidc_config \<Rightarrow> rat \<Rightarrow> pyval \<Rightarrow> bool" where
  "fetched_set je oc now jwks \<longleftrightarrow>
     (\<exists>url t. oc_jwks_url oc = Some url \<and> t \<le> now \<and> je_fetch je t url = Inr jwks \<and>
        (now - t < oc_ttl oc \<or> (\<exists>cls. je_fetch je now url = Inl cls)))"

lemma cache_ok_later: "cache_ok je oc t st \<Longrightarrow> t \<le> now \<Longrightarrow> cache_ok je oc now st"
  by (force simp: cache_ok_def)

lemma cached_page_Some: "cached_page v = Some w \<Longrightarrow> w = v"
  by (simp add: cached_page_def split: if_splits)

lemma get_jwks_cache: "cache_ok je oc now st \<Longrightarrow> cache_ok je oc now (snd (get_jwks je oc now st))"
  unfolding get_jwks_def
  by (auto simp: cache_ok_def dest!: cached_page_Some split: option.splits sum.splits)

lemma get_jwks_fetched:
  assumes "cache_ok je oc now st" and "os_jwks st = None \<or> oc_jwks_url oc \<noteq> Some []" and "0 < oc_ttl oc"
    and "fst (get_jwks je oc now st) = Inr jwks"
  shows "fetched_set je oc now jwks"
proof (cases "os_jwks st")
  case None
  with assms show ?thesis
    by (auto simp: get_jwks_def fetched_set_def split: option.splits sum.splits if_splits)
next
  case (Some v)
  with assms(1,2) obtain url where url: "oc_jwks_url oc = Some url" "url \<noteq> []"
    and v: "je_fetch je (os_cached_at st) url = Inr v" and le: "os_cached_at st \<le> now"
    by (auto simp: cache_ok_def)
  have "jwks = v \<and> (now - os_cached_at st < oc_ttl oc \<or> (\<exists>cls. je_fetch je now url = Inl cls)) \<or>
      je_fetch je now url = Inr jwks"
    using assms(4) Some url by (auto simp: get_jwks_def split: sum.splits if_splits)
  then show ?thesis
    unfolding fetched_set_def using url v le assms(3) by (metis diff_self order.refl)
qed

lemma verify_cache: "cache_ok je oc now st \<Longrightarrow> cache_ok je oc now (snd (oidc_verify je oc now token st))"
  using get_jwks_cache [of je oc now st]
  by (auto simp: oidc_verify_def split: prod.split sum.split)

lemma step_cache:
  assumes "oidc_step je oc (t, st) (t', st')" and "cache_ok je oc t st"
  shows "cache_ok je oc t' st'"
  using assms by (auto elim!: oidc_stepE intro: verify_cache cache_ok_later)

lemma reachable_cache:
  assumes "(oidc_step je oc)\<^sup>*\<^sup>* (t0, st0) (t, st)" and "cache_ok je oc t0 st0"
  shows "cache_ok je oc t st"
  using assms by (induction rule: rtranclp_induct2) (auto intro: step_cache)

section \<open>Accepted tokens\<close>

text \<open>The keys of a set, and the choice of one of them for a token.\<close>

definition keys_of :: "pyval \<Rightarrow> pyval list" where
  "keys_of jwks =
     (case bind_res (py_get_d jwks (lit ''keys'') (PList [])) py_iter of Inl _ \<Rightarrow> [] | Inr ks \<Rightarrow> ks)"

definition key_for :: "jose_env \<Rightarrow> oidc_config \<Rightarrow> pystr \<Rightarrow> pyval \<Rightarrow> key_choice \<Rightarrow> bool" where
  "key_for je oc token jwks key \<longleftrightarrow>
     (if pv_truthy (header_kid je token)
      then \<exists>k alg. key = SingleKey k \<and> k \<in> set (keys_of jwks) \<and> py_get k (lit ''kid'') = Inr (header_kid je token) \<and>
             py_get k (lit ''alg'') = Inr alg \<and> (pv_truthy alg \<longrightarrow> alg \<in> PStr ` set (oc_algorithms oc))
      else key = KeySet jwks)"

lemma find_kid_key:
  "find_kid oc kid ks = Inr key \<Longrightarrow>
     \<exists>k alg. key = SingleKey k \<and> k \<in> set ks \<and> py_get k (lit ''kid'') = Inr kid \<and>
       py_get k (lit ''alg'') = Inr alg \<and> (pv_truthy alg \<longrightarrow> alg \<in> PStr ` set (oc_algorithms oc))"
  by (induction ks) (auto split: if_splits)

lemma select_key_for: "select_key je oc token jwks = Inr key \<Longrightarrow> key_for je oc token jwks key"
  unfolding select_key_def key_for_def keys_of_def
  by (auto split: if_splits dest!: find_kid_key)

lemma oidc_verify_ok:
  assumes "fst (oidc_verify je oc now token st) = Inr p"
  shows "\<exists>jwks key claims. fst (get_jwks je oc now st) = Inr jwks \<and> key_for je oc token jwks key \<and>
    je_decode je key (claims_options oc) (oc_leeway oc) token = Inr claims \<and> principal_of je oc claims = Inr p"
proof -
  obtain r st' where g: "get_jwks je oc now st = (r, st')" by force
  with assms obtain jwks where r: "r = Inr jwks"
    by (cases r) (auto simp: oidc_verify_def split: if_splits)
  with assms g have "bind_res (select_key je oc token jwks) (\<lambda>key.
      case je_decode je key (claims_options oc) (oc_leeway oc) token of
        Inl cls \<Rightarrow> Inl (TokenVerificationError (lit ''token verification failed: '' @ cls))
      | Inr claims \<Rightarrow> principal_of je oc claims) = Inr p"
    by (auto simp: oidc_verify_def split: if_splits)
  then obtain key where "select_key je oc token jwks = Inr key"
    and d: "(case je_decode je key (claims_options oc) (oc_leeway oc) token of
        Inl cls \<Rightarrow> Inl (TokenVerificationError (lit ''token verification failed: '' @ cls))
      | Inr claims \<Rightarrow> principal_of je oc claims) = Inr p" by auto
  moreover from d obtain claims where
    "je_decode je key (claims_options oc) (oc_leeway oc) token = Inr claims" "principal_of je oc claims = Inr p"
    by (cases "je_decode je key (claims_options oc) (oc_leeway oc) token") auto
  ultimately show ?thesis using g r by (auto dest: select_key_for)
qed

text \<open>C14: A token that the production verifier accepts, after any number of earlier
  verifications, was decoded by the JOSE library under the configured issuer and audience and a
  required expiry, with the key of the set that its header names (never one registered for another
  algorithm) or with the whole set when it names none; the set was published at the configured URL
  less than ten minutes ago, or the URL cannot be reached right now; and the principal carries a
  non-empty subject and exactly the roles of the decoded claims.\<close>
theorem accepted_token:
  assumes "new_oidc issuer audience (Some url) None t0 = Inr (oc, st0)"
    and "(oidc_step je oc)\<^sup>*\<^sup>* (t0, st0) (t, st)" and "t \<le> now"
    and "fst (oidc_verify je oc now token st) = Inr p"
  shows "\<exists>jwks fetched key.
    je_fetch je fetched url = Inr jwks \<and> fetched \<le> now \<and>
    (now - fetched < 600 \<or> (\<exists>cls. je_fetch je now url = Inl cls)) \<and>
    key_for je oc token jwks key \<and>
    je_decode je key
      (PDict [(lit ''iss'', PDict [(lit ''essential'', PBool True), (lit ''value'', PStr issuer)]),
              (lit ''aud'', PDict [(lit ''essential'', PBool True), (lit ''value'', PStr audience)]),
              (lit ''exp'', PDict [(lit ''essential'', PBool True)])]) 30 token = Inr (pr_claims p) \<and>
    pr_subject p \<noteq> [] \<and> pr_roles p = extract_roles oc (pr_claims p)"
proof -
  from assms(1) have oc: "oc_issuer oc = issuer" "oc_audience oc = audience" "oc_jwks_url oc = Some url"
      "oc_ttl oc = 600" "oc_leeway oc = 30" "url \<noteq> []" and st0: "os_jwks st0 = None"
    by (auto simp: new_oidc_def split: if_splits)
  from st0 have "cache_ok je oc t0 st0" by (simp add: cache_ok_def)
  with reachable_cache [OF assms(2)] have "cache_ok je oc now st"
    using cache_ok_later assms(3) by blast
  moreover obtain jwks key claims where v: "fst (get_jwks je oc now st) = Inr jwks" "key_for je oc token jwks key"
    "je_decode je key (claims_options oc) (oc_leeway oc) token = Inr claims" "principal_of je oc claims = Inr p"
    using oidc_verify_ok [OF assms(4)] by blast
  ultimately have "fetched_set je oc now jwks"
    using get_jwks_fetched oc by simp
  moreover from v(4) have "pr_claims p = claims" "pr_subject p \<noteq> []" "pr_roles p = extract_roles oc claims"
    by (auto simp: principal_of_def Let_def split: if_splits)
  ultimately show ?thesis
    using v(2,3) oc unfolding fetched_set_def claims_options_def by (metis option.inject)
qed

section \<open>What verification raises\<close>

fun is_object :: "pyval \<Rightarrow> bool" where
  "is_object (PDict _) = True"
| "is_object _ = False"

fun key_list :: "pyval \<Rightarrow> bool" where
  "key_list (PList ks) = list_all is_object ks"
| "key_list _ = False"

definition key_set_shape :: "pyval \<Rightarrow> bool" where
  "key_set_shape jwks =
     (case jwks of
        PDict kvs \<Rightarrow> (case map_of kvs (lit ''keys'') of None \<Rightarrow> True | Some v \<Rightarrow> key_list v)
      | _ \<Rightarrow> False)"

lemma key_listE:
  assumes "key_list v"
  obtains ks where "v = PList ks" "list_all is_object ks"
  using assms by (cases v) auto

lemma py_get_object: "is_object v \<Longrightarrow> \<exists>w. py_get_d v k d = Inr w"
  by (cases v) (auto simp: py_get_d_def)

lemma find_kid_error: "list_all is_object ks \<Longrightarrow> find_kid oc kid ks = Inl e \<Longrightarrow> \<exists>m. e = TokenVerificationError m"
proof (induction ks)
  case (Cons k ks)
  from Cons.prems(1) have "is_object k" by simp
  then obtain v alg where "py_get k (lit ''kid'') = Inr v" "py_get k (lit ''alg'') = Inr alg"
    using py_get_object by blast
  with Cons show ?case by (auto split: if_splits)
qed auto

lemma select_key_error:
  assumes "key_set_shape jwks" and "select_key je oc token jwks = Inl e"
  shows "\<exists>m. e = TokenVerificationError m"
proof -
  from assms(1) obtain kvs where kvs: "jwks = PDict kvs" by (cases jwks) (auto simp: key_set_shape_def)
  show ?thesis
  proof (cases "map_of kvs (lit ''keys'')")
    case None
    with assms(2) kvs show ?thesis
      by (auto simp: select_key_def py_get_d_def split: if_splits)
  next
    case (Some v)
    with assms(1) kvs have "key_list v" by (simp add: key_set_shape_def)
    then obtain ks where ks: "v = PList ks" "list_all is_object ks" by (rule key_listE)
    with assms(2) Some kvs have "find_kid oc (header_kid je token) ks = Inl e"
      by (auto simp: select_key_def py_get_d_def split: if_splits)
    with ks(2) show ?thesis by (rule find_kid_error)
  qed
qed


section \<open>Concrete verifications\<close>

definition sample_keys :: pyval where
  "sample_keys =
     PDict [(lit ''keys'', PList [PDict [(lit ''kid'', PStr (lit ''k1'')), (lit ''alg'', PStr (lit ''RS256''))]])]"

definition sample_claims :: "(pystr \<times> pyval) list" where
  "sample_claims = [(lit ''sub'', PStr (lit ''alice'')), (lit ''roles'', PList [PStr (lit ''prod-read'')])]"

definition sample_jose :: jose_env where
  "sample_jose =
     \<lparr> je_header = (\<lambda>_. Some (PDict [(lit ''kid'', PStr (lit ''k1''))])),
       je_decode = (\<lambda>_ _ _ token. if token = lit ''good'' then Inr sample_claims else Inl (lit ''BadSignatureError'')),
       je_fetch = (\<lambda>_ _. Inr sample_keys), je_str = (\<lambda>_. []) \<rparr>"

definition sample_oidc :: "oidc_config \<times> oidc_state" where
  "sample_oidc =
     (\<lparr> oc_issuer = lit ''idp'', oc_audience = lit ''mqs'', oc_jwks_url = Some (lit ''https://idp/keys''),
        oc_roles_claim = lit ''roles'', oc_tenant_claim = lit ''tenant'', oc_leeway = 30, oc_ttl = 600,
        oc_algorithms = default_algorithms \<rparr>, \<lparr> os_jwks = None, os_cached_at = 0 \<rparr>)"

definition alice :: principal where
  "alice = \<lparr> pr_subject = lit ''alice'', pr_tenant = None, pr_roles = [lit ''prod-read''], pr_claims = sample_claims \<rparr>"

lemma sample_oidc_new:
  "new_oidc (lit ''idp'') (lit ''mqs'') (Some (lit ''https://idp/keys'')) None 0 = Inr (fst sample_oidc, snd sample_oidc)"
  by (simp add: new_oidc_def sample_oidc_def)

lemma sample_select: "select_key sample_jose (fst sample_oidc) token sample_keys =
  Inr (SingleKey (PDict [(lit ''kid'', PStr (lit ''k1'')), (lit ''alg'', PStr (lit ''RS256''))]))"
  by (simp add: select_key_def header_kid_def sample_jose_def sample_keys_def py_get_d_def sample_oidc_def
      default_algorithms_def)

lemma sample_verify:
  "fst (oidc_verify sample_jose (fst sample_oidc) 5 (lit ''good'') (snd sample_oidc)) = Inr alice"
proof -
  have "get_jwks sample_jose (fst sample_oidc) 5 (snd sample_oidc) =
      (Inr sample_keys, \<lparr> os_jwks = Some sample_keys, os_cached_at = 5 \<rparr>)"
    by (simp add: get_jwks_def sample_oidc_def sample_jose_def cached_page_def)
      (simp add: sample_keys_def)
  moreover have "je_decode sample_jose key opts n (lit ''good'') = Inr sample_claims" for key opts n
    by (simp add: sample_jose_def)
  moreover have "principal_of sample_jose (fst sample_oidc) sample_claims = Inr alice"
    by (simp add: principal_of_def Let_def sample_claims_def alice_def py_str_def extract_roles_def only_strings_def
        sample_oidc_def)
  ultimately show ?thesis
    by (simp add: oidc_verify_def sample_select)
qed

lemma accepted_token_witness:
  "\<exists>jwks fetched key.
     je_fetch sample_jose fetched (lit ''https://idp/keys'') = Inr jwks \<and> fetched \<le> 5 \<and>
     key_for sample_jose (fst sample_oidc) (lit ''good'') jwks key \<and>
     pr_subject alice \<noteq> [] \<and> pr_roles alice = extract_roles (fst sample_oidc) (pr_claims alice)"
proof -
  have "(0 :: rat) \<le> 5" by simp
  from accepted_token [OF sample_oidc_new rtranclp.rtrancl_refl this sample_verify] show ?thesis by blast
qed


text \<open>A key set page that is not an object makes verification raise \<open>AttributeError\<close>, which the
  transports do not treat as a failed verification.\<close>

lemma malformed_key_set_escapes:
  "fst (oidc_verify (sample_jose\<lparr> je_fetch := \<lambda>_ _. Inr (PList []) \<rparr>) (fst sample_oidc) 5 (lit ''good'')
     (snd sample_oidc)) = Inl no_attribute"
  by (simp add: oidc_verify_def get_jwks_def sample_oidc_def cached_page_def select_key_def header_kid_def
      sample_jose_def py_get_d_def)

end
