(* ===== verification/RateLimit.thy ===== *)
theory RateLimit
  imports Complex_Main Prelude
begin

text \<open>
  \<open>security/ratelimit.py\<close>: the token bucket per key. Tokens and clock readings are exact
  rationals, where the code has floats; the lock makes a call atomic, so a call is one function
  of the buckets. The clock reading is an argument.
\<close>

record bucket =
  bk_tokens :: rat
  bk_last_refill :: rat

record rate_limiter =
  rl_rate_per_minute :: nat
  rl_burst :: nat
  rl_buckets :: "pystr \<Rightarrow> bucket option"

definition new_rate_limiter :: "nat \<Rightarrow> nat \<Rightarrow> rate_limiter" where
  "new_rate_limiter rate burst = \<lparr> rl_rate_per_minute = rate, rl_burst = burst, rl_buckets = (\<lambda>_. None) \<rparr>"

definition refill_rate :: "rate_limiter \<Rightarrow> rat" where
  "refill_rate rl = of_nat (rl_rate_per_minute rl) / 60"

definition bucket_of :: "rate_limiter \<Rightarrow> rat \<Rightarrow> pystr \<Rightarrow> bucket" where
  "bucket_of rl now key =
     (case rl_buckets rl key of
        None \<Rightarrow> \<lparr> bk_tokens = of_nat (rl_burst rl), bk_last_refill = now \<rparr>
      | Some b \<Rightarrow> b)"

definition refilled :: "rate_limiter \<Rightarrow> rat \<Rightarrow> bucket \<Rightarrow> rat" where
  "refilled rl now b =
     min (of_nat (rl_burst rl)) (bk_tokens b + (now - bk_last_refill b) * refill_rate rl)"

definition allow :: "rat \<Rightarrow> pystr \<Rightarrow> rat \<Rightarrow> rate_limiter \<Rightarrow> bool \<times> rate_limiter" where
  "allow now key cost rl =
     (let tokens = refilled rl now (bucket_of rl now key);
          ok = (tokens \<ge> cost);
          b = \<lparr> bk_tokens = (if ok then tokens - cost else tokens), bk_last_refill = now \<rparr>
      in (ok, rl\<lparr> rl_buckets := (rl_buckets rl)(key \<mapsto> b) \<rparr>))"

section \<open>A sequence of calls\<close>

text \<open>Calls at given times with given keys at the default cost; the answers in order.\<close>

fun allow_all :: "(rat \<times> pystr) list \<Rightarrow> rate_limiter \<Rightarrow> bool list \<times> rate_limiter" where
  "allow_all [] rl = ([], rl)"
| "allow_all ((now, key) # calls) rl =
     (case allow now key 1 rl of (ok, rl') \<Rightarrow>
        (case allow_all calls rl' of (oks, rl'') \<Rightarrow> (ok # oks, rl'')))"

definition admitted :: "pystr \<Rightarrow> (rat \<times> pystr) list \<Rightarrow> bool list \<Rightarrow> nat" where
  "admitted key calls oks = length (filter (\<lambda>((_, k), ok). k = key \<and> ok) (zip calls oks))"

text \<open>A bucket holds between nothing and the burst.\<close>

definition buckets_ok :: "rate_limiter \<Rightarrow> bool" where
  "buckets_ok rl \<longleftrightarrow>
     (\<forall>key b. rl_buckets rl key = Some b \<longrightarrow> 0 \<le> bk_tokens b \<and> bk_tokens b \<le> of_nat (rl_burst rl))"

lemma allow_parameters [simp]:
  "rl_burst (snd (allow now key cost rl)) = rl_burst rl"
  "rl_rate_per_minute (snd (allow now key cost rl)) = rl_rate_per_minute rl"
  "refill_rate (snd (allow now key cost rl)) = refill_rate rl"
  by (simp_all add: allow_def Let_def refill_rate_def)

lemma refill_rate_nonneg [simp]: "0 \<le> refill_rate rl"
  by (simp add: refill_rate_def)

lemma allow_other_key: "k \<noteq> key \<Longrightarrow> rl_buckets (snd (allow now key cost rl)) k = rl_buckets rl k"
  by (simp add: allow_def Let_def)

text \<open>The last refill of every bucket lies in the past.\<close>

definition refilled_before :: "rat \<Rightarrow> rate_limiter \<Rightarrow> bool" where
  "refilled_before now rl \<longleftrightarrow> (\<forall>key b. rl_buckets rl key = Some b \<longrightarrow> bk_last_refill b \<le> now)"

lemma bucket_bounds:
  assumes "buckets_ok rl" "refilled_before now rl"
  shows "0 \<le> bk_tokens (bucket_of rl now key) \<and> bk_tokens (bucket_of rl now key) \<le> of_nat (rl_burst rl) \<and>
    bk_last_refill (bucket_of rl now key) \<le> now"
  using assms by (auto simp: bucket_of_def buckets_ok_def refilled_before_def split: option.split)

lemma refilled_bounds:
  assumes "buckets_ok rl" "refilled_before now rl"
  shows "0 \<le> refilled rl now (bucket_of rl now key) \<and> refilled rl now (bucket_of rl now key) \<le> of_nat (rl_burst rl)"
  using bucket_bounds [OF assms, of key]
  by (auto simp: refilled_def intro!: add_nonneg_nonneg mult_nonneg_nonneg)

lemma allow_invariant:
  assumes "buckets_ok rl" "refilled_before now rl" "0 \<le> cost"
  shows "buckets_ok (snd (allow now key cost rl)) \<and> refilled_before now (snd (allow now key cost rl))"
  using refilled_bounds [OF assms(1,2), of key] assms
  by (auto simp: allow_def Let_def buckets_ok_def refilled_before_def split: if_splits)

lemma refilled_before_mono: "refilled_before now rl \<Longrightarrow> now \<le> later \<Longrightarrow> refilled_before later rl"
  by (fastforce simp: refilled_before_def)

text \<open>The tokens a key has at a time, its bucket refilled up to then.\<close>

definition tokens_at :: "rate_limiter \<Rightarrow> rat \<Rightarrow> pystr \<Rightarrow> rat" where
  "tokens_at rl now key = refilled rl now (bucket_of rl now key)"

lemma tokens_after_allow:
  "tokens_at (snd (allow now key cost rl)) now key =
     (if fst (allow now key cost rl) then tokens_at rl now key - cost else tokens_at rl now key)"
  if "0 \<le> cost"
  using that
  by (auto simp: tokens_at_def allow_def Let_def bucket_of_def refilled_def refill_rate_def split: option.split)

lemma tokens_other_key:
  "k \<noteq> key \<Longrightarrow> tokens_at (snd (allow now key cost rl)) t k = tokens_at rl t k"
  by (cases "rl_buckets rl k") (simp_all add: tokens_at_def refilled_def bucket_of_def allow_other_key)

lemma tokens_grow:
  assumes "now \<le> later"
  shows "tokens_at rl later key \<le> tokens_at rl now key + (later - now) * refill_rate rl"
proof (cases "rl_buckets rl key")
  case None
  then show ?thesis using assms by (simp add: tokens_at_def refilled_def bucket_of_def)
next
  case (Some b)
  have "0 \<le> (later - now) * refill_rate rl" using assms by simp
  moreover have "(later - bk_last_refill b) * refill_rate rl =
      (now - bk_last_refill b) * refill_rate rl + (later - now) * refill_rate rl"
    by (simp add: algebra_simps)
  ultimately show ?thesis
    using Some by (auto simp: tokens_at_def refilled_def bucket_of_def min_def)
qed

lemma admitted_Cons:
  "admitted key ((now, k) # calls) (ok # oks) = (if k = key \<and> ok then 1 else 0) + admitted key calls oks"
  by (simp add: admitted_def)

lemma admitted_potential:
  assumes "buckets_ok rl" "refilled_before start rl"
    and "sorted (map fst calls)" "list_all (\<lambda>c. start \<le> fst c \<and> fst c \<le> finish) calls" "start \<le> finish"
  shows "of_nat (admitted key calls (fst (allow_all calls rl))) \<le>
    tokens_at rl start key + (finish - start) * refill_rate rl"
  using assms
proof (induction calls arbitrary: rl start)
  case Nil
  then show ?case
    using refilled_bounds [OF Nil(1,2), of key]
    by (simp add: admitted_def tokens_at_def)
next
  case (Cons call calls)
  obtain now k where call: "call = (now, k)" by force
  let ?rl = "snd (allow now k 1 rl)" and ?ok = "fst (allow now k 1 rl)" and ?r = "refill_rate rl"
  from Cons.prems call have now: "start \<le> now" "now \<le> finish"
    and rest: "sorted (map fst calls)" "list_all (\<lambda>c. now \<le> fst c \<and> fst c \<le> finish) calls"
    by (auto simp: list_all_iff)
  have inv: "buckets_ok ?rl" "refilled_before now ?rl"
    using allow_invariant [OF Cons.prems(1) refilled_before_mono [OF Cons.prems(2) now(1)], of 1 k] by simp_all
  have ih: "of_nat (admitted key calls (fst (allow_all calls ?rl))) \<le> tokens_at ?rl now key + (finish - now) * ?r"
    using Cons.IH [OF inv rest now(2)] by simp
  have split: "admitted key (call # calls) (fst (allow_all (call # calls) rl)) =
      (if k = key \<and> ?ok then 1 else 0) + admitted key calls (fst (allow_all calls ?rl))"
    by (simp add: call admitted_Cons case_prod_beta)
  have tokens: "tokens_at ?rl now key = tokens_at rl now key - (if k = key \<and> ?ok then 1 else 0)"
    using tokens_after_allow [of 1 now k rl] tokens_other_key [of key k now 1 rl now]
    by (cases "k = key") auto
  have grow: "tokens_at rl now key \<le> tokens_at rl start key + (now - start) * ?r"
    by (rule tokens_grow [OF now(1)])
  have "(finish - start) * ?r = (now - start) * ?r + (finish - now) * ?r"
    by (simp add: algebra_simps)
  with ih tokens grow show ?case
    unfolding split by (cases "k = key \<and> ?ok") auto
qed

section \<open>Readings out of order\<close>

text \<open>
  The clock is read before the lock is taken, so two threads can enter in the opposite order of their
  readings; a bucket can even be refilled by a negative time. What a key has used and what it has left
  stays within the burst and the refill up to the last reading.
\<close>

definition within_budget :: "rat \<Rightarrow> rat \<Rightarrow> (pystr \<Rightarrow> nat) \<Rightarrow> rate_limiter \<Rightarrow> bool" where
  "within_budget start finish served rl \<longleftrightarrow>
     (\<forall>key. of_nat (served key) \<le> of_nat (rl_burst rl) + (finish - start) * refill_rate rl \<and>
        (case rl_buckets rl key of
           None \<Rightarrow> served key = 0
         | Some b \<Rightarrow> of_nat (served key) + bk_tokens b \<le>
             of_nat (rl_burst rl) + (bk_last_refill b - start) * refill_rate rl))"

lemma allow_budget:
  assumes "within_budget start finish served rl" and "start \<le> now" "now \<le> finish"
    and "allow now key 1 rl = (ok, rl')"
  shows "within_budget start finish (if ok then served(key := Suc (served key)) else served) rl'"
proof -
  let ?r = "refill_rate rl" and ?t = "refilled rl now (bucket_of rl now key)"
  have rl': "rl' = snd (allow now key 1 rl)" and ok: "ok = (?t \<ge> 1)"
    using assms(4) by (auto simp: allow_def Let_def)
  have same: "rl_burst rl' = rl_burst rl" "refill_rate rl' = ?r" by (simp_all add: rl')
  have bucket: "rl_buckets rl' key = Some \<lparr> bk_tokens = (if ok then ?t - 1 else ?t), bk_last_refill = now \<rparr>"
    using assms(4) by (auto simp: allow_def Let_def)
  have other: "rl_buckets rl' k = rl_buckets rl k" if "k \<noteq> key" for k
    using allow_other_key [OF that] by (simp add: rl')
  have window: "(now - start) * ?r \<le> (finish - start) * ?r" "0 \<le> (now - start) * ?r"
    using assms(2,3) by (simp_all add: mult_right_mono)
  have budget: "case rl_buckets rl key of
      None \<Rightarrow> served key = 0
    | Some b \<Rightarrow> of_nat (served key) + bk_tokens b \<le> of_nat (rl_burst rl) + (bk_last_refill b - start) * ?r"
    using assms(1) unfolding within_budget_def by blast
  have refill: "of_nat (served key) + ?t \<le> of_nat (rl_burst rl) + (now - start) * ?r"
  proof (cases "rl_buckets rl key")
    case None
    with budget have "served key = 0" by simp
    then show ?thesis using window(2) by (simp add: refilled_def)
  next
    case (Some b)
    with budget have "of_nat (served key) + bk_tokens b \<le> of_nat (rl_burst rl) + (bk_last_refill b - start) * ?r"
      by simp
    moreover have "?t \<le> bk_tokens b + (now - bk_last_refill b) * ?r"
      using Some by (simp add: refilled_def bucket_of_def)
    moreover have "(bk_last_refill b - start) * ?r + (now - bk_last_refill b) * ?r = (now - start) * ?r"
      by (simp add: algebra_simps)
    ultimately show ?thesis by linarith
  qed
  have served: "of_nat (served k) \<le> of_nat (rl_burst rl) + (finish - start) * ?r" for k
    using assms(1) unfolding within_budget_def by blast
  show ?thesis
    unfolding within_budget_def same
  proof (intro allI conjI)
    fix k
    show "of_nat ((if ok then served(key := Suc (served key)) else served) k)
        \<le> of_nat (rl_burst rl) + (finish - start) * ?r"
      using served [of k] refill window ok by (cases "k = key \<and> ok") auto
    show "case rl_buckets rl' k of
        None \<Rightarrow> (if ok then served(key := Suc (served key)) else served) k = 0
      | Some b \<Rightarrow> of_nat ((if ok then served(key := Suc (served key)) else served) k) + bk_tokens b
          \<le> of_nat (rl_burst rl) + (bk_last_refill b - start) * ?r"
    proof (cases "k = key")
      case True
      with bucket refill show ?thesis by simp
    next
      case False
      then have kept: "(if ok then served(key := Suc (served key)) else served) k = served k" by simp
      show ?thesis
        using assms(1) unfolding kept other [OF False] within_budget_def by blast
    qed
  qed
qed

section \<open>Properties\<close>

text \<open>The limit holds over every window: whatever calls other keys make and whenever the calls of
  a key come, as long as the clock does not run backwards, at most the burst plus the refill of the
  elapsed time are admitted for that key.\<close>
theorem rate_bound:
  assumes "buckets_ok rl" "refilled_before start rl"
    and "sorted (map fst calls)" "list_all (\<lambda>c. start \<le> fst c \<and> fst c \<le> finish) calls" "start \<le> finish"
  shows "of_nat (admitted key calls (fst (allow_all calls rl))) \<le>
    of_nat (rl_burst rl) + (finish - start) * refill_rate rl"
proof -
  have "tokens_at rl start key \<le> of_nat (rl_burst rl)"
    using refilled_bounds [OF assms(1,2), of key] by (simp add: tokens_at_def)
  with admitted_potential [OF assms, of key] show ?thesis by simp
qed

lemma rate_bound_witness:
  "of_nat (admitted [1] [(0, [1]), (0, [2]), (30, [1])]
     (fst (allow_all [(0, [1]), (0, [2]), (30, [1])] (new_rate_limiter 60 1)))) \<le> (31 :: rat)"
proof -
  have "buckets_ok (new_rate_limiter 60 1)" "refilled_before 0 (new_rate_limiter 60 1)"
    by (simp_all add: buckets_ok_def refilled_before_def new_rate_limiter_def)
  from rate_bound [OF this, of "[(0, [1]), (0, [2]), (30, [1])]" 30 "[1]"] show ?thesis
    by (simp add: new_rate_limiter_def refill_rate_def)
qed

text \<open>Callers are isolated: a call never changes the tokens of another key, so no key can be
  starved by the others, and a key that has waited long enough for one token is admitted.\<close>
theorem keys_isolated:
  "(k \<noteq> key \<longrightarrow> fst (allow later k 1 (snd (allow now key 1 rl))) = fst (allow later k 1 rl)) \<and>
   fst (allow later k 1 rl) = (tokens_at rl later k \<ge> 1)"
proof -
  have "fst (allow t k 1 rl') = (tokens_at rl' t k \<ge> 1)" for t rl'
    by (simp add: allow_def tokens_at_def Let_def)
  then show ?thesis by (simp add: tokens_other_key)
qed

lemma keys_isolated_witness:
  "fst (allow 0 [2] 1 (snd (allow 0 [1] 1 (new_rate_limiter 60 1)))) = fst (allow 0 [2] 1 (new_rate_limiter 60 1))"
  using keys_isolated [of "[2]" "[1]" 0 0 "new_rate_limiter 60 1"] by simp

end
