(* ===== verification/Audit_Log.thy ===== *)
theory Audit_Log
  imports Values PyText "HOL-Library.Countable"
begin

text \<open>
  \<open>audit/logger.py\<close>: the hash-chained log. The file is its bytes; \<open>orjson\<close> and SHA-256 are the
  record \<open>codec\<close>, where \<open>cd_printable\<close> tells the dictionaries that \<open>orjson\<close> accepts (it refuses
  integers beyond 64 bits, for one). The lock makes a write atomic. Failures of the file system are
  not modelled.
\<close>

section \<open>Records and the file\<close>

type_synonym dict = "(pystr \<times> pyval) list"
type_synonym bytes = "nat list"

record codec =
  cd_printable :: "dict \<Rightarrow> bool"
  cd_sorted :: "dict \<Rightarrow> bytes"
  cd_line :: "dict \<Rightarrow> bytes"
  cd_parse :: "bytes \<Rightarrow> pyval option"
  cd_sha256 :: "bytes \<Rightarrow> pystr"

record audit_event =
  ae_actor :: pystr
  ae_tenant :: "pystr option"
  ae_tool :: pystr
  ae_target_qm :: "pystr option"
  ae_params_hash :: pystr
  ae_outcome :: pystr
  ae_duration_ms :: int
  ae_error :: "pystr option"

definition genesis_hash :: pystr where
  "genesis_hash = replicate 64 48"

text \<open>Iterating over a binary file: every line with its line feed.\<close>

function file_lines :: "bytes \<Rightarrow> bytes list" where
  "file_lines [] = []"
| "file_lines (c # cs) =
     (case dropWhile (\<lambda>x. x \<noteq> 10) (c # cs) of
        [] \<Rightarrow> [c # cs]
      | _ # rest \<Rightarrow> (takeWhile (\<lambda>x. x \<noteq> 10) (c # cs) @ [10]) # file_lines rest)"
  by pat_completeness auto
termination
proof (relation "measure length")
  fix c :: nat and cs d rest
  assume "dropWhile (\<lambda>x. x \<noteq> 10) (c # cs) = d # rest"
  then have "length (d # rest) \<le> length (c # cs)" by (metis length_dropWhile_le)
  then show "(rest, c # cs) \<in> measure length" by simp
qed simp

declare file_lines.simps [simp del]

text \<open>\<open>bytes.strip()\<close> is empty.\<close>

definition blank_line :: "bytes \<Rightarrow> bool" where
  "blank_line l \<longleftrightarrow> list_all (\<lambda>c. c = 32 \<or> 9 \<le> c \<and> c \<le> 13) l"

definition text_lines :: "bytes \<Rightarrow> bytes list" where
  "text_lines f = filter (\<lambda>l. \<not> blank_line l) (file_lines f)"

section \<open>The logger\<close>

record audit_log =
  al_file :: "bytes option"
  al_prev :: pystr

definition hash_field :: "dict \<Rightarrow> pystr" where
  "hash_field d = (case map_of d (lit ''hash'') of Some (PStr h) \<Rightarrow> h | _ \<Rightarrow> genesis_hash)"

definition load_last_hash :: "codec \<Rightarrow> bytes option \<Rightarrow> exn + pystr" where
  "load_last_hash cd file =
     (case file of
        None \<Rightarrow> Inr genesis_hash
      | Some f \<Rightarrow>
          if text_lines f = [] then Inr genesis_hash
          else (case cd_parse cd (last (text_lines f)) of
                  None \<Rightarrow> Inr genesis_hash
                | Some (PDict d) \<Rightarrow> Inr (hash_field d)
                | Some _ \<Rightarrow> Inl (AttributeError (lit ''get''))))"

definition open_log :: "codec \<Rightarrow> bytes option \<Rightarrow> exn + audit_log" where
  "open_log cd file =
     bind_res (load_last_hash cd file) (\<lambda>h. Inr \<lparr> al_file = file, al_prev = h \<rparr>)"

definition event_fields :: "pystr \<Rightarrow> audit_event \<Rightarrow> dict" where
  "event_fields ts e =
     [(lit ''ts'', PStr ts), (lit ''actor'', PStr (ae_actor e)), (lit ''tenant'', of_opt_str (ae_tenant e)),
      (lit ''tool'', PStr (ae_tool e)), (lit ''target_qm'', of_opt_str (ae_target_qm e)),
      (lit ''params_hash'', PStr (ae_params_hash e)), (lit ''outcome'', PStr (ae_outcome e)),
      (lit ''duration_ms'', PInt (ae_duration_ms e)), (lit ''error'', of_opt_str (ae_error e))]"

definition not_printable :: exn where
  "not_printable = TypeError (lit ''JSONEncodeError'')"

definition write_record :: "codec \<Rightarrow> dict \<Rightarrow> audit_log \<Rightarrow> (exn + pystr) \<times> audit_log" where
  "write_record cd event log =
     (let record = event @ [(lit ''prev_hash'', PStr (al_prev log))] in
      if \<not> cd_printable cd record then (Inl not_printable, log)
      else
        let record_hash = cd_sha256 cd (cd_sorted cd record);
            line = cd_line cd (record @ [(lit ''hash'', PStr record_hash)]) @ [10]
        in (Inr record_hash,
            \<lparr> al_file = Some ((case al_file log of None \<Rightarrow> [] | Some f \<Rightarrow> f) @ line), al_prev = record_hash \<rparr>))"

definition audit_write :: "codec \<Rightarrow> pystr \<Rightarrow> audit_event \<Rightarrow> audit_log \<Rightarrow> (exn + pystr) \<times> audit_log" where
  "audit_write cd ts e log = write_record cd (event_fields ts e) log"

section \<open>Verification\<close>

definition without_hash :: "dict \<Rightarrow> dict" where
  "without_hash d = filter (\<lambda>kv. fst kv \<noteq> lit ''hash'') d"

definition chain_broken :: "nat \<Rightarrow> pystr \<Rightarrow> exn" where
  "chain_broken n why = ValueError (lit ''audit chain broken at line '' @ str_nat n @ lit '': '' @ why)"

fun verify_lines :: "codec \<Rightarrow> nat \<Rightarrow> pystr \<Rightarrow> bytes list \<Rightarrow> exn + unit" where
  "verify_lines cd n prev [] = Inr ()"
| "verify_lines cd n prev (raw # lines) =
     (if blank_line raw then verify_lines cd (Suc n) prev lines
      else
        (case cd_parse cd raw of
           None \<Rightarrow> Inl (ValueError (lit ''JSONDecodeError''))
         | Some (PDict d) \<Rightarrow>
             if map_of d (lit ''prev_hash'') \<noteq> Some (PStr prev) then Inl (chain_broken n (lit ''prev_hash mismatch''))
             else if \<not> cd_printable cd (without_hash d) then Inl not_printable
             else
               let recomputed = cd_sha256 cd (cd_sorted cd (without_hash d)) in
               if map_of d (lit ''hash'') \<noteq> Some (PStr recomputed) then
                 Inl (chain_broken n (lit ''record hash mismatch''))
               else verify_lines cd (Suc n) recomputed lines
         | Some _ \<Rightarrow> Inl (AttributeError (lit ''get''))))"

definition verify_chain :: "codec \<Rightarrow> bytes option \<Rightarrow> exn + unit" where
  "verify_chain cd file =
     (case file of None \<Rightarrow> Inr () | Some f \<Rightarrow> verify_lines cd 1 genesis_hash (file_lines f))"

section \<open>What the proofs assume of JSON\<close>

text \<open>
  A flat dictionary is parsed back from the line it was printed on, a line contains no line feed
  and is not blank, a hash can be printed, an object that was parsed has no key twice, and two
  objects with the same canonical form have the same keys and the same scalars under them.
\<close>

fun scalar :: "pyval \<Rightarrow> bool" where
  "scalar (PList _) = False"
| "scalar (PTuple _) = False"
| "scalar (PDict _) = False"
| "scalar _ = True"

definition same_fields :: "dict \<Rightarrow> dict \<Rightarrow> bool" where
  "same_fields d e \<longleftrightarrow> fst ` set d = fst ` set e \<and>
     (\<forall>k v. scalar v \<longrightarrow> (map_of d k = Some v \<longleftrightarrow> map_of e k = Some v))"

definition codec_ok :: "codec \<Rightarrow> bool" where
  "codec_ok cd \<longleftrightarrow>
     (\<forall>d. cd_printable cd d \<longrightarrow> distinct (map fst d) \<longrightarrow> list_all (\<lambda>kv. scalar (snd kv)) d \<longrightarrow>
        cd_parse cd (cd_line cd d @ [10]) = Some (PDict d)) \<and>
     (\<forall>d. cd_printable cd d \<longrightarrow> 10 \<notin> set (cd_line cd d) \<and> \<not> blank_line (cd_line cd d)) \<and>
     (\<forall>d b. cd_printable cd d \<longrightarrow> cd_printable cd (d @ [(lit ''hash'', PStr (cd_sha256 cd b))])) \<and>
     (\<forall>l d. cd_parse cd l = Some (PDict d) \<longrightarrow> distinct (map fst d)) \<and>
     (\<forall>d e. cd_printable cd d \<longrightarrow> cd_printable cd e \<longrightarrow> distinct (map fst d) \<longrightarrow> distinct (map fst e) \<longrightarrow>
        cd_sorted cd d = cd_sorted cd e \<longrightarrow> same_fields d e)"

section \<open>Lines of a growing file\<close>

definition ends_line :: "bytes \<Rightarrow> bool" where
  "ends_line f \<longleftrightarrow> f = [] \<or> last f = 10"

lemma file_lines_line: "10 \<notin> set l \<Longrightarrow> file_lines (l @ 10 # f) = (l @ [10]) # file_lines f"
proof (cases l)
  case Nil
  then show ?thesis by (simp add: file_lines.simps)
next
  case (Cons c cs)
  assume "10 \<notin> set l"
  then have "\<And>x. x \<in> set l \<Longrightarrow> x \<noteq> 10" by auto
  then have "dropWhile (\<lambda>x. x \<noteq> 10) (l @ 10 # f) = 10 # f" "takeWhile (\<lambda>x. x \<noteq> 10) (l @ 10 # f) = l"
    by (simp_all add: dropWhile_append2 takeWhile_append2)
  with Cons show ?thesis by (simp add: file_lines.simps)
qed

lemma file_lines_append:
  assumes "ends_line f"
  shows "file_lines (f @ g) = file_lines f @ file_lines g"
  using assms
proof (induction f rule: file_lines.induct)
  case 1
  then show ?case by (simp add: file_lines.simps)
next
  case (2 c cs)
  let ?f = "c # cs"
  have "10 \<in> set ?f" using 2(2) by (metis ends_line_def last_in_set list.distinct(1))
  then obtain l r where f: "?f = l @ 10 # r" "10 \<notin> set l" by (meson split_list_first)
  then have "\<And>x. x \<in> set l \<Longrightarrow> x \<noteq> 10" by auto
  with f(1) have dw: "dropWhile (\<lambda>x. x \<noteq> 10) ?f = 10 # r" by (simp add: dropWhile_append2)
  have "ends_line r" using 2(2) f(1) by (auto simp: ends_line_def split: if_splits)
  with 2(1) [OF dw] have "file_lines (r @ g) = file_lines r @ file_lines g" .
  with f show ?case by (simp add: file_lines_line)
qed

lemma text_lines_snoc:
  assumes "ends_line f" "10 \<notin> set l" "\<not> blank_line l"
  shows "file_lines (f @ l @ [10]) = file_lines f @ [l @ [10]]" "text_lines (f @ l @ [10]) = text_lines f @ [l @ [10]]"
  using file_lines_append [OF assms(1), of "l @ [10]"] file_lines_line [OF assms(2), of "[]"] assms(3)
  by (simp_all add: text_lines_def file_lines.simps blank_line_def)

lemma load_snoc:
  assumes "ends_line f" "10 \<notin> set l" "\<not> blank_line l"
    and "cd_parse cd (l @ [10]) = Some (PDict d)" "map_of d (lit ''hash'') = Some (PStr h)"
  shows "load_last_hash cd (Some (f @ l @ [10])) = Inr h"
  using text_lines_snoc [OF assms(1-3)] assms(4,5)
  by (simp add: load_last_hash_def hash_field_def)

section \<open>A verified log and its last hash\<close>

text \<open>The hash that the chain ends with.\<close>

fun chain_end :: "codec \<Rightarrow> pystr \<Rightarrow> bytes list \<Rightarrow> pystr" where
  "chain_end cd prev [] = prev"
| "chain_end cd prev (raw # lines) =
     (if blank_line raw then chain_end cd prev lines
      else (case cd_parse cd raw of
              Some (PDict d) \<Rightarrow> chain_end cd (cd_sha256 cd (cd_sorted cd (without_hash d))) lines
            | _ \<Rightarrow> prev))"

lemma verify_append:
  "verify_lines cd n prev (ls @ ms) = Inr () \<longleftrightarrow>
     verify_lines cd n prev ls = Inr () \<and> verify_lines cd (n + length ls) (chain_end cd prev ls) ms = Inr ()"
  by (induction ls arbitrary: n prev) (auto simp: Let_def split: option.split pyval.split)

lemma chain_end_append:
  "verify_lines cd n prev ls = Inr () \<Longrightarrow> chain_end cd prev (ls @ ms) = chain_end cd (chain_end cd prev ls) ms"
  by (induction ls arbitrary: n prev) (auto simp: Let_def split: option.splits pyval.splits if_splits)

definition log_bytes :: "audit_log \<Rightarrow> bytes" where
  "log_bytes log = (case al_file log of None \<Rightarrow> [] | Some f \<Rightarrow> f)"

text \<open>The file verifies, ends with a line feed, and the logger holds the end of its chain.\<close>

definition log_ok :: "codec \<Rightarrow> audit_log \<Rightarrow> bool" where
  "log_ok cd log \<longleftrightarrow>
     verify_lines cd 1 genesis_hash (file_lines (log_bytes log)) = Inr () \<and> ends_line (log_bytes log) \<and>
     al_prev log = chain_end cd genesis_hash (file_lines (log_bytes log)) \<and>
     load_last_hash cd (al_file log) = Inr (al_prev log)"

lemma dict_facts:
  fixes p h :: pystr
  assumes "list_all (\<lambda>kv. fst kv \<noteq> lit ''hash'' \<and> fst kv \<noteq> lit ''prev_hash'') event" "distinct (map fst event)"
  defines "d \<equiv> (event @ [(lit ''prev_hash'', PStr p)]) @ [(lit ''hash'', PStr h)]"
  shows "distinct (map fst d)" "without_hash d = event @ [(lit ''prev_hash'', PStr p)]"
    "map_of d (lit ''prev_hash'') = Some (PStr p)" "map_of d (lit ''hash'') = Some (PStr h)"
proof -
  have ne: "lit ''prev_hash'' \<noteq> lit ''hash''" by (simp add: lit_def)
  have none: "map_of event (lit ''hash'') = None" "map_of event (lit ''prev_hash'') = None"
    using assms(1) by (auto simp: map_of_eq_None_iff list_all_iff)
  then have keys: "lit ''hash'' \<notin> fst ` set event" "lit ''prev_hash'' \<notin> fst ` set event"
    by (simp_all add: map_of_eq_None_iff)
  show "distinct (map fst d)"
    using assms(2) keys ne by (simp add: d_def)
  have "filter (\<lambda>kv. fst kv \<noteq> lit ''hash'') event = event"
    using assms(1) by (simp add: filter_id_conv list_all_iff)
  with ne show "without_hash d = event @ [(lit ''prev_hash'', PStr p)]"
    by (simp add: without_hash_def d_def)
  show "map_of d (lit ''prev_hash'') = Some (PStr p)" "map_of d (lit ''hash'') = Some (PStr h)"
    using none ne by (simp_all add: d_def map_add_Some_iff)
qed

lemma write_record_ok:
  assumes cd: "codec_ok cd" and log: "log_ok cd log"
    and event: "list_all (\<lambda>kv. fst kv \<noteq> lit ''hash'' \<and> fst kv \<noteq> lit ''prev_hash'') event" "distinct (map fst event)"
    and flat: "list_all (\<lambda>kv. scalar (snd kv)) event"
  shows "log_ok cd (snd (write_record cd event log))"
proof (cases "cd_printable cd (event @ [(lit ''prev_hash'', PStr (al_prev log))])")
  case False
  with log show ?thesis by (simp add: write_record_def Let_def)
next
  case True
  let ?r = "event @ [(lit ''prev_hash'', PStr (al_prev log))]"
  let ?h = "cd_sha256 cd (cd_sorted cd ?r)"
  let ?d = "?r @ [(lit ''hash'', PStr ?h)]"
  let ?l = "cd_line cd ?d" and ?f = "log_bytes log"
  note facts = dict_facts [OF event, of "al_prev log" ?h]
  have printable: "cd_printable cd ?d" using cd True unfolding codec_ok_def by blast
  have flat_d: "list_all (\<lambda>kv. scalar (snd kv)) ?d" using flat by simp
  have parse: "cd_parse cd (?l @ [10]) = Some (PDict ?d)"
    using cd printable facts(1) flat_d unfolding codec_ok_def by blast
  have line: "10 \<notin> set ?l" "\<not> blank_line ?l"
    using cd printable unfolding codec_ok_def by blast+
  have nb: "\<not> blank_line (?l @ [10])" using line(2) by (simp add: blank_line_def)
  have ends: "ends_line ?f" and ver: "verify_lines cd 1 genesis_hash (file_lines ?f) = Inr ()"
    and prev: "al_prev log = chain_end cd genesis_hash (file_lines ?f)"
    using log by (simp_all add: log_ok_def)
  note snoc = text_lines_snoc [OF ends line]
  let ?log = "snd (write_record cd event log)"
  have new: "log_bytes ?log = ?f @ ?l @ [10]" "al_prev ?log = ?h" "al_file ?log = Some (?f @ ?l @ [10])"
    using True by (simp_all add: write_record_def Let_def log_bytes_def)
  have step: "verify_lines cd (Suc (length (file_lines ?f))) (al_prev log) [?l @ [10]] = Inr ()"
    "chain_end cd (al_prev log) [?l @ [10]] = ?h"
    using nb parse facts True by simp_all
  have "verify_lines cd 1 genesis_hash (file_lines ?f @ [?l @ [10]]) = Inr ()"
    using ver step(1) by (simp only: verify_append) (simp add: prev)
  moreover have "?h = chain_end cd genesis_hash (file_lines ?f @ [?l @ [10]])"
    using chain_end_append [OF ver] step(2) by (simp add: prev)
  moreover have "load_last_hash cd (al_file ?log) = Inr ?h"
    unfolding new by (rule load_snoc [OF ends line parse facts(4)])
  moreover have "ends_line (?f @ ?l @ [10])" by (simp add: ends_line_def)
  ultimately show ?thesis unfolding log_ok_def new snoc(1) by blast
qed

lemma scalar_opt_str: "scalar (of_opt_str v)"
  by (cases v) simp_all

lemma audit_write_ok:
  assumes "codec_ok cd" "log_ok cd log"
  shows "log_ok cd (snd (audit_write cd ts e log))"
  unfolding audit_write_def
  by (rule write_record_ok [OF assms]) (simp_all add: event_fields_def lit_def scalar_opt_str)

section \<open>Histories of a log\<close>

text \<open>A process writes events, and a new process opens the file that the last one left.\<close>

inductive log_step :: "codec \<Rightarrow> audit_log \<Rightarrow> audit_log \<Rightarrow> bool" for cd where
  write_event: "log_step cd log (snd (audit_write cd ts e log))"
| reopen: "open_log cd (al_file log) = Inr log' \<Longrightarrow> log_step cd log log'"

inductive_cases log_stepE: "log_step cd log log'"

definition empty_log :: audit_log where
  "empty_log = \<lparr> al_file = None, al_prev = genesis_hash \<rparr>"

lemma log_ok_empty: "log_ok cd empty_log"
  by (simp add: log_ok_def empty_log_def log_bytes_def file_lines.simps ends_line_def load_last_hash_def)

lemma log_ok_reopen: "log_ok cd log \<Longrightarrow> open_log cd (al_file log) = Inr log' \<Longrightarrow> log_ok cd log'"
  by (auto simp: open_log_def log_ok_def log_bytes_def)

lemma log_step_ok: "codec_ok cd \<Longrightarrow> log_step cd log log' \<Longrightarrow> log_ok cd log \<Longrightarrow> log_ok cd log'"
  by (erule log_stepE) (auto intro: audit_write_ok log_ok_reopen)

lemma log_ok_verifies: "log_ok cd log \<Longrightarrow> verify_chain cd (al_file log) = Inr ()"
  by (auto simp: log_ok_def verify_chain_def log_bytes_def split: option.split)

text \<open>What the logger writes verifies: after any history of writes and restarts from an absent
  file the log passes \<open>verify_chain\<close>, and a restart continues the chain where it ended.\<close>
theorem written_log_verifies:
  assumes "codec_ok cd" and "(log_step cd)\<^sup>*\<^sup>* empty_log log"
  shows "verify_chain cd (al_file log) = Inr () \<and> open_log cd (al_file log) = Inr log"
proof -
  have "log_ok cd log"
    using assms(2) by (induction rule: rtranclp_induct) (auto intro: log_ok_empty log_step_ok [OF assms(1)])
  then show ?thesis
    by (simp add: log_ok_verifies) (simp add: open_log_def log_ok_def)
qed

section \<open>Tampering\<close>

text \<open>The dictionaries of the records of a file.\<close>

definition records :: "codec \<Rightarrow> bytes list \<Rightarrow> dict list" where
  "records cd ls =
     map (\<lambda>l. case cd_parse cd l of Some (PDict d) \<Rightarrow> d | _ \<Rightarrow> []) (filter (\<lambda>l. \<not> blank_line l) ls)"

lemma records_simps:
  "records cd [] = []"
  "blank_line l \<Longrightarrow> records cd (l # ls) = records cd ls"
  "\<not> blank_line l \<Longrightarrow> cd_parse cd l = Some (PDict d) \<Longrightarrow> records cd (l # ls) = d # records cd ls"
  by (simp_all add: records_def)

text \<open>Verification is a check of the records alone, each against the hash of the one before.\<close>

fun chain_ok :: "codec \<Rightarrow> pystr \<Rightarrow> dict list \<Rightarrow> bool" where
  "chain_ok cd prev [] = True"
| "chain_ok cd prev (d # ds) =
     (let h = cd_sha256 cd (cd_sorted cd (without_hash d))
      in map_of d (lit ''prev_hash'') = Some (PStr prev) \<and> map_of d (lit ''hash'') = Some (PStr h) \<and>
         cd_printable cd (without_hash d) \<and> distinct (map fst d) \<and> chain_ok cd h ds)"

fun chain_hash :: "codec \<Rightarrow> pystr \<Rightarrow> dict list \<Rightarrow> pystr" where
  "chain_hash cd prev [] = prev"
| "chain_hash cd prev (d # ds) = chain_hash cd (cd_sha256 cd (cd_sorted cd (without_hash d))) ds"

lemma parsed_distinct: "codec_ok cd \<Longrightarrow> cd_parse cd l = Some (PDict d) \<Longrightarrow> distinct (map fst d)"
  unfolding codec_ok_def by blast

lemma verify_chain_ok:
  "codec_ok cd \<Longrightarrow> verify_lines cd n prev ls = Inr () \<Longrightarrow> chain_ok cd prev (records cd ls)"
  by (induction ls arbitrary: n prev)
    (auto simp: records_simps Let_def parsed_distinct split: option.splits pyval.splits if_splits)

text \<open>Two records agree on every key but the hash; two of them collide.\<close>

definition same_record :: "dict \<Rightarrow> dict \<Rightarrow> bool" where
  "same_record d e \<longleftrightarrow> same_fields (without_hash d) (without_hash e)"

definition collide :: "codec \<Rightarrow> dict \<Rightarrow> dict \<Rightarrow> bool" where
  "collide cd d e \<longleftrightarrow>
     cd_sorted cd (without_hash d) \<noteq> cd_sorted cd (without_hash e) \<and>
     cd_sha256 cd (cd_sorted cd (without_hash d)) = cd_sha256 cd (cd_sorted cd (without_hash e))"

definition collision_in :: "codec \<Rightarrow> dict list \<Rightarrow> dict list \<Rightarrow> bool" where
  "collision_in cd ds es \<longleftrightarrow> (\<exists>d \<in> set ds. \<exists>e \<in> set es. collide cd d e)"

lemma map_of_without_hash: "k \<noteq> lit ''hash'' \<Longrightarrow> map_of (without_hash d) k = map_of d k"
  by (induction d) (auto simp: without_hash_def)

lemma distinct_without_hash: "distinct (map fst d) \<Longrightarrow> distinct (map fst (without_hash d))"
  by (simp add: without_hash_def distinct_map_filter)

lemma same_canonical_form:
  assumes "codec_ok cd" "cd_printable cd (without_hash d)" "cd_printable cd (without_hash e)"
    and "distinct (map fst d)" "distinct (map fst e)"
    and "cd_sorted cd (without_hash d) = cd_sorted cd (without_hash e)"
  shows "same_record d e"
proof -
  from assms(1) have "\<forall>d e. cd_printable cd d \<longrightarrow> cd_printable cd e \<longrightarrow> distinct (map fst d) \<longrightarrow>
      distinct (map fst e) \<longrightarrow> cd_sorted cd d = cd_sorted cd e \<longrightarrow> same_fields d e"
    unfolding codec_ok_def by (elim conjE)
  then show ?thesis
    unfolding same_record_def
    using assms(2,3,6) distinct_without_hash [OF assms(4)] distinct_without_hash [OF assms(5)] by simp
qed

lemma same_record_prev:
  assumes "same_record d e" "map_of d (lit ''prev_hash'') = Some (PStr p)" "map_of e (lit ''prev_hash'') = Some (PStr q)"
  shows "p = q"
proof -
  have ne: "lit ''prev_hash'' \<noteq> lit ''hash''" by (simp add: lit_def)
  have "map_of (without_hash d) (lit ''prev_hash'') = Some (PStr p)"
    using assms(2) map_of_without_hash [OF ne] by simp
  with assms(1) have "map_of (without_hash e) (lit ''prev_hash'') = Some (PStr p)"
    unfolding same_record_def same_fields_def by (metis scalar.simps(7))
  with assms(3) map_of_without_hash [OF ne] show ?thesis by simp
qed

lemma chain_injective:
  assumes cd: "codec_ok cd" and "\<not> collision_in cd ds es"
    and "chain_ok cd prev ds" "chain_ok cd prev' es" "length ds = length es"
    and "chain_hash cd prev ds = chain_hash cd prev' es"
  shows "prev = prev' \<and> list_all2 same_record ds es"
  using assms(2-6)
proof (induction ds arbitrary: prev prev' es)
  case Nil
  then show ?case by simp
next
  case (Cons d ds)
  then obtain e es' where es: "es = e # es'" by (cases es) auto
  let ?h = "\<lambda>d. cd_sha256 cd (cd_sorted cd (without_hash d))"
  have d: "map_of d (lit ''prev_hash'') = Some (PStr prev)" "chain_ok cd (?h d) ds"
      "cd_printable cd (without_hash d)" "distinct (map fst d)"
    and e: "map_of e (lit ''prev_hash'') = Some (PStr prev')" "chain_ok cd (?h e) es'"
      "cd_printable cd (without_hash e)" "distinct (map fst e)"
    and len: "length ds = length es'" and ends: "chain_hash cd (?h d) ds = chain_hash cd (?h e) es'"
    using Cons.prems unfolding es by (simp_all add: Let_def)
  have coll: "\<not> collision_in cd ds es'" "\<not> collide cd d e"
    using Cons.prems(1) unfolding es collision_in_def by auto
  from Cons.IH [OF coll(1) d(2) e(2) len ends]
  have h: "?h d = ?h e" and rest: "list_all2 same_record ds es'" by simp_all
  from h coll(2) have "cd_sorted cd (without_hash d) = cd_sorted cd (without_hash e)"
    unfolding collide_def by blast
  with same_canonical_form [OF cd d(3) e(3) d(4) e(4)] have same: "same_record d e" .
  with same_record_prev [OF same d(1) e(1)] rest es show ?case by simp
qed

text \<open>C15: Editing is detected: when a file verifies and another one with as many records and the same
  final hash verifies too, the two hold the same records, in the same order and with the same fields,
  or two of their records are a SHA-256 collision. So any change, insertion or reordering that keeps
  the number of records shows, either in the verification or in the final hash.\<close>
theorem edits_detected:
  assumes "codec_ok cd"
    and "verify_chain cd (Some f) = Inr ()" "verify_chain cd (Some g) = Inr ()"
    and "length (records cd (file_lines f)) = length (records cd (file_lines g))"
    and "chain_hash cd genesis_hash (records cd (file_lines f)) = chain_hash cd genesis_hash (records cd (file_lines g))"
  shows "list_all2 same_record (records cd (file_lines f)) (records cd (file_lines g)) \<or>
    collision_in cd (records cd (file_lines f)) (records cd (file_lines g))"
  using chain_injective [OF assms(1) _ verify_chain_ok [OF assms(1)] verify_chain_ok [OF assms(1)] assms(4,5)] assms(2,3)
  by (auto simp: verify_chain_def)

text \<open>Cutting records off the end is not detected.\<close>

lemma truncation_verifies:
  assumes "verify_chain cd (Some (f @ g)) = Inr ()" "ends_line f"
  shows "verify_chain cd (Some f) = Inr ()"
  using assms by (simp add: verify_chain_def file_lines_append verify_append)

section \<open>A concrete codec\<close>

instance pyval :: countable
  by countable_datatype

text \<open>Dictionaries as decimal numbers, and a hash that keeps its argument.\<close>

definition fits_64_bits :: "pyval \<Rightarrow> bool" where
  "fits_64_bits v = (case v of PInt i \<Rightarrow> - (2 ^ 63) \<le> i \<and> i < 2 ^ 64 | _ \<Rightarrow> True)"

definition sample_codec :: codec where
  "sample_codec =
     \<lparr> cd_printable = list_all (\<lambda>kv. fits_64_bits (snd kv)),
       cd_sorted = (\<lambda>d. str_nat (to_nat d)), cd_line = (\<lambda>d. str_nat (to_nat d)),
       cd_parse = (\<lambda>l. case parse_int l of None \<Rightarrow> None
         | Some i \<Rightarrow> (let d = from_nat (nat i) in if distinct (map fst d) then Some (PDict d) else None)),
       cd_sha256 = (\<lambda>b. b) \<rparr>"

lemma strip_line: "strip (s @ [10]) = strip s"
proof -
  have sp: "is_space 10" by (simp add: is_space_def)
  then have "dropWhile is_space (s @ [10]) = (if \<forall>c \<in> set s. is_space c then [] else dropWhile is_space s @ [10])"
    by (induction s) auto
  moreover have "\<forall>c \<in> set s. is_space c \<Longrightarrow> dropWhile is_space s = []" by simp
  ultimately show ?thesis
    using sp by (cases "\<forall>c \<in> set s. is_space c") (auto simp: strip_def rstrip_def lstrip_def dest: set_dropWhileD)
qed

lemma parse_int_line: "parse_int (str_int i @ [10]) = Some i"
  using parse_int_str_int [of i] by (simp add: parse_int_def strip_line)

lemma str_nat_inject: "str_nat m = str_nat n \<longleftrightarrow> m = n"
  by (metis nat_int option.inject parse_int_str_int)

lemma str_nat_line: "10 \<notin> set (str_nat n)" "\<not> blank_line (str_nat n)"
proof -
  have digits: "is_digit c \<or> c = 45" if "c \<in> set (str_nat n)" for c
    using that by (rule set_str_int)
  then show "10 \<notin> set (str_nat n)" by (force simp: is_digit_def)
  obtain c cs where c: "str_nat n = c # cs"
    by (cases "str_nat n") (auto simp: str_int_def)
  with digits [of c] show "\<not> blank_line (str_nat n)"
    by (auto simp: blank_line_def is_digit_def)
qed

lemma sample_codec_ok: "codec_ok sample_codec"
  unfolding codec_ok_def sample_codec_def
  by (auto simp: parse_int_line str_nat_line str_nat_inject fits_64_bits_def same_fields_def Let_def
      split: option.splits if_splits)

definition sample_event :: audit_event where
  "sample_event = \<lparr> ae_actor = lit ''alice'', ae_tenant = None, ae_tool = lit ''health'', ae_target_qm = None,
     ae_params_hash = [], ae_outcome = lit ''ok'', ae_duration_ms = 3, ae_error = None \<rparr>"

definition sample_log :: audit_log where
  "sample_log = snd (audit_write sample_codec [] sample_event (snd (audit_write sample_codec [] sample_event empty_log)))"

lemma sample_log_reachable: "(log_step sample_codec)\<^sup>*\<^sup>* empty_log sample_log"
  unfolding sample_log_def
  by (meson log_step.write_event rtranclp.rtrancl_into_rtrancl rtranclp.rtrancl_refl)

lemma written_log_verifies_witness: "verify_chain sample_codec (al_file sample_log) = Inr ()"
  using written_log_verifies [OF sample_codec_ok sample_log_reachable] by blast

lemma edits_detected_witness:
  "list_all2 same_record (records sample_codec (file_lines (log_bytes sample_log)))
     (records sample_codec (file_lines (log_bytes sample_log))) \<or>
   collision_in sample_codec (records sample_codec (file_lines (log_bytes sample_log)))
     (records sample_codec (file_lines (log_bytes sample_log)))"
proof (rule edits_detected [OF sample_codec_ok])
  have "log_ok sample_codec sample_log"
    using sample_log_reachable
    by (induction rule: rtranclp_induct) (auto intro: log_ok_empty log_step_ok [OF sample_codec_ok])
  then show "verify_chain sample_codec (Some (log_bytes sample_log)) = Inr ()"
    "verify_chain sample_codec (Some (log_bytes sample_log)) = Inr ()"
    by (simp_all add: verify_chain_def log_ok_def)
qed simp_all

end
