(* ===== verification/Server_Setup.thy ===== *)
theory Server_Setup
  imports Config Auth RateLimit Audit_Log Tools
begin

text \<open>
  The construction of \<open>MQSentinelServer\<close> in \<open>server.py\<close>: which verifier, inventory, credentials
  and connector a server works with, given its settings. The host is the record \<open>host_env\<close>. Of
  the arguments that replace a default, the verifier, the inventory and the credentials are
  modelled; a connector factory of the caller is the connector that a dispatch is given.
\<close>

section \<open>The parts of a server\<close>

datatype verifier =
    StubOIDCVerifier principal
  | RealOIDCVerifier oidc_config oidc_state

datatype secrets_backend =
    NullSecrets
  | UnconfiguredSecrets
  | MountedSecrets pystr
  | CallerSecrets "pystr \<Rightarrow> exn + mq_credential"

datatype connector_factory =
    NewPymqiConnector
  | NewFixtureConnector pystr

record server =
  srv_settings :: settings
  srv_audit :: audit_log
  srv_rate :: rate_limiter
  srv_verifier :: verifier
  srv_inventory :: inventory
  srv_mode :: connector_mode
  srv_secrets :: secrets_backend
  srv_factory :: connector_factory

text \<open>
  File system, the matches of a pattern in a directory, the raw items of an inventory file,
  \<open>Path.expanduser\<close>, the package directory and the checkout, the content of the audit log, and the
  clock.
\<close>

record host_env =
  he_fs :: file_system
  he_glob :: "pystr \<Rightarrow> pystr \<Rightarrow> pystr list"
  he_read_qms :: "pystr \<Rightarrow> exn + qm_entry list"
  he_expanduser :: "pystr \<Rightarrow> pystr"
  he_package_dir :: pystr
  he_checkout_dir :: pystr
  he_audit_file :: "pystr \<Rightarrow> bytes option"
  he_codec :: codec
  he_monotonic :: rat

section \<open>Defaults\<close>

definition demo_fixtures_dir :: "host_env \<Rightarrow> pystr" where
  "demo_fixtures_dir he =
     (let bundled = path_join (he_package_dir he) (lit ''_demo_fixtures'') in
      if fs_is_dir (he_fs he) bundled then bundled
      else path_join (he_checkout_dir he) (lit ''demo-sandbox/fixtures''))"

definition demo_entry :: qm_entry where
  "demo_entry =
     \<lparr> qm_name = lit ''DEMO_QM'', qm_host = lit ''localhost'', qm_port = 1414, qm_channel = lit ''APP.SVRCONN'',
       qm_environment = lit ''dev'', topology_hint = STANDALONE, mq_version_hint = None,
       qm_tenant = lit ''default'', secret_ref = lit ''demo'', cipher_spec = None \<rparr>"

definition demo_inventory :: inventory where
  "demo_inventory = InMemoryInventory [demo_entry]"

definition resolve_with :: "file_system \<Rightarrow> secrets_backend \<Rightarrow> pystr \<Rightarrow> exn + mq_credential" where
  "resolve_with fs backend ref =
     (case backend of
        NullSecrets \<Rightarrow>
          Inr \<lparr> cred_user = lit ''fixture'', cred_password = lit ''fixture'', keystore_path = None,
                keystore_password = None, cert_label = None \<rparr>
      | UnconfiguredSecrets \<Rightarrow>
          Inl (RuntimeError (lit ''live connections need credentials: set MQS_SERVER_SECRETS_DIR to a directory '' @
            lit ''containing '' @ ref @ lit ''/username and '' @ ref @ lit ''/password''))
      | MountedSecrets mount \<Rightarrow> resolve_secret fs mount ref
      | CallerSecrets f \<Rightarrow> f ref)"

definition default_connector_factory :: "host_env \<Rightarrow> connector_mode \<Rightarrow> connector_factory" where
  "default_connector_factory he mode =
     (if mode = PymqiMode then NewPymqiConnector else NewFixtureConnector (demo_fixtures_dir he))"

definition resolve_secrets :: "host_env \<Rightarrow> settings \<Rightarrow> connector_mode \<Rightarrow> exn + secrets_backend" where
  "resolve_secrets he st mode =
     (if mode = FixtureMode then Inr NullSecrets
      else (case sv_secrets_dir (st_server st) of
              None \<Rightarrow> Inr UnconfiguredSecrets
            | Some dir \<Rightarrow>
                if dir = [] then Inr UnconfiguredSecrets
                else bind_res (FilesystemSecrets (he_fs he) (he_expanduser he dir)) (\<lambda>mount. Inr (MountedSecrets mount))))"

definition load_inventory_from_dir :: "host_env \<Rightarrow> pystr \<Rightarrow> exn + inventory" where
  "load_inventory_from_dir he dir =
     (let yaml = sort (he_glob he dir (lit ''*.yaml''));
          paths = (if yaml = [] then sort (he_glob he dir (lit ''*.yml'')) else yaml)
      in if paths = [] then Inr (InMemoryInventory []) else load_from_multiple (he_read_qms he) paths)"

definition resolve_inventory :: "host_env \<Rightarrow> settings \<Rightarrow> exn + inventory" where
  "resolve_inventory he st =
     (case sv_inventory_dir (st_server st) of
        Some (c # cs) \<Rightarrow> load_inventory_from_dir he (c # cs)
      | _ \<Rightarrow>
          if resolved_connector (st_server st) = FixtureMode \<and> ac_disable_auth_for_local_dev (st_auth st) \<and>
             sv_environment (st_server st) = Dev
          then Inr demo_inventory else Inr (InMemoryInventory []))"

definition stub_verifier :: verifier where
  "stub_verifier = StubOIDCVerifier (stub_principal (lit ''local-dev'') [])"

definition default_verifier :: "host_env \<Rightarrow> settings \<Rightarrow> exn + verifier" where
  "default_verifier he st =
     (let auth = st_auth st in
      if ac_disable_auth_for_local_dev auth then Inr stub_verifier
      else if given (ac_oidc_issuer auth) \<and> given (ac_oidc_audience auth) \<and> given (ac_oidc_jwks_url auth) then
        bind_res (new_oidc (the (ac_oidc_issuer auth)) (the (ac_oidc_audience auth)) (ac_oidc_jwks_url auth) None
            (he_monotonic he))
          (\<lambda>(oc, os). Inr (RealOIDCVerifier oc os))
      else if sv_environment (st_server st) = Prod then
        Inl (RuntimeError (lit ''production environment requires complete OIDC configuration '' @
          lit ''(MQS_AUTH_OIDC_ISSUER, MQS_AUTH_OIDC_AUDIENCE, MQS_AUTH_OIDC_JWKS_URL)''))
      else Inr stub_verifier)"

section \<open>The constructor\<close>

record replacements =
  rp_inventory :: "inventory option"
  rp_secrets :: "(pystr \<Rightarrow> exn + mq_credential) option"
  rp_verifier :: "verifier option"

definition no_replacements :: replacements where
  "no_replacements = \<lparr> rp_inventory = None, rp_secrets = None, rp_verifier = None \<rparr>"

definition new_server :: "host_env \<Rightarrow> settings \<Rightarrow> replacements \<Rightarrow> exn + server" where
  "new_server he st rp =
     bind_res (open_log (he_codec he) (he_audit_file he (au_log_path (st_audit st)))) (\<lambda>log.
     bind_res (case rp_verifier rp of Some v \<Rightarrow> Inr v | None \<Rightarrow> default_verifier he st) (\<lambda>verifier.
     bind_res (case rp_inventory rp of Some i \<Rightarrow> Inr i | None \<Rightarrow> resolve_inventory he st) (\<lambda>inventory.
     bind_res (case rp_secrets rp of Some f \<Rightarrow> Inr (CallerSecrets f)
               | None \<Rightarrow> resolve_secrets he st (resolved_connector (st_server st))) (\<lambda>backend.
     Inr \<lparr> srv_settings = st, srv_audit = log,
           srv_rate = new_rate_limiter (sc_rate_limit_per_minute (st_security st)) (sc_rate_limit_per_minute (st_security st)),
           srv_verifier = verifier, srv_inventory = inventory, srv_mode = resolved_connector (st_server st),
           srv_secrets = backend,
           srv_factory = default_connector_factory he (resolved_connector (st_server st)) \<rparr>))))"

section \<open>Properties\<close>

lemma real_verifier_new:
  "new_oidc issuer audience url None now = Inr (oc, os) \<Longrightarrow>
     oc_issuer oc = issuer \<and> oc_audience oc = audience \<and> oc_jwks_url oc = url \<and> os_jwks os = None"
  by (auto simp: new_oidc_def split: if_splits)

lemma default_verifier_prod:
  assumes "default_verifier he st = Inr v" and "\<not> ac_disable_auth_for_local_dev (st_auth st)"
    and "sv_environment (st_server st) = Prod"
  shows "\<exists>oc os. v = RealOIDCVerifier oc os \<and> Some (oc_issuer oc) = ac_oidc_issuer (st_auth st) \<and>
    Some (oc_audience oc) = ac_oidc_audience (st_auth st) \<and> oc_jwks_url oc = ac_oidc_jwks_url (st_auth st) \<and>
    given (ac_oidc_issuer (st_auth st)) \<and> given (ac_oidc_audience (st_auth st)) \<and> given (oc_jwks_url oc)"
  using assms
  by (auto simp: default_verifier_def Let_def given_def split: if_splits dest!: real_verifier_new)

lemma load_inventory_parts:
  assumes "load_inventory_from_dir he dir = Inr inventory"
  shows "\<exists>paths. set paths \<subseteq> set (he_glob he dir (lit ''*.yaml'')) \<union> set (he_glob he dir (lit ''*.yml'')) \<and>
    load_from_multiple (he_read_qms he) paths = Inr inventory"
proof -
  let ?yaml = "sort (he_glob he dir (lit ''*.yaml''))" and ?yml = "sort (he_glob he dir (lit ''*.yml''))"
  have empty: "load_from_multiple (he_read_qms he) [] = Inr (InMemoryInventory [])"
    by (simp add: load_from_multiple_def)
  show ?thesis
  proof (cases "?yaml = []")
    case True
    with assms empty have "load_from_multiple (he_read_qms he) ?yml = Inr inventory"
      by (auto simp: load_inventory_from_dir_def Let_def split: if_splits)
    then show ?thesis by (intro exI [of _ ?yml]) auto
  next
    case False
    with assms have "load_from_multiple (he_read_qms he) ?yaml = Inr inventory"
      by (auto simp: load_inventory_from_dir_def Let_def split: if_splits)
    then show ?thesis by (intro exI [of _ ?yaml]) auto
  qed
qed

text \<open>C12: A server that starts in production with settings that were loaded verifies tokens against
  the configured issuer, audience and key URL (never with the development verifier), connects with
  the live client, never hands out the demo credentials, and diagnoses only queue managers of the
  configured inventory directory.\<close>
theorem production_server:
  assumes "load_settings read_settings = Inr st" and "sv_environment (st_server st) = Prod"
    and "new_server he st no_replacements = Inr srv"
  shows "(\<exists>oc os. srv_verifier srv = RealOIDCVerifier oc os \<and> Some (oc_issuer oc) = ac_oidc_issuer (st_auth st) \<and>
      Some (oc_audience oc) = ac_oidc_audience (st_auth st) \<and> oc_jwks_url oc = ac_oidc_jwks_url (st_auth st) \<and>
      given (oc_jwks_url oc)) \<and>
    srv_mode srv = PymqiMode \<and> srv_factory srv = NewPymqiConnector \<and> srv_secrets srv \<noteq> NullSecrets \<and>
    (inv_list_all (srv_inventory srv) = [] \<or>
     (\<exists>dir paths. sv_inventory_dir (st_server st) = Some dir \<and>
        set paths \<subseteq> set (he_glob he dir (lit ''*.yaml'')) \<union> set (he_glob he dir (lit ''*.yml'')) \<and>
        load_from_multiple (he_read_qms he) paths = Inr (srv_inventory srv)))"
proof -
  note safe = load_settings_safe [OF assms(1,2)]
  from assms(3) safe(2) have v: "default_verifier he st = Inr (srv_verifier srv)"
    and i: "resolve_inventory he st = Inr (srv_inventory srv)"
    and s: "resolve_secrets he st PymqiMode = Inr (srv_secrets srv)"
    and f: "srv_mode srv = PymqiMode" "srv_factory srv = NewPymqiConnector"
    by (auto simp: new_server_def no_replacements_def default_connector_factory_def)
  have inventory: "inv_list_all (srv_inventory srv) = [] \<or>
     (\<exists>dir paths. sv_inventory_dir (st_server st) = Some dir \<and>
        set paths \<subseteq> set (he_glob he dir (lit ''*.yaml'')) \<union> set (he_glob he dir (lit ''*.yml'')) \<and>
        load_from_multiple (he_read_qms he) paths = Inr (srv_inventory srv))"
  proof (cases "given (sv_inventory_dir (st_server st))")
    case True
    then obtain c cs where dir: "sv_inventory_dir (st_server st) = Some (c # cs)"
      by (auto simp: given_def neq_Nil_conv)
    with i have "load_inventory_from_dir he (c # cs) = Inr (srv_inventory srv)"
      by (simp add: resolve_inventory_def)
    with dir load_inventory_parts show ?thesis by blast
  next
    case False
    with i safe(2) have "srv_inventory srv = InMemoryInventory []"
      by (auto simp: resolve_inventory_def given_def)
    then show ?thesis by (simp add: inv_list_all_def InMemoryInventory_def dict_update_def)
  qed
  moreover have "srv_secrets srv \<noteq> NullSecrets"
    using s by (auto simp: resolve_secrets_def split: option.splits if_splits)
  ultimately show ?thesis
    using default_verifier_prod [OF v safe(1) assms(2)] f by blast
qed

text \<open>C26: Start-up in production fails closed: without complete OIDC settings, with authentication
  switched off, or on the demo fixtures, no server is built, whatever the host holds.\<close>
theorem production_fails_closed:
  assumes "sv_environment (st_server st) = Prod"
    and "ac_disable_auth_for_local_dev (st_auth st) \<or> resolved_connector (st_server st) = FixtureMode \<or>
      \<not> given (ac_oidc_issuer (st_auth st)) \<or> \<not> given (ac_oidc_audience (st_auth st)) \<or>
      \<not> given (ac_oidc_jwks_url (st_auth st))"
  shows "\<not> is_ok (bind_res (load_settings (Inr st)) (\<lambda>st. new_server he st no_replacements))"
proof
  assume "is_ok (bind_res (load_settings (Inr st)) (\<lambda>st. new_server he st no_replacements))"
  then have "\<exists>srv. bind_res (load_settings (Inr st)) (\<lambda>st. new_server he st no_replacements) = Inr srv"
    by (metis is_ok.elims(2))
  then obtain srv where l: "load_settings (Inr st) = Inr st" and n: "new_server he st no_replacements = Inr srv"
    by (auto simp: load_settings_def)
  note safe = load_settings_safe [OF l assms(1)]
  from n have "default_verifier he st = Inr (srv_verifier srv)"
    by (auto simp: new_server_def no_replacements_def)
  from default_verifier_prod [OF this safe(1) assms(1)] safe assms(2) show False by auto
qed

text \<open>The demo queue manager is served only where authentication is switched off on a
  development machine without an inventory directory.\<close>

lemma demo_only_in_dev:
  assumes "new_server he st no_replacements = Inr srv" and "srv_inventory srv = demo_inventory"
    and "\<not> given (sv_inventory_dir (st_server st))"
  shows "sv_environment (st_server st) = Dev \<and> ac_disable_auth_for_local_dev (st_auth st) \<and> srv_mode srv = FixtureMode"
proof -
  from assms(1) have i: "resolve_inventory he st = Inr (srv_inventory srv)"
    and m: "srv_mode srv = resolved_connector (st_server st)"
    by (auto simp: new_server_def no_replacements_def)
  have "inv_get demo_inventory (lit ''DEMO_QM'') = Inr demo_entry"
    by (simp add: inv_get_def demo_inventory_def map_of_inventory last_entry_def demo_entry_def)
  moreover have "inv_get (InMemoryInventory []) (lit ''DEMO_QM'') \<noteq> Inr demo_entry"
    by (simp add: inv_get_def map_of_inventory last_entry_def)
  ultimately have "demo_inventory \<noteq> InMemoryInventory []" by metis
  with i m assms(2,3) show ?thesis
    by (auto simp: resolve_inventory_def given_def split: if_splits option.splits list.splits)
qed

section \<open>Concrete servers\<close>

definition prod_settings :: settings where
  "prod_settings = default_settings
     \<lparr> st_server := (st_server default_settings)
         \<lparr> sv_environment := Prod, sv_inventory_dir := Some (lit ''/etc/mqs''), sv_secrets_dir := Some (lit ''/run/secrets'') \<rparr>,
       st_auth := (st_auth default_settings)
         \<lparr> ac_oidc_issuer := Some (lit ''idp''), ac_oidc_audience := Some (lit ''mqs''),
           ac_oidc_jwks_url := Some (lit ''https://idp/keys'') \<rparr> \<rparr>"

definition sample_host :: host_env where
  "sample_host =
     \<lparr> he_fs = sample_fs, he_glob = (\<lambda>_ pat. if pat = lit ''*.yaml'' then [lit ''/etc/mqs/qms.yaml''] else []),
       he_read_qms = (\<lambda>_. Inr [sample_entry]), he_expanduser = (\<lambda>p. p), he_package_dir = lit ''/app'',
       he_checkout_dir = lit ''/'', he_audit_file = (\<lambda>_. None), he_codec = sample_codec, he_monotonic = 0 \<rparr>"

definition prod_server :: server where
  "prod_server =
     \<lparr> srv_settings = prod_settings, srv_audit = empty_log, srv_rate = new_rate_limiter 60 60,
       srv_verifier = RealOIDCVerifier (fst sample_oidc) (snd sample_oidc),
       srv_inventory = InMemoryInventory [sample_entry], srv_mode = PymqiMode,
       srv_secrets = MountedSecrets (lit ''/run/secrets''), srv_factory = NewPymqiConnector \<rparr>"

lemma prod_settings_load: "load_settings (Inr prod_settings) = Inr prod_settings"
  by (simp add: load_settings_def assert_production_safe_def prod_settings_def default_settings_def
      resolved_connector_def given_def)

lemma prod_server_new: "new_server sample_host prod_settings no_replacements = Inr prod_server"
proof -
  have "open_log (he_codec sample_host) (he_audit_file sample_host p) = Inr empty_log" for p
    by (simp add: open_log_def load_last_hash_def sample_host_def empty_log_def)
  moreover have "default_verifier sample_host prod_settings = Inr (srv_verifier prod_server)"
    by (simp add: default_verifier_def prod_settings_def default_settings_def given_def sample_host_def
        prod_server_def sample_oidc_new case_prod_unfold)
  moreover have "resolve_inventory sample_host prod_settings = Inr (srv_inventory prod_server)"
  proof -
    have "resolve_inventory sample_host prod_settings = load_inventory_from_dir sample_host (lit ''/etc/mqs'')"
      by (simp add: resolve_inventory_def prod_settings_def default_settings_def split: list.split)
    also have "\<dots> = Inr (srv_inventory prod_server)"
      by (simp add: load_inventory_from_dir_def sample_host_def prod_server_def load_from_multiple_def QMEntry_def
          sample_entry_valid)
    finally show ?thesis .
  qed
  moreover have "resolved_connector (st_server prod_settings) = PymqiMode"
    by (simp add: resolved_connector_def prod_settings_def default_settings_def given_def)
  moreover have "resolve_secrets sample_host prod_settings PymqiMode = Inr (srv_secrets prod_server)"
    by (simp add: resolve_secrets_def prod_settings_def default_settings_def FilesystemSecrets_def sample_host_def
        sample_fs_def prod_server_def)
  ultimately show ?thesis
    by (simp add: new_server_def no_replacements_def default_connector_factory_def)
      (simp add: prod_server_def prod_settings_def default_settings_def)
qed

lemma production_server_witness:
  "srv_mode prod_server = PymqiMode \<and> srv_secrets prod_server \<noteq> NullSecrets \<and>
   (\<exists>oc os. srv_verifier prod_server = RealOIDCVerifier oc os)"
proof -
  have "sv_environment (st_server prod_settings) = Prod" by (simp add: prod_settings_def)
  from production_server [OF prod_settings_load this prod_server_new] show ?thesis by blast
qed

lemma production_fails_closed_witness:
  "\<not> is_ok (bind_res (load_settings (Inr (prod_settings\<lparr> st_auth := st_auth default_settings \<rparr>)))
     (\<lambda>st. new_server sample_host st no_replacements))"
  by (rule production_fails_closed) (simp_all add: prod_settings_def default_settings_def given_def)

text \<open>A staging server without OIDC settings starts with the development verifier, which accepts
  every non-empty token.\<close>

lemma staging_accepts_any_token:
  "default_verifier he (default_settings\<lparr> st_server := (st_server default_settings)\<lparr> sv_environment := Staging \<rparr> \<rparr>) =
     Inr stub_verifier \<and>
   (t \<noteq> [] \<longrightarrow> stub_verify (stub_principal (lit ''local-dev'') []) t = Inr (stub_principal (lit ''local-dev'') []))"
  by (simp add: default_verifier_def default_settings_def given_def stub_verify_def)

end
