(* ===== verification/Server.thy ===== *)
theory Server
  imports Server_Setup
begin

text \<open>
  The tool surface and the dispatcher of \<open>server.py\<close>. A dispatch takes the fresh connector of the
  call and gives the result, the server afterwards and the connector afterwards, whose trace holds
  every effect of the call on the queue manager. Here a dispatch is one step; \<open>Concurrency\<close> takes it apart
  into the steps between which other threads run.
\<close>

section \<open>The process and the call\<close>

record process_env =
  pe_fs :: file_system
  pe_jose :: jose_env
  pe_codec :: codec

text \<open>The readings of the clocks in one call, and what its tool takes from the process.\<close>

record call_env =
  ce_runtime :: runtime
  ce_started :: rat
  ce_verify_at :: rat
  ce_rate_at :: rat
  ce_finished :: rat
  ce_check_ms :: int
  ce_timestamp :: pystr

definition version :: pystr where
  "version = lit ''0.5.0''"

definition services_of :: "process_env \<Rightarrow> server \<Rightarrow> services" where
  "services_of pe srv =
     \<lparr> sv_inventory = srv_inventory srv, sv_resolve = resolve_with (pe_fs pe) (srv_secrets srv), sv_registry = None \<rparr>"

section \<open>Authentication and access\<close>

definition verify_token :: "jose_env \<Rightarrow> rat \<Rightarrow> pystr \<Rightarrow> verifier \<Rightarrow> (exn + principal) \<times> verifier" where
  "verify_token je now token v =
     (case v of
        StubOIDCVerifier p \<Rightarrow> (stub_verify p token, v)
      | RealOIDCVerifier oc os \<Rightarrow>
          (case oidc_verify je oc now token os of (r, os') \<Rightarrow> (r, RealOIDCVerifier oc os')))"

definition authenticate :: "process_env \<Rightarrow> rat \<Rightarrow> pystr \<Rightarrow> server \<Rightarrow> (exn + principal) \<times> server" where
  "authenticate pe now token srv =
     (case verify_token (pe_jose pe) now token (srv_verifier srv) of (r, v) \<Rightarrow> (r, srv\<lparr> srv_verifier := v \<rparr>))"

text \<open>The server's verifier is one of the two, so it keeps their promises.\<close>

fun verifier_wf :: "verifier \<Rightarrow> bool" where
  "verifier_wf (StubOIDCVerifier p) \<longleftrightarrow> pr_subject p \<noteq> []"
| "verifier_wf (RealOIDCVerifier oc os) \<longleftrightarrow> True"

interpretation tokens: token_verifier "verify_token je" verifier_wf for je
proof unfold_locales
  fix now token p and v :: verifier
  show "\<exists>m. verify_token je now [] v = (Inl (TokenVerificationError m), v)"
  proof (cases v)
    case (StubOIDCVerifier q)
    with stub.empty_refused [of q] show ?thesis by (auto simp: verify_token_def)
  next
    case (RealOIDCVerifier oc os)
    with oidc.empty_refused [of je oc now os] show ?thesis by (auto simp: verify_token_def)
  qed
  assume wf: "verifier_wf v"
  show "pr_subject p \<noteq> []" if "fst (verify_token je now token v) = Inr p"
  proof (cases v)
    case (StubOIDCVerifier q)
    with that wf stub.verified_subject [of q token p] show ?thesis by (simp add: verify_token_def)
  next
    case (RealOIDCVerifier oc os)
    with that have "fst (oidc_verify je oc now token os) = Inr p"
      by (simp add: verify_token_def split: prod.splits)
    then show ?thesis by (intro oidc.verified_subject) simp_all
  qed
  show "verifier_wf (snd (verify_token je now token v))"
    using wf by (auto simp: verify_token_def split: verifier.split prod.split)
qed

definition read_action :: "qm_entry \<Rightarrow> action" where
  "read_action entry = (if qm_environment entry = lit ''prod'' then READ_PROD else READ_NONPROD)"

definition can_read :: "principal \<Rightarrow> qm_entry \<Rightarrow> bool" where
  "can_read p entry = (case authorize p (read_action entry) of Inl _ \<Rightarrow> False | Inr _ \<Rightarrow> True)"

text \<open>The access check that every diagnostic handler starts with.\<close>

definition with_access :: "server \<Rightarrow> pystr \<Rightarrow> principal \<Rightarrow> ('s, 'a) act \<Rightarrow> ('s, 'a) act" where
  "with_access srv qm p tool =
     (case inv_get (srv_inventory srv) qm of
        Inl e \<Rightarrow> bind_act (lift_res (authorize p READ_NONPROD)) (\<lambda>_. raise e)
      | Inr entry \<Rightarrow> bind_act (lift_res (authorize p (read_action entry))) (\<lambda>_. tool))"

section \<open>The handlers\<close>

definition listed_manager :: "qm_entry \<Rightarrow> pyval" where
  "listed_manager e =
     PDict [(lit ''qm_name'', PStr (qm_name e)), (lit ''environment'', PStr (qm_environment e)),
            (lit ''topology_hint'', PStr (topology_value (topology_hint e)))]"

definition health_report :: "server \<Rightarrow> principal \<Rightarrow> (pystr \<times> pyval) list" where
  "health_report srv p =
     [(lit ''status'', PStr (lit ''ok'')),
      (lit ''version'', PStr version),
      (lit ''environment'', PStr (deployment_value (sv_environment (st_server (srv_settings srv))))),
      (lit ''connector'', PStr (if srv_mode srv = PymqiMode then lit ''live'' else lit ''demo-fixtures'')),
      (lit ''principal'', PStr (pr_subject p)),
      (lit ''queue_managers'', PList (map listed_manager (filter (can_read p) (inv_list_all (srv_inventory srv)))))]"

definition health :: "runtime \<Rightarrow> server \<Rightarrow> principal \<Rightarrow> ('s, pyval) act" where
  "health rt srv p = ret (sanitize (rt_nfkc rt) (PDict (health_report srv p)))"

definition srv_diagnose_channels ::
  "'s connector \<Rightarrow> process_env \<Rightarrow> runtime \<Rightarrow> server \<Rightarrow> pystr \<Rightarrow> principal \<Rightarrow> ('s, pyval) act" where
  "srv_diagnose_channels C pe rt srv qm p =
     with_access srv qm p (diagnose_failed_channels C rt (services_of pe srv) qm)"

definition srv_analyze_dlq ::
  "'s connector \<Rightarrow> process_env \<Rightarrow> runtime \<Rightarrow> server \<Rightarrow> pystr \<Rightarrow> principal \<Rightarrow> int \<Rightarrow> ('s, pyval) act" where
  "srv_analyze_dlq C pe rt srv qm p sample_size =
     with_access srv qm p (analyze_dlq C rt (services_of pe srv) sample_size qm)"

definition srv_check_cluster_health ::
  "'s connector \<Rightarrow> process_env \<Rightarrow> runtime \<Rightarrow> server \<Rightarrow> pystr \<Rightarrow> principal \<Rightarrow> ('s, pyval) act" where
  "srv_check_cluster_health C pe rt srv qm p =
     with_access srv qm p (check_cluster_health C rt (services_of pe srv) qm)"

definition srv_full_health_check ::
  "'s connector \<Rightarrow> process_env \<Rightarrow> runtime \<Rightarrow> int \<Rightarrow> server \<Rightarrow> pystr \<Rightarrow> principal \<Rightarrow> int \<Rightarrow> ('s, pyval) act" where
  "srv_full_health_check C pe rt duration_ms srv qm p dlq_sample_size =
     with_access srv qm p (full_mq_health_check C rt (services_of pe srv) dlq_sample_size duration_ms qm)"

definition srv_diagnose_native_ha ::
  "'s connector \<Rightarrow> process_env \<Rightarrow> runtime \<Rightarrow> server \<Rightarrow> pystr \<Rightarrow> principal \<Rightarrow> ('s, pyval) act" where
  "srv_diagnose_native_ha C pe rt srv qm p =
     with_access srv qm p (diagnose_native_ha_issues C rt (services_of pe srv) qm)"

definition srv_diagnose_rdqm ::
  "'s connector \<Rightarrow> process_env \<Rightarrow> runtime \<Rightarrow> server \<Rightarrow> pystr \<Rightarrow> principal \<Rightarrow> ('s, pyval) act" where
  "srv_diagnose_rdqm C pe rt srv qm p =
     with_access srv qm p (diagnose_rdqm_issues C rt (services_of pe srv) qm)"

definition srv_diagnose_zos ::
  "'s connector \<Rightarrow> process_env \<Rightarrow> runtime \<Rightarrow> server \<Rightarrow> pystr \<Rightarrow> principal \<Rightarrow> ('s, pyval) act" where
  "srv_diagnose_zos C pe rt srv qm p =
     with_access srv qm p (diagnose_zos_qsg_issues C rt (services_of pe srv) qm)"

definition srv_diagnose_miqm ::
  "'s connector \<Rightarrow> process_env \<Rightarrow> runtime \<Rightarrow> server \<Rightarrow> pystr \<Rightarrow> principal \<Rightarrow> ('s, pyval) act" where
  "srv_diagnose_miqm C pe rt srv qm p =
     with_access srv qm p (diagnose_multi_instance_issues C rt (services_of pe srv) qm)"

section \<open>The tool of a call\<close>

text \<open>A parameter that must be a string or an integer; a boolean is an integer of the language.\<close>

definition need_qm :: "pyval option \<Rightarrow> (pystr \<Rightarrow> ('s, 'a) act) \<Rightarrow> ('s, 'a) act" where
  "need_qm target f =
     (case target of Some (PStr qm) \<Rightarrow> f qm
      | _ \<Rightarrow> raise (ValueError (lit ''qm_name (str) parameter required'')))"

definition need_int :: "pystr \<Rightarrow> pyval \<Rightarrow> (int \<Rightarrow> ('s, 'a) act) \<Rightarrow> ('s, 'a) act" where
  "need_int name v f =
     (case v of PInt i \<Rightarrow> f i | PBool b \<Rightarrow> f (if b then 1 else 0)
      | _ \<Rightarrow> raise (ValueError (name @ lit '' must be an int'')))"

definition param :: "dict \<Rightarrow> pystr \<Rightarrow> pyval \<Rightarrow> pyval" where
  "param params k d = (case map_of params k of None \<Rightarrow> d | Some v \<Rightarrow> v)"

definition call_tool ::
  "'s connector \<Rightarrow> process_env \<Rightarrow> call_env \<Rightarrow> server \<Rightarrow> pystr \<Rightarrow> dict \<Rightarrow> principal \<Rightarrow> ('s, pyval) act" where
  "call_tool C pe ce srv tool params p =
     (let rt = ce_runtime ce; target = map_of params (lit ''qm_name'') in
      if tool = lit ''health'' then health rt srv p
      else if tool = lit ''diagnose_failed_channels'' then
        need_qm target (\<lambda>qm. srv_diagnose_channels C pe rt srv qm p)
      else if tool = lit ''analyze_dlq_and_suggest_reprocessing'' then
        need_qm target (\<lambda>qm. need_int (lit ''sample_size'') (param params (lit ''sample_size'') (PInt 50))
          (\<lambda>sample. srv_analyze_dlq C pe rt srv qm p sample))
      else if tool = lit ''check_cluster_health'' then
        need_qm target (\<lambda>qm. srv_check_cluster_health C pe rt srv qm p)
      else if tool = lit ''full_mq_health_check'' then
        need_qm target (\<lambda>qm. need_int (lit ''dlq_sample_size'') (param params (lit ''dlq_sample_size'') (PInt 50))
          (\<lambda>sample. srv_full_health_check C pe rt (ce_check_ms ce) srv qm p sample))
      else if tool = lit ''diagnose_native_ha_issues'' then
        need_qm target (\<lambda>qm. srv_diagnose_native_ha C pe rt srv qm p)
      else if tool = lit ''diagnose_rdqm_issues'' then
        need_qm target (\<lambda>qm. srv_diagnose_rdqm C pe rt srv qm p)
      else if tool = lit ''diagnose_zos_qsg_issues'' then
        need_qm target (\<lambda>qm. srv_diagnose_zos C pe rt srv qm p)
      else if tool = lit ''diagnose_multi_instance_issues'' then
        need_qm target (\<lambda>qm. srv_diagnose_miqm C pe rt srv qm p)
      else raise (LookupError (lit ''unknown tool: '' @ tool)))"

section \<open>Dispatch\<close>

text \<open>What the \<open>try\<close> block leaves behind: the principal, the outcome and the result.\<close>

record attempt =
  at_principal :: "principal option"
  at_outcome :: pystr
  at_result :: "exn + pyval"

definition attempt_call ::
  "'s connector \<Rightarrow> process_env \<Rightarrow> call_env \<Rightarrow> pystr \<Rightarrow> pystr \<Rightarrow> dict \<Rightarrow> server \<Rightarrow> 's \<Rightarrow> attempt \<times> server \<times> 's" where
  "attempt_call C pe ce token tool params srv s =
     (case authenticate pe (ce_verify_at ce) token srv of
        (Inl e, srv1) \<Rightarrow>
          (\<lparr> at_principal = None, at_outcome = lit ''error'', at_result = Inl e \<rparr>, srv1, s)
      | (Inr p, srv1) \<Rightarrow>
          (case allow (ce_rate_at ce) (pr_subject p) 1 (srv_rate srv1) of
             (admitted_now, rl) \<Rightarrow>
               let srv2 = srv1\<lparr> srv_rate := rl \<rparr> in
               if \<not> admitted_now then
                 (\<lparr> at_principal = Some p, at_outcome = lit ''denied'',
                    at_result = Inl (PermissionError (lit ''rate limit exceeded'')) \<rparr>, srv2, s)
               else
                 (case call_tool C pe ce srv2 tool params p s of
                    (Inl e, s') \<Rightarrow> (\<lparr> at_principal = Some p, at_outcome = lit ''error'', at_result = Inl e \<rparr>, srv2, s')
                  | (Inr v, s') \<Rightarrow> (\<lparr> at_principal = Some p, at_outcome = lit ''ok'', at_result = Inr v \<rparr>, srv2, s'))))"

definition hash_params :: "codec \<Rightarrow> dict \<Rightarrow> exn + pystr" where
  "hash_params cd params =
     (if cd_printable cd params then Inr (cd_sha256 cd (cd_sorted cd params)) else Inl not_printable)"

definition audit_event_of :: "call_env \<Rightarrow> pystr \<Rightarrow> dict \<Rightarrow> pystr \<Rightarrow> attempt \<Rightarrow> audit_event" where
  "audit_event_of ce tool params params_hash a =
     \<lparr> ae_actor = (case at_principal a of None \<Rightarrow> lit ''unauthenticated'' | Some p \<Rightarrow> pr_subject p),
       ae_tenant = (case at_principal a of None \<Rightarrow> None | Some p \<Rightarrow> pr_tenant p),
       ae_tool = tool,
       ae_target_qm = (case map_of params (lit ''qm_name'') of Some (PStr qm) \<Rightarrow> Some qm | _ \<Rightarrow> None),
       ae_params_hash = params_hash,
       ae_outcome = at_outcome a,
       ae_duration_ms = \<lfloor>(ce_finished ce - ce_started ce) * 1000\<rfloor>,
       ae_error = (case at_result a of Inl e \<Rightarrow> Some (class_name e) | Inr _ \<Rightarrow> None) \<rparr>"

text \<open>The \<open>finally\<close> block: an exception in it replaces the result of the call.\<close>

definition audit_call :: "process_env \<Rightarrow> call_env \<Rightarrow> pystr \<Rightarrow> dict \<Rightarrow> attempt \<Rightarrow> server \<Rightarrow> (exn + pyval) \<times> server" where
  "audit_call pe ce tool params a srv =
     (case hash_params (pe_codec pe) params of
        Inl e \<Rightarrow> (Inl e, srv)
      | Inr h \<Rightarrow>
          (case audit_write (pe_codec pe) (ce_timestamp ce) (audit_event_of ce tool params h a) (srv_audit srv) of
             (Inl e, log') \<Rightarrow> (Inl e, srv\<lparr> srv_audit := log' \<rparr>)
           | (Inr _, log') \<Rightarrow> (at_result a, srv\<lparr> srv_audit := log' \<rparr>)))"

definition dispatch ::
  "'s connector \<Rightarrow> process_env \<Rightarrow> call_env \<Rightarrow> pystr \<Rightarrow> pystr \<Rightarrow> dict \<Rightarrow> server \<Rightarrow> 's \<Rightarrow>
     (exn + pyval) \<times> server \<times> 's" where
  "dispatch C pe ce token tool params srv s =
     (case attempt_call C pe ce token tool params srv s of
        (a, srv', s') \<Rightarrow> (case audit_call pe ce tool params a srv' of (r, srv'') \<Rightarrow> (r, srv'', s')))"

section \<open>The three ways a call can go\<close>

lemma attempt_cases:
  assumes "attempt_call C pe ce token tool params srv s = (a, srv', s')"
  obtains (unverified) e v where
      "verify_token (pe_jose pe) (ce_verify_at ce) token (srv_verifier srv) = (Inl e, v)"
      "a = \<lparr> at_principal = None, at_outcome = lit ''error'', at_result = Inl e \<rparr>"
      "srv' = srv\<lparr> srv_verifier := v \<rparr>" "s' = s"
    | (limited) p v rl where
      "verify_token (pe_jose pe) (ce_verify_at ce) token (srv_verifier srv) = (Inr p, v)"
      "allow (ce_rate_at ce) (pr_subject p) 1 (srv_rate srv) = (False, rl)"
      "a = \<lparr> at_principal = Some p, at_outcome = lit ''denied'',
             at_result = Inl (PermissionError (lit ''rate limit exceeded'')) \<rparr>"
      "srv' = srv\<lparr> srv_verifier := v, srv_rate := rl \<rparr>" "s' = s"
    | (run) p v rl r where
      "verify_token (pe_jose pe) (ce_verify_at ce) token (srv_verifier srv) = (Inr p, v)"
      "allow (ce_rate_at ce) (pr_subject p) 1 (srv_rate srv) = (True, rl)"
      "srv' = srv\<lparr> srv_verifier := v, srv_rate := rl \<rparr>"
      "call_tool C pe ce srv' tool params p s = (r, s')"
      "a = \<lparr> at_principal = Some p, at_outcome = (if is_ok r then lit ''ok'' else lit ''error''), at_result = r \<rparr>"
proof -
  obtain q v where v: "verify_token (pe_jose pe) (ce_verify_at ce) token (srv_verifier srv) = (q, v)" by force
  show thesis
  proof (cases q)
    case (Inl e)
    with assms v show ?thesis by (intro unverified) (auto simp: attempt_call_def authenticate_def)
  next
    case (Inr p)
    obtain ok rl where al: "allow (ce_rate_at ce) (pr_subject p) 1 (srv_rate srv) = (ok, rl)" by force
    let ?srv = "srv\<lparr> srv_verifier := v, srv_rate := rl \<rparr>"
    obtain r s1 where c: "call_tool C pe ce ?srv tool params p s = (r, s1)" by force
    show ?thesis
    proof (cases ok)
      case False
      with assms v Inr al show ?thesis by (intro limited) (auto simp: attempt_call_def authenticate_def)
    next
      case True
      with assms v Inr al c show ?thesis
        by (cases r) (intro run; auto simp: attempt_call_def authenticate_def)+
    qed
  qed
qed

lemma audit_call_server:
  assumes "audit_call pe ce tool params a srv = (r, srv')"
  shows "\<exists>lg. srv' = srv\<lparr> srv_audit := lg \<rparr>"
  using assms
  by (auto simp: audit_call_def split: sum.splits prod.splits) (rule exI [of _ "srv_audit srv"], simp)

lemma dispatch_parts:
  assumes "dispatch C pe ce token tool params srv s = (r, srv', s')"
  obtains a srv1 where "attempt_call C pe ce token tool params srv s = (a, srv1, s')"
    "audit_call pe ce tool params a srv1 = (r, srv')"
  using assms by (auto simp: dispatch_def split: prod.splits)

text \<open>A dispatch never changes the settings, the inventory, the credentials or the connector.\<close>

lemma dispatch_fixed:
  assumes "dispatch C pe ce token tool params srv s = (r, srv', s')"
  shows "srv_inventory srv' = srv_inventory srv \<and> srv_settings srv' = srv_settings srv \<and>
    srv_secrets srv' = srv_secrets srv \<and> srv_mode srv' = srv_mode srv \<and> srv_factory srv' = srv_factory srv"
proof -
  obtain a srv1 where p: "attempt_call C pe ce token tool params srv s = (a, srv1, s')"
    "audit_call pe ce tool params a srv1 = (r, srv')" using dispatch_parts [OF assms] .
  obtain lg where "srv' = srv1\<lparr> srv_audit := lg \<rparr>" using audit_call_server [OF p(2)] by blast
  with p(1) show ?thesis by (cases rule: attempt_cases [OF p(1)]) simp_all
qed

section \<open>What a call can touch\<close>

definition tool_names :: "pystr list" where
  "tool_names =
     [lit ''diagnose_failed_channels'', lit ''analyze_dlq_and_suggest_reprocessing'', lit ''check_cluster_health'',
      lit ''full_mq_health_check'', lit ''diagnose_native_ha_issues'', lit ''diagnose_rdqm_issues'',
      lit ''diagnose_zos_qsg_issues'', lit ''diagnose_multi_instance_issues'']"

lemma with_access_moves:
  assumes "with_access srv qm p m s = (r, s')" and "s' \<noteq> s"
  shows "\<exists>entry. inv_get (srv_inventory srv) qm = Inr entry \<and> authorize p (read_action entry) = Inr ()"
  using assms
  by (auto simp: with_access_def bind_act_def lift_res_def raise_def split: sum.splits)

lemma need_qm_moves:
  assumes "need_qm target f s = (r, s')" and "s' \<noteq> s"
  shows "\<exists>qm. target = Some (PStr qm) \<and> f qm s = (r, s')"
  using assms by (auto simp: need_qm_def raise_def split: option.splits pyval.splits)

lemma need_int_moves:
  assumes "need_int name v f s = (r, s')" and "s' \<noteq> s"
  shows "\<exists>i. f i s = (r, s')"
  using assms by (auto simp: need_int_def raise_def split: pyval.splits)

lemmas handler_defs = srv_diagnose_channels_def srv_analyze_dlq_def srv_check_cluster_health_def
  srv_full_health_check_def srv_diagnose_native_ha_def srv_diagnose_rdqm_def srv_diagnose_zos_def
  srv_diagnose_miqm_def

lemma call_tool_moves:
  assumes "call_tool C pe ce srv tool params p s = (r, s')" and "s' \<noteq> s"
  shows "tool \<in> set tool_names \<and>
    (\<exists>qm entry. map_of params (lit ''qm_name'') = Some (PStr qm) \<and>
       inv_get (srv_inventory srv) qm = Inr entry \<and> authorize p (read_action entry) = Inr ())"
  using assms unfolding call_tool_def Let_def tool_names_def handler_defs
  by (auto simp: health_def ret_def raise_def split: if_splits
      dest!: need_qm_moves need_int_moves with_access_moves)

lemma authorized_roles:
  assumes "authorize p (read_action entry) = Inr ()"
  shows "set (pr_roles p) \<inter> {lit ''nonprod-read'', lit ''prod-read'', lit ''admin-audit''} \<noteq> {} \<and>
    (qm_environment entry = lit ''prod'' \<longrightarrow> set (pr_roles p) \<inter> {lit ''prod-read'', lit ''admin-audit''} \<noteq> {})"
proof -
  from assms obtain r where "r \<in> set (pr_roles p)"
    "r = lit ''admin-audit'' \<or> r = lit ''prod-read'' \<or> r = lit ''nonprod-read'' \<and> read_action entry = READ_NONPROD"
    by (auto simp: authorize_iff granted_iff)
  then show ?thesis by (auto simp: read_action_def split: if_splits)
qed

text \<open>C1: A call touches a queue manager, on any connector, only when its token is not empty
  and verified, the rate
  limiter admitted its subject, the tool is one of the eight diagnostic ones, its queue manager is in
  the inventory, and the principal holds a role for that queue manager's environment; a production
  queue manager needs \<open>prod-read\<close> or \<open>admin-audit\<close>.\<close>
theorem effects_need_access:
  assumes "dispatch C pe ce token tool params srv s = (r, srv', s')" and "s' \<noteq> s"
  shows "\<exists>p qm entry.
    token \<noteq> [] \<and> fst (verify_token (pe_jose pe) (ce_verify_at ce) token (srv_verifier srv)) = Inr p \<and>
    fst (allow (ce_rate_at ce) (pr_subject p) 1 (srv_rate srv)) \<and>
    tool \<in> set tool_names \<and> map_of params (lit ''qm_name'') = Some (PStr qm) \<and>
    inv_get (srv_inventory srv) qm = Inr entry \<and>
    set (pr_roles p) \<inter> {lit ''nonprod-read'', lit ''prod-read'', lit ''admin-audit''} \<noteq> {} \<and>
    (qm_environment entry = lit ''prod'' \<longrightarrow> set (pr_roles p) \<inter> {lit ''prod-read'', lit ''admin-audit''} \<noteq> {})"
proof -
  obtain a srv1 where at: "attempt_call C pe ce token tool params srv s = (a, srv1, s')"
    using dispatch_parts [OF assms(1)] .
  from at show ?thesis
  proof (cases rule: attempt_cases)
    case unverified
    with assms(2) show ?thesis by simp
  next
    case limited
    with assms(2) show ?thesis by simp
  next
    case (run p v rl q)
    from call_tool_moves [OF run(4) assms(2)] obtain qm entry
      where tool: "tool \<in> set tool_names" "map_of params (lit ''qm_name'') = Some (PStr qm)"
        and entry: "inv_get (srv_inventory srv) qm = Inr entry" "authorize p (read_action entry) = Inr ()"
      by (auto simp: run(3))
    show ?thesis
      using tool entry(1) authorized_roles [OF entry(2)]
        tokens.verified_token [of "pe_jose pe" "ce_verify_at ce" token "srv_verifier srv" p]
      by (intro exI [of _ p] exI [of _ qm] exI [of _ entry]) (simp add: run(1,2))
  qed
qed

text \<open>Every tool that raises for lack of access raises before it touches anything.\<close>

lemma with_access_denied:
  assumes "inv_get (srv_inventory srv) qm = Inr entry" and "\<not> can_read p entry"
  shows "\<exists>m. with_access srv qm p tool s = (Inl (AuthorizationError m), s)"
  using assms authorize_cases [of p "read_action entry"]
  by (auto simp: with_access_def can_read_def bind_act_def lift_res_def)

lemma need_int_cases: "(\<exists>i. need_int name v f s = f i s) \<or> (\<exists>m. need_int name v f s = (Inl (ValueError m), s))"
  by (cases v) (auto simp: need_int_def raise_def intro: exI)

text \<open>Without access every diagnostic tool answers \<open>AuthorizationError\<close> (or \<open>ValueError\<close> when the
  sample size is not an integer) and leaves the connector as it was.\<close>
theorem denied_without_access:
  assumes "tool \<in> set tool_names" and "map_of params (lit ''qm_name'') = Some (PStr qm)"
    and "inv_get (srv_inventory srv) qm = Inr entry" and "\<not> can_read p entry"
  shows "(\<exists>m. call_tool C pe ce srv tool params p s = (Inl (AuthorizationError m), s)) \<or>
    (\<exists>m. call_tool C pe ce srv tool params p s = (Inl (ValueError m), s))"
proof -
  have deny: "\<exists>m. with_access srv qm p t s = (Inl (AuthorizationError m), s)" for t :: "('a, pyval) act"
    using with_access_denied [OF assms(3,4)] .
  have int: "(\<exists>m. need_int name v (\<lambda>i. with_access srv qm p (t i)) s = (Inl (AuthorizationError m), s)) \<or>
      (\<exists>m. need_int name v (\<lambda>i. with_access srv qm p (t i)) s = (Inl (ValueError m), s))"
    for name v and t :: "int \<Rightarrow> ('a, pyval) act"
    using need_int_cases [of name v "\<lambda>i. with_access srv qm p (t i)" s] deny by metis
  show ?thesis
    using assms(1) deny int
    unfolding tool_names_def call_tool_def Let_def handler_defs assms(2)
    by (auto simp: need_qm_def)
qed

section \<open>Responses\<close>

definition returns :: "('a \<Rightarrow> bool) \<Rightarrow> ('s, 'a) act \<Rightarrow> bool" where
  "returns P m \<longleftrightarrow> (\<forall>s x s'. m s = (Inr x, s') \<longrightarrow> P x)"

lemma returns_ret: "P x \<Longrightarrow> returns P (ret x)"
  by (simp add: returns_def ret_def)

lemma returns_raise: "returns P (raise e)"
  by (simp add: returns_def raise_def)

lemma returns_bind: "(\<And>x. returns P (f x)) \<Longrightarrow> returns P (bind_act m f)"
  by (auto simp: returns_def bind_act_def split: prod.splits sum.splits)

lemma returns_finally: "returns P m \<Longrightarrow> returns P (finally_do m f)"
  by (auto simp: returns_def finally_do_def split: prod.splits sum.splits)

lemma returns_case_prod: "(\<And>x y. returns P (f x y)) \<Longrightarrow> returns P (case z of (x, y) \<Rightarrow> f x y)"
  by (cases z) simp

lemmas returns_intros = returns_ret returns_raise returns_bind returns_finally returns_case_prod

definition sanitized :: "pyval \<Rightarrow> bool" where
  "sanitized v \<longleftrightarrow> (\<exists>nfkc w. v = sanitize nfkc w)"

lemma sanitizedI: "sanitized (sanitize nfkc w)"
  by (auto simp: sanitized_def)

lemma sanitized_strings:
  "sanitized v \<Longrightarrow> list_all (\<lambda>s. visible_text s \<and> length s \<le> max_string_len + 12) (strings_of v)"
  by (auto simp: sanitized_def sanitize_def strings_of_sanitize list_all_iff sanitize_str_visible sanitize_str_length)

lemma open_qm_returns: "(\<And>entry fp. returns P (body entry fp)) \<Longrightarrow> returns P (open_qm C sv qm body)"
  unfolding open_qm_def by (intro returns_intros) simp

lemma tools_return_sanitized: "list_all (returns sanitized) (all_tools C rt sv n d qm)"
  unfolding all_tools_def single_tool_defs run_tool_def full_mq_health_check_def
  by (auto intro!: open_qm_returns returns_intros sanitizedI simp: tool_response_def health_response_def)

lemma with_access_returns: "returns P m \<Longrightarrow> returns P (with_access srv qm p m)"
  by (auto simp: with_access_def split: sum.split intro!: returns_intros)

lemma need_returns:
  "(\<And>qm. returns P (f qm)) \<Longrightarrow> returns P (need_qm target f)"
  "(\<And>i. returns P (g i)) \<Longrightarrow> returns P (need_int name v g)"
  by (auto simp: need_qm_def need_int_def split: option.split pyval.split intro!: returns_raise)

lemma call_tool_returns: "returns sanitized (call_tool C pe ce srv tool params p)"
proof -
  have "list_all (returns sanitized) (all_tools C (ce_runtime ce) (services_of pe srv) n (ce_check_ms ce) qm)" for n qm
    by (rule tools_return_sanitized)
  then show ?thesis
    unfolding call_tool_def Let_def handler_defs health_def all_tools_def
    by (auto intro!: need_returns with_access_returns returns_ret returns_raise sanitizedI)
qed

text \<open>C20: Whatever a call returns has been sanitised as a whole: no string of the response holds a
  control, zero-width, directional or tag character, and none is longer than the limit.\<close>
theorem responses_sanitized:
  assumes "dispatch C pe ce token tool params srv s = (Inr v, srv', s')"
  shows "list_all (\<lambda>t. visible_text t \<and> length t \<le> max_string_len + 12) (strings_of v)"
proof -
  obtain a srv1 where at: "attempt_call C pe ce token tool params srv s = (a, srv1, s')"
    and au: "audit_call pe ce tool params a srv1 = (Inr v, srv')" using dispatch_parts [OF assms] .
  from au have v: "at_result a = Inr v"
    by (auto simp: audit_call_def split: sum.splits prod.splits)
  from at have "sanitized v"
  proof (cases rule: attempt_cases)
    case (run p vf rl q)
    with v have "call_tool C pe ce srv1 tool params p s = (Inr v, s')" by simp
    with call_tool_returns [of C pe ce srv1 tool params p] show ?thesis unfolding returns_def by blast
  qed (use v in simp_all)
  then show ?thesis by (rule sanitized_strings)
qed

section \<open>The audit record of a call\<close>


section \<open>Histories of a server\<close>

text \<open>Calls that the server handles one after the other, each with a fresh connector.\<close>

inductive server_step :: "'s connector \<Rightarrow> 's \<Rightarrow> process_env \<Rightarrow> server \<Rightarrow> server \<Rightarrow> bool" for C s0 pe where
  call: "dispatch C pe ce token tool params srv s0 = (r, srv', s') \<Longrightarrow> server_step C s0 pe srv srv'"

inductive_cases server_stepE: "server_step C s0 pe srv srv'"

lemma dispatch_log_ok:
  assumes "dispatch C pe ce token tool params srv s = (r, srv', s')" and "codec_ok (pe_codec pe)"
    and "log_ok (pe_codec pe) (srv_audit srv)"
  shows "log_ok (pe_codec pe) (srv_audit srv')"
proof -
  obtain a srv1 where at: "attempt_call C pe ce token tool params srv s = (a, srv1, s')"
    and au: "audit_call pe ce tool params a srv1 = (r, srv')" using dispatch_parts [OF assms(1)] .
  have log1: "srv_audit srv1 = srv_audit srv" using at by (cases rule: attempt_cases) simp_all
  have step: "log_ok (pe_codec pe) (snd (audit_write (pe_codec pe) ts e (srv_audit srv)))" for ts e
    by (rule audit_write_ok [OF assms(2,3)])
  show ?thesis
    using au assms(3) log1 step [of "ce_timestamp ce"]
    by (auto simp: audit_call_def split: sum.splits prod.splits) (metis snd_conv)+
qed

text \<open>The log of a server that was started on a log that verifies, verifies after any history of
  calls, and a server that is started on it afterwards continues its chain.\<close>
theorem server_log_verifies:
  assumes "codec_ok (pe_codec pe)" and "new_server he st rp = Inr srv0" and "he_codec he = pe_codec pe"
    and "he_audit_file he (au_log_path (st_audit st)) = None"
    and "(server_step C s0 pe)\<^sup>*\<^sup>* srv0 srv"
  shows "verify_chain (pe_codec pe) (al_file (srv_audit srv)) = Inr () \<and>
    open_log (pe_codec pe) (al_file (srv_audit srv)) = Inr (srv_audit srv)"
proof -
  have "srv_audit srv0 = empty_log"
    using assms(2-4) by (auto simp: new_server_def open_log_def load_last_hash_def empty_log_def)
  then have start: "log_ok (pe_codec pe) (srv_audit srv0)" by (simp add: log_ok_empty)
  from assms(5) have "log_ok (pe_codec pe) (srv_audit srv)"
    by (induction rule: rtranclp_induct) (auto intro: start dispatch_log_ok [OF _ assms(1)] elim!: server_stepE)
  then show ?thesis
    by (simp add: log_ok_verifies) (simp add: open_log_def log_ok_def)
qed

section \<open>The rate limit over a history\<close>

record call =
  cl_env :: call_env
  cl_token :: pystr
  cl_tool :: pystr
  cl_params :: dict

definition rate_time :: "call \<Rightarrow> rat" where
  "rate_time c = ce_rate_at (cl_env c)"

text \<open>The subject that a call ran for: verified, and not refused by the rate limiter.\<close>

definition served_subject :: "'s connector \<Rightarrow> 's \<Rightarrow> process_env \<Rightarrow> call \<Rightarrow> server \<Rightarrow> pystr option" where
  "served_subject C s0 pe c srv =
     (case attempt_call C pe (cl_env c) (cl_token c) (cl_tool c) (cl_params c) srv s0 of
        (a, _, _) \<Rightarrow> if at_outcome a = lit ''denied'' then None else map_option pr_subject (at_principal a))"

fun run_calls ::
  "'s connector \<Rightarrow> 's \<Rightarrow> process_env \<Rightarrow> call list \<Rightarrow> server \<Rightarrow> pystr option list \<times> server" where
  "run_calls C s0 pe [] srv = ([], srv)"
| "run_calls C s0 pe (c # cs) srv =
     (case dispatch C pe (cl_env c) (cl_token c) (cl_tool c) (cl_params c) srv s0 of
        (_, srv', _) \<Rightarrow>
          (case run_calls C s0 pe cs srv' of
             (subjects, srv'') \<Rightarrow> (served_subject C s0 pe c srv # subjects, srv'')))"

definition times_served :: "pystr \<Rightarrow> pystr option list \<Rightarrow> nat" where
  "times_served subject subjects = length (filter (\<lambda>x. x = Some subject) subjects)"

lemma dispatch_rate:
  assumes "dispatch C pe (cl_env c) (cl_token c) (cl_tool c) (cl_params c) srv s0 = (r, srv', s')"
  shows "served_subject C s0 pe c srv = None \<and> srv_rate srv' = srv_rate srv \<or>
    (\<exists>subject ok. allow (rate_time c) subject 1 (srv_rate srv) = (ok, srv_rate srv') \<and>
       served_subject C s0 pe c srv = (if ok then Some subject else None))"
proof -
  obtain a srv1 where at: "attempt_call C pe (cl_env c) (cl_token c) (cl_tool c) (cl_params c) srv s0 = (a, srv1, s')"
    and au: "audit_call pe (cl_env c) (cl_tool c) (cl_params c) a srv1 = (r, srv')" using dispatch_parts [OF assms] .
  have rate: "srv_rate srv' = srv_rate srv1" using audit_call_server [OF au] by auto
  have lits: "lit ''error'' \<noteq> lit ''denied''" "lit ''ok'' \<noteq> lit ''denied''" by (simp_all add: lit_def)
  from at show ?thesis
  proof (cases rule: attempt_cases)
    case unverified
    with at rate show ?thesis by (simp add: served_subject_def)
  next
    case (limited p v rl)
    with at rate show ?thesis by (auto simp: served_subject_def rate_time_def)
  next
    case (run p v rl q)
    with at rate lits show ?thesis by (auto simp: served_subject_def rate_time_def)
  qed
qed

text \<open>The history of the limiter: the calls that were verified, in their order.\<close>

lemma run_calls_limiter:
  assumes "sorted (map rate_time cs)"
  shows "\<exists>calls. sorted (map fst calls) \<and> fst ` set calls \<subseteq> rate_time ` set cs \<and>
    (\<forall>subject. times_served subject (fst (run_calls C s0 pe cs srv)) =
       admitted subject calls (fst (allow_all calls (srv_rate srv))))"
  using assms
proof (induction cs arbitrary: srv)
  case Nil
  show ?case by (rule exI [of _ "[]"]) (simp add: times_served_def admitted_def)
next
  case (Cons c cs)
  obtain r srv' s' where d: "dispatch C pe (cl_env c) (cl_token c) (cl_tool c) (cl_params c) srv s0 = (r, srv', s')"
    by (rule prod_cases3)
  from Cons obtain calls where calls: "sorted (map fst calls)" "fst ` set calls \<subseteq> rate_time ` set cs"
    "\<And>subject. times_served subject (fst (run_calls C s0 pe cs srv')) =
       admitted subject calls (fst (allow_all calls (srv_rate srv')))" by force
  have tail: "fst (run_calls C s0 pe (c # cs) srv) = served_subject C s0 pe c srv # fst (run_calls C s0 pe cs srv')"
    by (simp add: d case_prod_beta)
  from dispatch_rate [OF d] show ?case
  proof (elim disjE exE conjE)
    assume "served_subject C s0 pe c srv = None" "srv_rate srv' = srv_rate srv"
    with calls tail show ?thesis
      by (intro exI [of _ calls]) (auto simp: times_served_def)
  next
    fix subject ok
    assume al: "allow (rate_time c) subject 1 (srv_rate srv) = (ok, srv_rate srv')"
      and sv: "served_subject C s0 pe c srv = (if ok then Some subject else None)"
    have "sorted (map fst ((rate_time c, subject) # calls))"
      using calls(1,2) Cons.prems by (auto simp: image_subset_iff)
    moreover have "times_served x (fst (run_calls C s0 pe (c # cs) srv)) =
        admitted x ((rate_time c, subject) # calls) (fst (allow_all ((rate_time c, subject) # calls) (srv_rate srv)))" for x
      using calls(3) [of x] sv unfolding tail
      by (auto simp: al times_served_def admitted_Cons case_prod_beta)
    ultimately show ?thesis
      using calls(2) by (intro exI [of _ "(rate_time c, subject) # calls"]) auto
  qed
qed

text \<open>The limit holds for the server as a whole: over any history of a fresh server with clock
  readings in a window, whatever tokens, tools and parameters are sent, at most the configured burst
  plus the configured rate times the length of the window is served to a subject.\<close>
theorem server_rate_bound:
  assumes "new_server he st rp = Inr srv0"
    and "sorted (map rate_time cs)" and "list_all (\<lambda>c. start \<le> rate_time c \<and> rate_time c \<le> finish) cs"
    and "start \<le> finish"
  shows "of_nat (times_served subject (fst (run_calls C s0 pe cs srv0))) \<le>
    of_nat (sc_rate_limit_per_minute (st_security st)) * (1 + (finish - start) / 60 :: rat)"
proof -
  let ?n = "sc_rate_limit_per_minute (st_security st)"
  let ?rl = "new_rate_limiter ?n ?n"
  have rl: "srv_rate srv0 = ?rl" using assms(1) by (auto simp: new_server_def)
  obtain calls where calls: "sorted (map fst calls)" "fst ` set calls \<subseteq> rate_time ` set cs"
    "times_served subject (fst (run_calls C s0 pe cs srv0)) = admitted subject calls (fst (allow_all calls ?rl))"
    using run_calls_limiter [OF assms(2), of C s0 pe srv0] rl by auto
  have "list_all (\<lambda>c. start \<le> fst c \<and> fst c \<le> finish) calls"
    using calls(2) assms(3) by (fastforce simp: list_all_iff)
  moreover have "buckets_ok ?rl" "refilled_before start ?rl"
    by (simp_all add: buckets_ok_def refilled_before_def new_rate_limiter_def)
  ultimately have "of_nat (admitted subject calls (fst (allow_all calls ?rl))) \<le>
      tokens_at ?rl start subject + (finish - start) * refill_rate ?rl"
    using admitted_potential calls(1) assms(4) by blast
  also have "\<dots> = of_nat ?n * (1 + (finish - start) / 60)"
    by (simp add: tokens_at_def refilled_def bucket_of_def new_rate_limiter_def refill_rate_def field_simps)
  finally show ?thesis by (simp add: calls(3))
qed

section \<open>Read-only and health\<close>

lemma can_read_iff: "can_read p e \<longleftrightarrow> authorize p (read_action e) = Inr ()"
  by (auto simp: can_read_def split: sum.split)

lemma grows_with_access [trace_intros]: "grows tr m \<Longrightarrow> grows tr (with_access srv qm p m)"
  by (auto simp: with_access_def split: sum.split intro!: trace_intros)

lemma grows_need [trace_intros]:
  "(\<And>qm. grows tr (f qm)) \<Longrightarrow> grows tr (need_qm target f)"
  "(\<And>i. grows tr (g i)) \<Longrightarrow> grows tr (need_int name v g)"
  by (auto simp: need_qm_def need_int_def split: option.split pyval.split intro!: trace_intros)

context mq_connector
begin

lemma call_tool_grows: "grows tr (call_tool C pe ce srv tool params p)"
proof -
  have "list_all (grows tr) (all_tools C (ce_runtime ce) (services_of pe srv) n (ce_check_ms ce) qm)" for n qm
    by (rule all_tools_grow)
  then show ?thesis
    unfolding call_tool_def Let_def handler_defs health_def all_tools_def
    by (auto intro!: trace_intros)
qed

lemma dispatch_allowed:
  assumes "dispatch C pe ce token tool params srv s = (r, srv', s')"
  shows "\<exists>es. tr s' = tr s @ es \<and> ok_trace es"
proof -
  obtain a srv1 where at: "attempt_call C pe ce token tool params srv s = (a, srv1, s')"
    using dispatch_parts [OF assms] .
  then show ?thesis
  proof (cases rule: attempt_cases)
    case (run p v rl q)
    from growsD [OF call_tool_grows, of pe ce srv1 tool params p s] run(4) show ?thesis by simp
  qed simp_all
qed

end

text \<open>C2: The server is read-only end to end: whatever token, tool name and parameters a client sends,
  in whatever state the server is, a dispatch only runs commands that pass the allowlist, on the
  live connector and on the fixtures.\<close>
theorem server_read_only:
  "(\<exists>es. px_trace (snd (snd (dispatch (pymqi_connector env) pe ce token tool params srv s))) = px_trace s @ es \<and>
      ok_trace es) \<and>
   (\<exists>es. fx_trace (snd (snd (dispatch (fixture_connector ff) pe ce token tool params srv f))) = fx_trace f @ es \<and>
      ok_trace es)"
  using pymqi.dispatch_allowed [of env pe ce token tool params srv s]
    fixture.dispatch_allowed [of ff pe ce token tool params srv f]
  by (metis prod.collapse)

text \<open>C21: \<open>health\<close> lists exactly the queue managers that the caller may diagnose: a name is listed when,
  and only when, the access check of every diagnostic tool lets the caller through for it.\<close>
theorem health_lists_readable:
  assumes "srv_inventory srv = InMemoryInventory es"
  shows "pv_get (PDict (health_report srv p)) (lit ''queue_managers'') =
      Some (PList (map listed_manager (filter (can_read p) (inv_list_all (srv_inventory srv))))) \<and>
    (name \<in> qm_name ` set (filter (can_read p) (inv_list_all (srv_inventory srv))) \<longleftrightarrow>
      (\<forall>tool s. with_access srv name p tool s = (tool :: ('s, 'a) act) s))"
proof
  show "pv_get (PDict (health_report srv p)) (lit ''queue_managers'') =
      Some (PList (map listed_manager (filter (can_read p) (inv_list_all (srv_inventory srv)))))"
    by (simp add: health_report_def)
next
  let ?m = "map_of (inv_entries (srv_inventory srv))"
  have get: "inv_get (srv_inventory srv) name = Inr e \<longleftrightarrow> ?m name = Some e" for e
    by (simp add: inv_get_def split: option.split)
  have "inv_wf (srv_inventory srv)" by (simp add: assms)
  from memory.selected_names [OF this, of name]
  have "name \<in> qm_name ` set (filter (can_read p) (inv_list_all (srv_inventory srv))) \<longleftrightarrow>
      (\<exists>e. ?m name = Some e \<and> can_read p e)"
    unfolding get .
  also have "\<dots> \<longleftrightarrow> (\<forall>tool s. with_access srv name p tool s = (tool :: ('s, 'a) act) s)"
  proof
    assume "\<exists>e. ?m name = Some e \<and> can_read p e"
    then obtain e where "inv_get (srv_inventory srv) name = Inr e" "authorize p (read_action e) = Inr ()"
      by (auto simp: inv_get_def can_read_iff)
    then show "\<forall>tool s. with_access srv name p tool s = (tool :: ('s, 'a) act) s"
      by (simp add: with_access_def bind_act_def lift_res_def)
  next
    assume all: "\<forall>tool s. with_access srv name p tool s = (tool :: ('s, 'a) act) s"
    then have key: "with_access srv name p (raise (KeyError []) :: ('s, 'a) act) s = (Inl (KeyError []), s)" for s
      by (simp add: raise_def)
    show "\<exists>e. ?m name = Some e \<and> can_read p e"
    proof (cases "?m name")
      case None
      have "with_access srv name p (raise (KeyError []) :: ('s, 'a) act) s \<noteq> (Inl (KeyError []), s)" for s
        using None authorize_cases [of p READ_NONPROD]
        by (auto simp: with_access_def inv_get_def bind_act_def lift_res_def raise_def)
      with key show ?thesis by metis
    next
      case (Some e)
      have "with_access srv name p (raise (KeyError []) :: ('s, 'a) act) s \<noteq> (Inl (KeyError []), s)"
        if "\<not> can_read p e" for s
        using with_access_denied [OF _ that, of srv name "raise (KeyError []) :: ('s, 'a) act" s] Some
        by (auto simp: inv_get_def)
      with key Some show ?thesis by metis
    qed
  qed
  finally show "name \<in> qm_name ` set (filter (can_read p) (inv_list_all (srv_inventory srv))) \<longleftrightarrow>
      (\<forall>tool s. with_access srv name p tool s = (tool :: ('s, 'a) act) s)" .
qed

section \<open>Concrete calls\<close>

context mq_connector
begin

lemma run_tool_connects:
  assumes "inv_get (sv_inventory sv) qm = Inr entry" and "sv_resolve sv (secret_ref entry) = Inr credential"
    and "op_connect C entry credential s = (Inr (), s1)" and "\<And>fp reg. grows tr (checks fp reg)"
  shows "\<exists>es. tr (snd (run_tool C rt sv tool qm checks s)) = tr s1 @ es"
proof -
  let ?body = "\<lambda>(_ :: qm_entry) fp. bind_act (checks fp (registry_of sv)) (\<lambda>res. ret (tool_response rt tool qm fp res))"
  have "run_tool C rt sv tool qm checks s = finally_do (bind_act (detect C) (?body entry)) (op_disconnect C) s1"
    using assms(1-3) by (simp add: run_tool_def open_qm_def bind_act_def lift_res_def)
  moreover have g: "grows tr (finally_do (bind_act (detect C) (?body entry)) (op_disconnect C))"
    by (intro trace_intros disconnect_trace detect_grows assms(4))
  moreover have "\<exists>es. tr (snd (finally_do (bind_act (detect C) (?body entry)) (op_disconnect C) s1)) = tr s1 @ es"
    using growsD [OF g, of s1] by blast
  ultimately show ?thesis by (simp only:)
qed

end

definition sample_process :: process_env where
  "sample_process = \<lparr> pe_fs = sample_fs, pe_jose = sample_jose, pe_codec = sample_codec \<rparr>"

definition sample_call_env :: call_env where
  "sample_call_env =
     \<lparr> ce_runtime = sample_runtime, ce_started = 5, ce_verify_at = 5, ce_rate_at = 5, ce_finished = 5,
       ce_check_ms = 0, ce_timestamp = [] \<rparr>"

abbreviation sample_dispatch :: "pystr \<Rightarrow> dict \<Rightarrow> (exn + pyval) \<times> server \<times> pymqi_state" where
  "sample_dispatch tool params \<equiv>
     dispatch (pymqi_connector (sample_env [])) sample_process sample_call_env (lit ''good'') tool params prod_server
       pymqi_init"

definition qm_params :: dict where
  "qm_params = [(lit ''qm_name'', PStr (lit ''QM1''))]"

lemma sample_verified:
  "\<exists>v. verify_token (pe_jose sample_process) (ce_verify_at sample_call_env) (lit ''good'') (srv_verifier prod_server) =
     (Inr alice, v)"
  using sample_verify
  by (auto simp: verify_token_def sample_process_def sample_call_env_def prod_server_def split: prod.split)

lemma sample_allowed: "fst (allow t key 1 (srv_rate prod_server))"
  by (simp add: allow_def prod_server_def new_rate_limiter_def refilled_def bucket_of_def Let_def refill_rate_def)

lemma sample_attempt:
  assumes "attempt_call (pymqi_connector (sample_env [])) sample_process sample_call_env (lit ''good'') tool params
      prod_server pymqi_init = (a, srv', s')"
  obtains v rl r where "srv' = prod_server\<lparr> srv_verifier := v, srv_rate := rl \<rparr>"
    "call_tool (pymqi_connector (sample_env [])) sample_process sample_call_env srv' tool params alice pymqi_init = (r, s')"
    "a = \<lparr> at_principal = Some alice, at_outcome = (if is_ok r then lit ''ok'' else lit ''error''), at_result = r \<rparr>"
proof -
  obtain v where v: "verify_token (pe_jose sample_process) (ce_verify_at sample_call_env) (lit ''good'')
      (srv_verifier prod_server) = (Inr alice, v)" using sample_verified ..
  from assms show thesis
  proof (cases rule: attempt_cases)
    case unverified
    with v show ?thesis by simp
  next
    case (limited p v' rl)
    with sample_allowed [of "ce_rate_at sample_call_env" "pr_subject p"] show ?thesis by simp
  next
    case (run p v' rl r)
    from run(1) v have "p = alice" by simp
    with run that show ?thesis by blast
  qed
qed

lemma sample_access:
  "inv_get (srv_inventory prod_server) (lit ''QM1'') = Inr sample_entry"
  "\<exists>cred. resolve_with (pe_fs sample_process) (srv_secrets prod_server) (secret_ref sample_entry) = Inr cred"
  "can_read alice sample_entry"
proof -
  show "inv_get (srv_inventory prod_server) (lit ''QM1'') = Inr sample_entry"
    using sample_services_facts(1) by (simp add: sample_services_def prod_server_def)
  show "\<exists>cred. resolve_with (pe_fs sample_process) (srv_secrets prod_server) (secret_ref sample_entry) = Inr cred"
    by (simp add: resolve_with_def prod_server_def sample_process_def sample_entry_def sample_fs_def
        resolve_secret_def check_permissions_def read_required_def path_join_def prefix_def) (simp add: lit_def)
  show "can_read alice sample_entry"
    by (simp add: can_read_iff authorize_iff granted_iff alice_def read_action_def sample_entry_def)
qed

lemma sample_effects:
  assumes "map_of params (lit ''qm_name'') = Some (PStr (lit ''QM1''))"
  shows "px_trace (snd (snd (sample_dispatch (lit ''diagnose_failed_channels'') params))) \<noteq> []"
proof -
  let ?C = "pymqi_connector (sample_env [])"
  obtain cred where cred: "resolve_with (pe_fs sample_process) (srv_secrets prod_server) (secret_ref sample_entry) = Inr cred"
    using sample_access(2) ..
  have conn: "op_connect ?C sample_entry cred pymqi_init = (Inr (), sample_live)"
    by (simp add: pymqi_connector_def pymqi_connect_def sample_env_def pymqi_init_def sample_live_def Let_def)
  obtain r srv' s' where d: "sample_dispatch (lit ''diagnose_failed_channels'') params = (r, srv', s')"
    by (rule prod_cases3)
  then obtain a srv1 where "attempt_call ?C sample_process sample_call_env
      (lit ''good'') (lit ''diagnose_failed_channels'') params prod_server pymqi_init = (a, srv1, s')"
    by (rule dispatch_parts)
  then obtain v rl q where srv1: "srv1 = prod_server\<lparr> srv_verifier := v, srv_rate := rl \<rparr>"
    and q: "call_tool ?C sample_process sample_call_env srv1 (lit ''diagnose_failed_channels'') params alice pymqi_init = (q, s')"
    by (rule sample_attempt)
  have call: "call_tool ?C sample_process sample_call_env srv1 (lit ''diagnose_failed_channels'') params alice pymqi_init =
      diagnose_failed_channels ?C sample_runtime (services_of sample_process srv1) (lit ''QM1'') pymqi_init"
    using assms sample_access(1,3)
    by (simp add: call_tool_def need_qm_def srv_diagnose_channels_def with_access_def can_read_iff bind_act_def
        lift_res_def sample_call_env_def srv1)
  have "inv_get (sv_inventory (services_of sample_process srv1)) (lit ''QM1'') = Inr sample_entry"
    "sv_resolve (services_of sample_process srv1) (secret_ref sample_entry) = Inr cred"
    using sample_access(1) cred by (simp_all add: services_of_def srv1)
  from pymqi.run_tool_connects [OF this conn pymqi.run_checks_grow(1)]
  have "\<exists>es. px_trace (snd (call_tool ?C sample_process sample_call_env srv1 (lit ''diagnose_failed_channels'')
      params alice pymqi_init)) = px_trace sample_live @ es"
    unfolding call diagnose_failed_channels_def .
  then have "\<exists>es. px_trace s' = px_trace sample_live @ es"
    unfolding q by simp
  then show ?thesis by (auto simp: d sample_live_def)
qed

text \<open>A parameter beyond 64 bits makes the audit of a call fail: the queue manager was
  connected to, and no record was written.\<close>

lemma oversized_number_hides_call:
  "\<exists>r srv' s'. sample_dispatch (lit ''diagnose_failed_channels'') (qm_params @ [(lit ''x'', PInt (2 ^ 64))]) = (r, srv', s') \<and>
     px_trace s' \<noteq> [] \<and> srv_audit srv' = srv_audit prod_server \<and> r = Inl not_printable"
proof -
  let ?params = "qm_params @ [(lit ''x'', PInt (2 ^ 64))]"
  obtain r srv' s' where d: "sample_dispatch (lit ''diagnose_failed_channels'') ?params = (r, srv', s')"
    by (rule prod_cases3)
  then obtain a srv1 where at: "attempt_call (pymqi_connector (sample_env [])) sample_process sample_call_env
      (lit ''good'') (lit ''diagnose_failed_channels'') ?params prod_server pymqi_init = (a, srv1, s')"
    and au: "audit_call sample_process sample_call_env (lit ''diagnose_failed_channels'') ?params a srv1 = (r, srv')"
    by (rule dispatch_parts)
  have "\<not> cd_printable sample_codec ?params"
    by (simp add: sample_codec_def fits_64_bits_def qm_params_def)
  with au have "r = Inl not_printable" "srv' = srv1"
    by (simp_all add: audit_call_def hash_params_def sample_process_def)
  moreover have "srv_audit srv1 = srv_audit prod_server"
    using at by (cases rule: attempt_cases) simp_all
  moreover have "px_trace s' \<noteq> []"
    using sample_effects [of ?params] d by (simp add: qm_params_def)
  ultimately show ?thesis using d by simp
qed

lemma effects_need_access_witness:
  "\<exists>p. fst (verify_token (pe_jose sample_process) (ce_verify_at sample_call_env) (lit ''good'')
       (srv_verifier prod_server)) = Inr p \<and>
     set (pr_roles p) \<inter> {lit ''nonprod-read'', lit ''prod-read'', lit ''admin-audit''} \<noteq> {}"
proof -
  obtain r srv' s' where d: "sample_dispatch (lit ''diagnose_failed_channels'') qm_params = (r, srv', s')"
    by (rule prod_cases3)
  have "px_trace s' \<noteq> []" using sample_effects [of qm_params] d by (simp add: qm_params_def)
  then have "s' \<noteq> pymqi_init" by (auto simp: pymqi_init_def)
  from effects_need_access [OF d this] show ?thesis by blast
qed

definition visitor :: principal where
  "visitor = \<lparr> pr_subject = lit ''visitor'', pr_tenant = None, pr_roles = [], pr_claims = [] \<rparr>"

lemma denied_without_access_witness:
  "\<not> is_ok (fst (call_tool (pymqi_connector (sample_env [])) sample_process sample_call_env prod_server
     (lit ''check_cluster_health'') qm_params visitor pymqi_init))"
proof -
  have "\<not> can_read visitor sample_entry"
    by (simp add: can_read_iff authorize_iff granted_iff visitor_def)
  moreover have "lit ''check_cluster_health'' \<in> set tool_names" by (simp add: tool_names_def)
  moreover have "map_of qm_params (lit ''qm_name'') = Some (PStr (lit ''QM1''))" by (simp add: qm_params_def)
  ultimately show ?thesis
    using denied_without_access [where tool = "lit ''check_cluster_health''" and params = qm_params
        and srv = prod_server and p = visitor and C = "pymqi_connector (sample_env [])" and pe = sample_process
        and ce = sample_call_env and s = pymqi_init, OF _ _ sample_access(1)] by fastforce
qed

lemma sample_health: "\<exists>v srv' s'. sample_dispatch (lit ''health'') [] = (Inr v, srv', s')"
proof -
  obtain r srv' s' where d: "sample_dispatch (lit ''health'') [] = (r, srv', s')"
    by (rule prod_cases3)
  then obtain a srv1 where at: "attempt_call (pymqi_connector (sample_env [])) sample_process sample_call_env
      (lit ''good'') (lit ''health'') [] prod_server pymqi_init = (a, srv1, s')"
    and au: "audit_call sample_process sample_call_env (lit ''health'') [] a srv1 = (r, srv')"
    by (rule dispatch_parts)
  from at obtain v where v: "at_result a = Inr v"
    by (rule sample_attempt) (auto simp: call_tool_def health_def ret_def)
  have fits: "fits_64_bits (of_opt_str x)" "fits_64_bits (PStr t)" "fits_64_bits (PInt 0)" for x t
    by (cases x) (simp_all add: fits_64_bits_def)
  have "cd_printable sample_codec (event_fields ts (audit_event_of sample_call_env tool ps h a) @ [(k, PStr p)])" for ts tool ps h k p
    using fits by (simp add: sample_codec_def event_fields_def audit_event_of_def sample_call_env_def)
  then have w: "\<exists>x lg. audit_write sample_codec ts (audit_event_of sample_call_env tool ps h a) old = (Inr x, lg)"
    for ts tool ps h old by (simp add: audit_write_def write_record_def Let_def)
  let ?h = "cd_sha256 sample_codec (cd_sorted sample_codec [])"
  have h: "hash_params (pe_codec sample_process) [] = Inr ?h"
    by (simp add: hash_params_def sample_process_def) (simp add: sample_codec_def)
  obtain x lg where "audit_write (pe_codec sample_process) (ce_timestamp sample_call_env)
      (audit_event_of sample_call_env (lit ''health'') [] ?h a) (srv_audit srv1) = (Inr x, lg)"
    using w [of "ce_timestamp sample_call_env" "lit ''health''" "[]" ?h "srv_audit srv1"]
    by (auto simp: sample_process_def)
  with v au h have "r = Inr v"
    by (simp add: audit_call_def)
  with d show ?thesis by blast
qed

lemma responses_sanitized_witness:
  "\<exists>v srv' s'. sample_dispatch (lit ''health'') [] = (Inr v, srv', s') \<and>
     list_all (\<lambda>t. visible_text t \<and> length t \<le> max_string_len + 12) (strings_of v)"
proof -
  obtain v srv' s' where d: "sample_dispatch (lit ''health'') [] = (Inr v, srv', s')" using sample_health by blast
  from responses_sanitized [OF d] d show ?thesis by blast
qed


lemma server_log_verifies_witness:
  "\<exists>srv :: server. srv_audit srv \<noteq> srv_audit prod_server \<and> verify_chain sample_codec (al_file (srv_audit srv)) = Inr ()"
proof -
  obtain v srv' s' where d: "sample_dispatch (lit ''health'') [] = (Inr v, srv', s')" using sample_health by blast
  then have "server_step (pymqi_connector (sample_env [])) pymqi_init sample_process prod_server srv'"
    by (rule server_step.call)
  then have steps: "(server_step (pymqi_connector (sample_env [])) pymqi_init sample_process)\<^sup>*\<^sup>* prod_server srv'" ..
  have cd: "codec_ok (pe_codec sample_process)" "he_codec sample_host = pe_codec sample_process"
    "he_audit_file sample_host path = None" for path
    by (simp_all add: sample_process_def sample_host_def sample_codec_ok)
  from server_log_verifies [OF cd(1) prod_server_new cd(2) cd(3) steps]
  have "verify_chain sample_codec (al_file (srv_audit srv')) = Inr ()" by (simp add: sample_process_def)
  moreover have "srv_audit srv' \<noteq> srv_audit prod_server"
  proof -
    obtain a srv1 where "attempt_call (pymqi_connector (sample_env [])) sample_process sample_call_env
        (lit ''good'') (lit ''health'') [] prod_server pymqi_init = (a, srv1, s')"
      and au: "audit_call sample_process sample_call_env (lit ''health'') [] a srv1 = (Inr v, srv')"
      using d by (rule dispatch_parts)
    from au have "al_file (srv_audit srv') \<noteq> None"
      by (auto simp: audit_call_def audit_write_def write_record_def Let_def split: sum.splits prod.splits if_splits)
    then show ?thesis by (auto simp: prod_server_def empty_log_def)
  qed
  ultimately show ?thesis by blast
qed

definition sample_call :: call where
  "sample_call = \<lparr> cl_env = sample_call_env, cl_token = lit ''good'', cl_tool = lit ''health'', cl_params = [] \<rparr>"

lemma server_rate_bound_witness:
  "of_nat (times_served (lit ''alice'') (fst (run_calls (pymqi_connector (sample_env [])) pymqi_init sample_process
     [sample_call, sample_call] prod_server))) \<le> (60 :: rat) * (1 + (5 - 5) / 60)"
proof -
  have "sorted (map rate_time [sample_call, sample_call])"
    "list_all (\<lambda>c. 5 \<le> rate_time c \<and> rate_time c \<le> 5) [sample_call, sample_call]"
    by (simp_all add: rate_time_def sample_call_def sample_call_env_def)
  from server_rate_bound [OF prod_server_new this]
  show ?thesis by (simp add: prod_settings_def default_settings_def)
qed

lemma health_lists_readable_witness:
  "lit ''QM1'' \<in> qm_name ` set (filter (can_read alice) (inv_list_all (srv_inventory prod_server)))"
proof -
  have inv: "srv_inventory prod_server = InMemoryInventory [sample_entry]" by (simp add: prod_server_def)
  have "with_access prod_server (lit ''QM1'') alice tool s = (tool :: (unit, unit) act) s" for tool s
    using sample_access(1,3) by (simp add: with_access_def can_read_iff bind_act_def lift_res_def)
  with health_lists_readable [OF inv, of alice "lit ''QM1''", where 's = unit and 'a = unit] show ?thesis by blast
qed

end
