(* ===== verification/Http.thy ===== *)
theory Http
  imports Server
begin

text \<open>
  The transports: the tool functions of \<open>build_mcp\<close> in \<open>server.py\<close>, and \<open>http_app.py\<close> with its
  tool endpoint, the bearer gate in front of the MCP endpoint, and what the application factory
  decides. Starlette and the MCP SDK are the arguments of these functions: a request is its headers
  and its decoded body.
\<close>

section \<open>The MCP tools\<close>

text \<open>One constructor per registered tool function, with the arguments that the SDK has checked.\<close>

datatype mcp_request =
    McpHealth
  | McpChannels pystr
  | McpDlq pystr int
  | McpCluster pystr
  | McpFullCheck pystr int
  | McpNativeHA pystr
  | McpRdqm pystr
  | McpZos pystr
  | McpMiqm pystr

definition qm_param :: "pystr \<Rightarrow> dict" where
  "qm_param qm = [(lit ''qm_name'', PStr qm)]"

fun mcp_call_of :: "mcp_request \<Rightarrow> pystr \<times> dict" where
  "mcp_call_of McpHealth = (lit ''health'', [])"
| "mcp_call_of (McpChannels qm) = (lit ''diagnose_failed_channels'', qm_param qm)"
| "mcp_call_of (McpDlq qm n) =
     (lit ''analyze_dlq_and_suggest_reprocessing'', qm_param qm @ [(lit ''sample_size'', PInt n)])"
| "mcp_call_of (McpCluster qm) = (lit ''check_cluster_health'', qm_param qm)"
| "mcp_call_of (McpFullCheck qm n) =
     (lit ''full_mq_health_check'', qm_param qm @ [(lit ''dlq_sample_size'', PInt n)])"
| "mcp_call_of (McpNativeHA qm) = (lit ''diagnose_native_ha_issues'', qm_param qm)"
| "mcp_call_of (McpRdqm qm) = (lit ''diagnose_rdqm_issues'', qm_param qm)"
| "mcp_call_of (McpZos qm) = (lit ''diagnose_zos_qsg_issues'', qm_param qm)"
| "mcp_call_of (McpMiqm qm) = (lit ''diagnose_multi_instance_issues'', qm_param qm)"

text \<open>\<open>parse_bearer(header) or default_token\<close>.\<close>

definition caller_token :: "pystr option \<Rightarrow> pystr option \<Rightarrow> pystr option" where
  "caller_token default_token header =
     (case parse_bearer header of Some t \<Rightarrow> Some t | None \<Rightarrow> if given default_token then default_token else None)"

definition mcp_call ::
  "'s connector \<Rightarrow> process_env \<Rightarrow> call_env \<Rightarrow> pystr option \<Rightarrow> pystr option \<Rightarrow> mcp_request \<Rightarrow> server \<Rightarrow> 's \<Rightarrow>
     (exn + pyval) \<times> server \<times> 's" where
  "mcp_call C pe ce default_token header request srv s =
     (case caller_token default_token header of
        None \<Rightarrow> (Inl (PermissionError (lit ''missing bearer token'')), srv, s)
      | Some token \<Rightarrow> (case mcp_call_of request of (tool, params) \<Rightarrow> dispatch C pe ce token tool params srv s))"

section \<open>The tool endpoint\<close>

record http_request =
  hr_content_length :: "pystr option"
  hr_authorization :: "pystr option"
  hr_json :: "pyval option"

record http_response =
  hs_status :: nat
  hs_body :: pyval
  hs_authenticate :: "pystr option"

definition max_body_bytes :: int where
  "max_body_bytes = 64 * 1024"

definition error_response :: "nat \<Rightarrow> pystr \<Rightarrow> http_response" where
  "error_response status name =
     \<lparr> hs_status = status, hs_body = PDict [(lit ''error'', PStr name)], hs_authenticate = None \<rparr>"

definition detail_response :: "nat \<Rightarrow> pystr \<Rightarrow> exn \<Rightarrow> http_response" where
  "detail_response status name e =
     \<lparr> hs_status = status, hs_body = PDict [(lit ''error'', PStr name), (lit ''detail'', PStr (exn_message e))],
       hs_authenticate = None \<rparr>"

text \<open>The \<open>except\<close> clauses in their order, with the label of the counter.\<close>

definition error_mapping :: "exn \<Rightarrow> pystr \<times> http_response" where
  "error_mapping e =
     (case e of
        TokenVerificationError _ \<Rightarrow> (lit ''unauthorized'', error_response 401 (lit ''unauthorized''))
      | AuthorizationError _ \<Rightarrow> (lit ''forbidden'', error_response 403 (lit ''forbidden''))
      | _ \<Rightarrow>
          if is_lookup_error e then (lit ''not_found'', error_response 404 (lit ''not_found''))
          else if is_permission_error e then (lit ''rate_limited'', detail_response 429 (lit ''rate_limited'') e)
          else (case e of
                  ValueError _ \<Rightarrow> (lit ''bad_request'', detail_response 400 (lit ''bad_request'') e)
                | _ \<Rightarrow> (lit ''error'', error_response 500 (lit ''internal_error''))))"

text \<open>Refusals before the dispatcher is reached, or the call that it is asked for.\<close>

definition size_refusal :: "http_request \<Rightarrow> http_response option" where
  "size_refusal req =
     (case hr_content_length req of
        None \<Rightarrow> None
      | Some cl \<Rightarrow>
          (case parse_int cl of
             None \<Rightarrow> Some (error_response 400 (lit ''invalid_content_length''))
           | Some n \<Rightarrow> if n > max_body_bytes then Some (error_response 413 (lit ''request_too_large'')) else None))"

definition read_call :: "http_request \<Rightarrow> http_response + pystr \<times> pystr \<times> dict" where
  "read_call req =
     (case size_refusal req of
        Some refusal \<Rightarrow> Inl refusal
      | None \<Rightarrow>
          (case parse_bearer (hr_authorization req) of
             None \<Rightarrow> Inl ((error_response 401 (lit ''missing_bearer_token''))
                            \<lparr> hs_authenticate := Some (lit ''Bearer realm='' @ dquote @ lit ''mq-sentinel'' @ dquote) \<rparr>)
           | Some token \<Rightarrow>
               (case hr_json req of
                  None \<Rightarrow> Inl (error_response 400 (lit ''invalid_json''))
                | Some (PDict body) \<Rightarrow>
                    (case map_of body (lit ''tool'') of
                       Some (PStr (c # cs)) \<Rightarrow>
                         (case param body (lit ''params'') (PDict []) of
                            PDict params \<Rightarrow> Inr (token, c # cs, params)
                          | _ \<Rightarrow> Inl (error_response 400 (lit ''params_must_be_object'')))
                     | _ \<Rightarrow> Inl (error_response 400 (lit ''tool_required'')))
                | Some _ \<Rightarrow> Inl (error_response 400 (lit ''body_must_be_object'')))))"

text \<open>The response, the increment of the tool counter, the server and the connector.\<close>

definition tools_call ::
  "'s connector \<Rightarrow> process_env \<Rightarrow> call_env \<Rightarrow> http_request \<Rightarrow> server \<Rightarrow> 's \<Rightarrow>
     http_response \<times> (pystr \<times> pystr) option \<times> server \<times> 's" where
  "tools_call C pe ce req srv s =
     (case read_call req of
        Inl refusal \<Rightarrow> (refusal, None, srv, s)
      | Inr (token, tool, params) \<Rightarrow>
          (case dispatch C pe ce token tool params srv s of
             (Inr v, srv', s') \<Rightarrow>
               (\<lparr> hs_status = 200, hs_body = v, hs_authenticate = None \<rparr>, Some (tool, lit ''ok''), srv', s')
           | (Inl e, srv', s') \<Rightarrow>
               (case error_mapping e of (label, response) \<Rightarrow> (response, Some (tool, label), srv', s'))))"

section \<open>The gate of the MCP endpoint\<close>

record gate_config =
  gc_allow_anonymous :: bool
  gc_resource_metadata_url :: "pystr option"

definition deny :: "gate_config \<Rightarrow> pystr option \<Rightarrow> http_response" where
  "deny gc error =
     \<lparr> hs_status = 401,
       hs_body = PDict [(lit ''error'', PStr (case error of None \<Rightarrow> lit ''missing_bearer_token'' | Some e \<Rightarrow> e))],
       hs_authenticate = Some (lit ''Bearer realm='' @ dquote @ lit ''mq-sentinel'' @ dquote @
         (case error of None \<Rightarrow> [] | Some e \<Rightarrow> lit '', error='' @ dquote @ e @ dquote) @
         (case gc_resource_metadata_url gc of
            None \<Rightarrow> []
          | Some url \<Rightarrow> if url = [] then [] else lit '', resource_metadata='' @ dquote @ url @ dquote)) \<rparr>"

text \<open>
  A request is answered, is passed on, or an exception other than a failed verification escapes.
  A scope that is not HTTP is passed on.
\<close>

datatype gate_outcome = Answered http_response | PassedOn | Escaped exn

definition bearer_gate ::
  "process_env \<Rightarrow> gate_config \<Rightarrow> rat \<Rightarrow> bool \<Rightarrow> pystr option \<Rightarrow> server \<Rightarrow> gate_outcome \<times> server" where
  "bearer_gate pe gc now is_http header srv =
     (if \<not> is_http then (PassedOn, srv)
      else (case parse_bearer header of
              None \<Rightarrow> if gc_allow_anonymous gc then (PassedOn, srv) else (Answered (deny gc None), srv)
            | Some token \<Rightarrow>
                (case authenticate pe now token srv of
                   (Inr _, srv') \<Rightarrow> (PassedOn, srv')
                 | (Inl (TokenVerificationError _), srv') \<Rightarrow> (Answered (deny gc (Some (lit ''invalid_token''))), srv')
                 | (Inl e, srv') \<Rightarrow> (Escaped e, srv'))))"

text \<open>The MCP endpoint: the gate, and behind it the tool call that the SDK makes of the request.\<close>

datatype mcp_reply = Refused http_response | Replied "exn + pyval" | Failed exn

definition mcp_endpoint ::
  "'s connector \<Rightarrow> process_env \<Rightarrow> call_env \<Rightarrow> gate_config \<Rightarrow> pystr option \<Rightarrow> pystr option \<Rightarrow> mcp_request \<Rightarrow>
     server \<Rightarrow> 's \<Rightarrow> mcp_reply \<times> server \<times> 's" where
  "mcp_endpoint C pe ce gc default_token header request srv s =
     (case bearer_gate pe gc (ce_started ce) True header srv of
        (Answered response, srv') \<Rightarrow> (Refused response, srv', s)
      | (Escaped e, srv') \<Rightarrow> (Failed e, srv', s)
      | (PassedOn, srv') \<Rightarrow>
          (case mcp_call C pe ce default_token header request srv' s of (r, srv'', s') \<Rightarrow> (Replied r, srv'', s')))"

section \<open>Both transports make the same call\<close>

text \<open>The handler that a tool function is meant to reach.\<close>

fun mcp_handler ::
  "'s connector \<Rightarrow> process_env \<Rightarrow> call_env \<Rightarrow> server \<Rightarrow> principal \<Rightarrow> mcp_request \<Rightarrow> ('s, pyval) act" where
  "mcp_handler C pe ce srv p McpHealth = health (ce_runtime ce) srv p"
| "mcp_handler C pe ce srv p (McpChannels qm) = srv_diagnose_channels C pe (ce_runtime ce) srv qm p"
| "mcp_handler C pe ce srv p (McpDlq qm n) = srv_analyze_dlq C pe (ce_runtime ce) srv qm p n"
| "mcp_handler C pe ce srv p (McpCluster qm) = srv_check_cluster_health C pe (ce_runtime ce) srv qm p"
| "mcp_handler C pe ce srv p (McpFullCheck qm n) = srv_full_health_check C pe (ce_runtime ce) (ce_check_ms ce) srv qm p n"
| "mcp_handler C pe ce srv p (McpNativeHA qm) = srv_diagnose_native_ha C pe (ce_runtime ce) srv qm p"
| "mcp_handler C pe ce srv p (McpRdqm qm) = srv_diagnose_rdqm C pe (ce_runtime ce) srv qm p"
| "mcp_handler C pe ce srv p (McpZos qm) = srv_diagnose_zos C pe (ce_runtime ce) srv qm p"
| "mcp_handler C pe ce srv p (McpMiqm qm) = srv_diagnose_miqm C pe (ce_runtime ce) srv qm p"

text \<open>Every registered tool function reaches its own handler with its own arguments: the name and
  the parameters that it sends through the dispatcher are never refused as unknown or ill-typed.\<close>
theorem mcp_tools_reach_handlers:
  "call_tool C pe ce srv (fst (mcp_call_of m)) (snd (mcp_call_of m)) p = mcp_handler C pe ce srv p m"
proof -
  have "lit ''qm_name'' \<noteq> lit ''sample_size''" "lit ''qm_name'' \<noteq> lit ''dlq_sample_size''" by (simp_all add: lit_def)
  then show ?thesis
    by (cases m) (simp_all add: call_tool_def Let_def need_qm_def need_int_def param_def qm_param_def)
qed

definition status_of :: "exn + pyval \<Rightarrow> nat" where
  "status_of r =
     (case r of
        Inr _ \<Rightarrow> 200
      | Inl (TokenVerificationError _) \<Rightarrow> 401
      | Inl (AuthorizationError _) \<Rightarrow> 403
      | Inl (LookupError _) \<Rightarrow> 404
      | Inl (KeyError _) \<Rightarrow> 404
      | Inl (CommandNotAllowedError _) \<Rightarrow> 429
      | Inl (PermissionError _) \<Rightarrow> 429
      | Inl (ValueError _) \<Rightarrow> 400
      | Inl _ \<Rightarrow> 500)"

lemma error_mapping_status: "hs_status (snd (error_mapping e)) = status_of (Inl e)"
  by (cases e) (simp_all add: error_mapping_def status_of_def error_response_def detail_response_def)

text \<open>C19: A tool call over HTTP and the same call over MCP have the same effect: the same dispatch
  runs with the caller's own token, the server and the queue manager are left in the same state, and
  the HTTP answer is the result of that dispatch, a response with status 200 or the status of its
  exception.\<close>
theorem transports_agree:
  assumes "read_call req = Inr (token, mcp_call_of m)" and "caller_token default_token header = Some token"
    and "mcp_call C pe ce default_token header m srv s = (r, srv', s')"
  shows "\<exists>response label. tools_call C pe ce req srv s = (response, Some (fst (mcp_call_of m), label), srv', s') \<and>
    hs_status response = status_of r \<and> (label = lit ''ok'' \<longleftrightarrow> is_ok r) \<and>
    (\<forall>v. r = Inr v \<longrightarrow> hs_body response = v)"
proof -
  obtain tool params where m: "mcp_call_of m = (tool, params)" by force
  with assms(2,3) have d: "dispatch C pe ce token tool params srv s = (r, srv', s')" by (simp add: mcp_call_def)
  show ?thesis
  proof (cases r)
    case (Inr v)
    with assms(1) m d show ?thesis by (simp add: tools_call_def status_of_def)
  next
    case (Inl e)
    obtain label response where em: "error_mapping e = (label, response)" by force
    have "label \<noteq> lit ''ok''"
      using em by (cases e) (auto simp: error_mapping_def)
    moreover have "hs_status response = status_of (Inl e)" using error_mapping_status [of e] em by simp
    ultimately show ?thesis using assms(1) m d Inl em by (simp add: tools_call_def)
  qed
qed

section \<open>Refusals\<close>

text \<open>A request that declares more than 64 KiB, that carries no usable bearer token, or whose body
  is not an object with a tool name and an object of parameters, is refused with a client error
  before anything else happens: no verification, no record, no effect.\<close>
theorem refused_untouched:
  assumes "(\<exists>n. hr_content_length req = Some (str_int n) \<and> n > 65536) \<or> parse_bearer (hr_authorization req) = None \<or>
    (\<forall>body. hr_json req \<noteq> Some (PDict body))"
  shows "\<exists>response. tools_call C pe ce req srv s = (response, None, srv, s) \<and>
    hs_status response \<in> {400, 401, 413} \<and>
    (\<forall>n. hr_content_length req = Some (str_int n) \<and> n > 65536 \<longrightarrow> hs_status response = 413)"
proof -
  have big: "size_refusal req = Some (error_response 413 (lit ''request_too_large''))"
    if "hr_content_length req = Some (str_int n)" "n > 65536" for n
    using that by (simp add: size_refusal_def parse_int_str_int max_body_bytes_def)
  have size: "hs_status q \<in> {400, 413}" if "size_refusal req = Some q" for q
    using that by (auto simp: size_refusal_def error_response_def split: option.splits if_splits)
  show ?thesis
  proof (cases "size_refusal req")
    case (Some q)
    with size [OF Some] big show ?thesis
      by (intro exI [of _ q]) (auto simp: tools_call_def read_call_def error_response_def)
  next
    case None
    with big assms have bad: "parse_bearer (hr_authorization req) = None \<or> (\<forall>body. hr_json req \<noteq> Some (PDict body))"
      by auto
    have "\<exists>q. read_call req = Inl q \<and> hs_status q \<in> {400, 401, 413}"
    proof (cases "parse_bearer (hr_authorization req)")
      case None
      with \<open>size_refusal req = None\<close> show ?thesis by (simp add: read_call_def error_response_def)
    next
      case (Some t)
      with bad have j: "\<forall>body. hr_json req \<noteq> Some (PDict body)" by simp
      show ?thesis
      proof (cases "hr_json req")
        case None
        with \<open>size_refusal req = None\<close> Some show ?thesis by (simp add: read_call_def error_response_def)
      next
        case (Some v)
        with j \<open>size_refusal req = None\<close> \<open>parse_bearer (hr_authorization req) = Some t\<close> show ?thesis
          by (cases v) (simp_all add: read_call_def error_response_def)
      qed
    qed
    moreover have "\<forall>n. hr_content_length req = Some (str_int n) \<longrightarrow> \<not> n > 65536"
      using None big by (metis option.distinct(1))
    ultimately show ?thesis by (auto simp: tools_call_def)
  qed
qed

text \<open>Without a declared length there is no limit on the body.\<close>

lemma undeclared_length_unchecked: "hr_content_length req = None \<Longrightarrow> size_refusal req = None"
  by (simp add: size_refusal_def)

text \<open>A credential directory with unsafe permissions is reported to the caller as a rate limit, with
  the path of the directory in the answer.\<close>

lemma unsafe_secret_as_rate_limit:
  assumes "check_permissions fs target = Inl e"
  shows "hs_status (snd (error_mapping e)) = 429 \<and> fst (error_mapping e) = lit ''rate_limited'' \<and>
    hs_body (snd (error_mapping e)) =
      PDict [(lit ''error'', PStr (lit ''rate_limited'')), (lit ''detail'', PStr (exn_message e))]"
  using assms
  by (auto simp: check_permissions_def error_mapping_def detail_response_def split: if_splits option.splits)

section \<open>The gate\<close>

lemma verify_token_again:
  assumes "authenticate pe now token srv = (Inr p, srv')"
  shows "fst (verify_token (pe_jose pe) now token (srv_verifier srv)) = Inr p"
  using assms by (auto simp: authenticate_def split: prod.splits)

text \<open>C17: Where anonymous access is off, the MCP endpoint runs a tool only for a request whose bearer
  token has just been verified; every other request gets a 401 with a challenge (or fails when the
  verification does with an unexpected error), is not recorded as a call, and touches nothing but
  the key set cache.\<close>
theorem gate_requires_token:
  assumes "\<not> gc_allow_anonymous gc"
    and "mcp_endpoint C pe ce gc default_token header m srv s = (reply, srv', s')"
  shows "case reply of
      Refused response \<Rightarrow> hs_status response = 401 \<and> hs_authenticate response \<noteq> None \<and> s' = s \<and>
        srv_audit srv' = srv_audit srv \<and> srv_rate srv' = srv_rate srv
    | Failed e \<Rightarrow> s' = s \<and> srv_audit srv' = srv_audit srv \<and> srv_rate srv' = srv_rate srv
    | Replied r \<Rightarrow> \<exists>token p srv1. parse_bearer header = Some token \<and>
        fst (verify_token (pe_jose pe) (ce_started ce) token (srv_verifier srv)) = Inr p \<and>
        (case mcp_call_of m of (tool, params) \<Rightarrow> dispatch C pe ce token tool params srv1 s = (r, srv', s'))"
proof (cases "parse_bearer header")
  case None
  with assms show ?thesis by (auto simp: mcp_endpoint_def bearer_gate_def deny_def)
next
  case (Some token)
  obtain r srv1 where a: "authenticate pe (ce_started ce) token srv = (r, srv1)" by force
  have keep: "srv_audit srv1 = srv_audit srv" "srv_rate srv1 = srv_rate srv"
    using a by (auto simp: authenticate_def split: prod.splits)
  show ?thesis
  proof (cases r)
    case (Inl e)
    with assms(2) Some a keep show ?thesis
      by (cases e) (auto simp: mcp_endpoint_def bearer_gate_def deny_def)
  next
    case (Inr p)
    with assms(2) Some a obtain q where q: "reply = Replied q" "mcp_call C pe ce default_token header m srv1 s = (q, srv', s')"
      by (auto simp: mcp_endpoint_def bearer_gate_def split: prod.splits)
    then have "case mcp_call_of m of (tool, params) \<Rightarrow> dispatch C pe ce token tool params srv1 s = (q, srv', s')"
      using Some by (simp add: mcp_call_def caller_token_def split: prod.splits)
    with q(1) Some verify_token_again [OF a [unfolded Inr]] show ?thesis by auto
  qed
qed

section \<open>The application\<close>

text \<open>
  \<open>urllib.parse.urlparse\<close> as far as the factory uses it: scheme, network location and path. The
  checks of bracketed and non-ASCII hosts are left out.
\<close>

definition scheme_char :: "nat \<Rightarrow> bool" where
  "scheme_char c \<longleftrightarrow> is_upper_letter c \<or> is_lower_letter c \<or> is_digit c \<or> c \<in> {43, 45, 46}"

definition url_clean :: "pystr \<Rightarrow> pystr" where
  "url_clean url = filter (\<lambda>c. c \<notin> {9, 10, 13}) (dropWhile (\<lambda>c. c \<le> 32) url)"

definition url_scheme :: "pystr \<Rightarrow> pystr \<times> pystr" where
  "url_scheme url =
     (let pre = before 58 url in
      if pre \<noteq> [] \<and> length pre < length url \<and> (is_upper_letter (hd pre) \<or> is_lower_letter (hd pre)) \<and>
         list_all scheme_char pre
      then (lower pre, drop (Suc (length pre)) url) else ([], url))"

definition params_schemes :: "pystr list" where
  "params_schemes =
     [[], lit ''ftp'', lit ''hdl'', lit ''prospero'', lit ''http'', lit ''https'', lit ''imap'', lit ''itms'',
      lit ''shttp'', lit ''rtsp'', lit ''rtspu'', lit ''sip'', lit ''sips'', lit ''mms'', lit ''sftp'', lit ''tel'']"

text \<open>The parameters of the last path segment are cut off.\<close>

definition cut_params :: "pystr \<Rightarrow> pystr" where
  "cut_params path =
     (let segment = rev (takeWhile (\<lambda>c. c \<noteq> 47) (rev path))
      in take (length path - length segment) path @ before 59 segment)"

record parsed_url =
  pu_scheme :: pystr
  pu_netloc :: pystr
  pu_path :: pystr

definition urlparse :: "pystr \<Rightarrow> parsed_url" where
  "urlparse url =
     (case url_scheme (url_clean url) of (scheme, rest) \<Rightarrow>
        let has_netloc = prefix (lit ''//'') rest;
            netloc = (if has_netloc then takeWhile (\<lambda>c. c \<notin> {47, 63, 35}) (drop 2 rest) else []);
            rest = (if has_netloc then dropWhile (\<lambda>c. c \<notin> {47, 63, 35}) (drop 2 rest) else rest);
            path = before 63 (before 35 rest)
        in \<lparr> pu_scheme = scheme, pu_netloc = netloc,
             pu_path = (if scheme \<in> set params_schemes then cut_params path else path) \<rparr>)"

definition rstrip_slashes :: "pystr \<Rightarrow> pystr" where
  "rstrip_slashes s = rev (dropWhile (\<lambda>c. c = 47) (rev s))"

definition resource_url :: "settings \<Rightarrow> pystr" where
  "resource_url st =
     (if given (sv_public_url (st_server st)) then rstrip_slashes (the (sv_public_url (st_server st)))
      else lit ''http://'' @ sv_http_host (st_server st) @ lit '':'' @ str_int (sv_http_port (st_server st)) @ lit ''/mcp'')"

definition metadata_path :: "pystr \<Rightarrow> pystr" where
  "metadata_path url = lit ''/.well-known/oauth-protected-resource'' @ pu_path (urlparse url)"

record transport_security =
  ts_enabled :: bool
  ts_hosts :: "pystr list"
  ts_origins :: "pystr list"

definition loopback_hosts :: "pystr list" where
  "loopback_hosts = [lit ''127.0.0.1'', lit ''localhost'', lit ''::1'']"

definition transport_security_of :: "settings \<Rightarrow> transport_security" where
  "transport_security_of st =
     (let hosts = [lit ''127.0.0.1:*'', lit ''localhost:*'', lit ''[::1]:*''];
          origins = [lit ''http://127.0.0.1:*'', lit ''http://localhost:*'', lit ''http://[::1]:*'']
      in if given (sv_public_url (st_server st)) then
           let public = urlparse (the (sv_public_url (st_server st)))
           in \<lparr> ts_enabled = True, ts_hosts = hosts @ [pu_netloc public],
                ts_origins = origins @ [pu_scheme public @ lit ''://'' @ pu_netloc public] \<rparr>
         else if sv_http_host (st_server st) \<notin> set loopback_hosts then
           \<lparr> ts_enabled = False, ts_hosts = [], ts_origins = [] \<rparr>
         else \<lparr> ts_enabled = True, ts_hosts = hosts, ts_origins = origins \<rparr>)"

datatype endpoint =
    McpEndpoint | Healthz | Readyz | Metrics | ToolsList | ToolsCall | ResourceMetadata pyval

record http_app =
  ha_default_token :: "pystr option"
  ha_gate :: gate_config
  ha_security :: transport_security
  ha_routes :: "(pystr \<times> endpoint) list"

definition resource_metadata :: "settings \<Rightarrow> pyval" where
  "resource_metadata st =
     PDict ([(lit ''resource'', PStr (resource_url st)),
             (lit ''authorization_servers'', PList [of_opt_str (ac_oidc_issuer (st_auth st))]),
             (lit ''bearer_methods_supported'', of_strs [lit ''header'']),
             (lit ''resource_name'', PStr (lit ''MQ-Sentinel''))] @
            (if given (ac_oidc_scopes (st_auth st))
             then [(lit ''scopes_supported'', of_strs (split_ws (the (ac_oidc_scopes (st_auth st)))))] else []))"

definition build_http_app :: "settings \<Rightarrow> http_app" where
  "build_http_app st =
     (let local_dev = ac_disable_auth_for_local_dev (st_auth st);
          url = resource_url st;
          advertise_idp = given (ac_oidc_issuer (st_auth st)) \<and> \<not> local_dev;
          metadata_url =
            (if advertise_idp
             then Some (pu_scheme (urlparse url) @ lit ''://'' @ pu_netloc (urlparse url) @ metadata_path url) else None)
      in \<lparr> ha_default_token = (if local_dev then Some (lit ''http-local-dev'') else None),
           ha_gate = \<lparr> gc_allow_anonymous = local_dev, gc_resource_metadata_url = metadata_url \<rparr>,
           ha_security = transport_security_of st,
           ha_routes =
             [(lit ''/mcp'', McpEndpoint), (lit ''/healthz'', Healthz), (lit ''/readyz'', Readyz),
              (lit ''/metrics'', Metrics), (lit ''/mcp/tools'', ToolsList), (lit ''/mcp/tools/call'', ToolsCall)] @
             (if advertise_idp then [(metadata_path url, ResourceMetadata (resource_metadata st))] else []) \<rparr>)"

section \<open>The static endpoints\<close>

definition tools_public_list :: "(pystr \<times> pystr) list" where
  "tools_public_list =
     [(lit ''health'', lit ''Health probe.''),
      (lit ''diagnose_failed_channels'', lit ''Scan channels and return RCS findings.''),
      (lit ''analyze_dlq_and_suggest_reprocessing'', lit ''Inspect DLQ headers (no bodies) and group by reason code.''),
      (lit ''check_cluster_health'', lit ''Detect partial repos, stale entries, suspended members.''),
      (lit ''full_mq_health_check'', lit ''Composite: channels + DLQ + cluster, ranked by severity.''),
      (lit ''diagnose_native_ha_issues'', lit ''Native HA replica state, quorum, log replay lag, CRR.''),
      (lit ''diagnose_rdqm_issues'', lit ''RDQM Pacemaker, DRBD replication, split-brain detection.''),
      (lit ''diagnose_zos_qsg_issues'', lit ''z/OS QSG members, CHIN, page sets, buffer pools, CF structures.''),
      (lit ''diagnose_multi_instance_issues'', lit ''MIQM active/standby state, dual-active detection, failover events.'')]"

definition healthz :: pyval where
  "healthz = PDict [(lit ''status'', PStr (lit ''ok'')), (lit ''version'', PStr version)]"

definition readyz :: pyval where
  "readyz = PDict [(lit ''status'', PStr (lit ''ready'')), (lit ''version'', PStr version)]"

definition tools_list :: pyval where
  "tools_list =
     PDict [(lit ''tools'', PList (map (\<lambda>(n, d). PDict [(lit ''name'', PStr n), (lit ''description'', PStr d)])
       tools_public_list))]"

text \<open>The public list is exactly what the dispatcher serves: it names \<open>health\<close> and the eight
  diagnostic tools once each, and any other name is answered with \<open>LookupError\<close>, untouched.\<close>
theorem public_list_exact:
  "map fst tools_public_list = lit ''health'' # tool_names \<and> distinct (map fst tools_public_list) \<and>
   (tool \<notin> set (map fst tools_public_list) \<longrightarrow>
     call_tool C pe ce srv tool params p s = (Inl (LookupError (lit ''unknown tool: '' @ tool)), s))"
proof (intro conjI impI)
  show "map fst tools_public_list = lit ''health'' # tool_names"
    by (simp add: tools_public_list_def tool_names_def)
  show "distinct (map fst tools_public_list)"
    by (simp add: tools_public_list_def)
  assume "tool \<notin> set (map fst tools_public_list)"
  then show "call_tool C pe ce srv tool params p s = (Inl (LookupError (lit ''unknown tool: '' @ tool)), s)"
    by (simp add: tools_public_list_def call_tool_def raise_def)
qed

section \<open>The application in production\<close>

text \<open>In production the HTTP application never lets an anonymous request through: the gate demands a
  token, the tools have no token to fall back on, and the identity provider is advertised, at the very
  path that the challenge of the gate points to.\<close>
theorem production_http_app:
  assumes "load_settings read_settings = Inr st" and "sv_environment (st_server st) = Prod"
    and "new_server he st no_replacements = Inr srv"
  shows "\<not> gc_allow_anonymous (ha_gate (build_http_app st)) \<and> ha_default_token (build_http_app st) = None \<and>
    (let url = urlparse (resource_url st); path = metadata_path (resource_url st)
     in gc_resource_metadata_url (ha_gate (build_http_app st)) =
          Some (pu_scheme url @ lit ''://'' @ pu_netloc url @ path) \<and>
        (path, ResourceMetadata (resource_metadata st)) \<in> set (ha_routes (build_http_app st)))"
proof -
  note safe = load_settings_safe [OF assms(1,2)]
  from assms(3) have "default_verifier he st = Inr (srv_verifier srv)"
    by (auto simp: new_server_def no_replacements_def)
  from default_verifier_prod [OF this safe(1) assms(2)] have "given (ac_oidc_issuer (st_auth st))" by blast
  with safe(1) show ?thesis by (simp add: build_http_app_def Let_def)
qed

lemma takeWhile_stop: "(\<And>c. c \<in> set xs \<Longrightarrow> P c) \<Longrightarrow> ys = [] \<or> \<not> P (hd ys) \<Longrightarrow> takeWhile P (xs @ ys) = xs"
  by (cases ys) (auto simp: takeWhile_append2 takeWhile_idem_if_all)

lemma dropWhile_stop: "(\<And>c. c \<in> set xs \<Longrightarrow> P c) \<Longrightarrow> ys = [] \<or> \<not> P (hd ys) \<Longrightarrow> dropWhile P (xs @ ys) = ys"
  by (cases ys) (auto simp: dropWhile_append2 dropWhile_Nil_iff)

lemma cut_params_none: "59 \<notin> set path \<Longrightarrow> cut_params path = path"
proof -
  assume no: "59 \<notin> set path"
  let ?seg = "rev (takeWhile (\<lambda>c. c \<noteq> 47) (rev path))"
  have "suffix ?seg path"
    by (metis suffix_def rev_append rev_rev_ident takeWhile_dropWhile_id)
  then obtain zs where zs: "path = zs @ ?seg" by (auto simp: suffix_def)
  have "set ?seg \<subseteq> set path" using set_takeWhileD by fastforce
  with no have "before 59 ?seg = ?seg" unfolding before_def by (intro takeWhile_idem_if_all) auto
  moreover have "take (length path - length ?seg) path = zs"
    by (subst zs) (metis add_diff_cancel_right' append_eq_conv_conj length_append zs)
  ultimately show ?thesis unfolding cut_params_def Let_def using zs by simp
qed

definition plain_url_char :: "nat \<Rightarrow> bool" where
  "plain_url_char c \<longleftrightarrow> 32 < c \<and> c \<notin> {35, 59, 63}"

lemma urlparse_http:
  assumes scheme: "scheme = lit ''http'' \<or> scheme = lit ''https''"
    and netloc: "list_all (\<lambda>c. plain_url_char c \<and> c \<noteq> 47) netloc"
    and path: "path = [] \<or> hd path = 47" "list_all plain_url_char path"
  shows "urlparse (scheme @ lit ''://'' @ netloc @ path) = \<lparr> pu_scheme = scheme, pu_netloc = netloc, pu_path = path \<rparr>"
proof -
  let ?rest = "lit ''//'' @ netloc @ path"
  have colon: "lit ''://'' = 58 # lit ''//''" by (simp add: lit_def)
  have sc: "list_all (\<lambda>c. is_lower_letter c) scheme" "scheme \<noteq> []" "lower scheme = scheme" "scheme \<in> set params_schemes"
    using scheme by (auto simp: lit_def is_lower_letter_def lower_def lower_cp_def is_upper_letter_def params_schemes_def)
  then have sc': "list_all scheme_char scheme" "\<And>c. c \<in> set scheme \<Longrightarrow> c \<noteq> 58" "\<And>c. c \<in> set scheme \<Longrightarrow> 32 < c"
    by (auto simp: list_all_iff scheme_char_def is_lower_letter_def)
  have big: "32 < c" if "c \<in> set (scheme @ 58 # ?rest)" for c
    using that sc'(3) netloc path(2) by (auto simp: list_all_iff plain_url_char_def lit_def)
  have clean: "url_clean (scheme @ 58 # ?rest) = scheme @ 58 # ?rest"
  proof -
    have "dropWhile (\<lambda>c. c \<le> 32) (scheme @ 58 # ?rest) = scheme @ 58 # ?rest"
    proof -
      have "32 < hd scheme" using sc(2) sc'(3) by simp
      with sc(2) show ?thesis by (cases scheme) auto
    qed
    moreover have "filter (\<lambda>c. c \<notin> {9, 10, 13}) (scheme @ 58 # ?rest) = scheme @ 58 # ?rest"
      using big by (intro filter_True) fastforce
    ultimately show ?thesis by (simp only: url_clean_def)
  qed
  have split: "url_scheme (scheme @ 58 # ?rest) = (scheme, ?rest)"
  proof -
    have pre: "before 58 (scheme @ 58 # ?rest) = scheme"
      unfolding before_def by (rule takeWhile_stop) (use sc'(2) in auto)
    have "is_lower_letter (hd scheme)" using sc(1,2) by (cases scheme) auto
    then show ?thesis unfolding url_scheme_def Let_def pre using sc sc'(1) by simp
  qed
  have netloc_part: "prefix (lit ''//'') ?rest" "drop 2 ?rest = netloc @ path"
    by (simp_all add: lit_def)
  have nl: "\<And>c. c \<in> set netloc \<Longrightarrow> c \<notin> {47, 63, 35}"
    using netloc by (auto simp: list_all_iff plain_url_char_def)
  have hp: "path = [] \<or> \<not> hd path \<notin> {47, 63, 35}" using path(1) by auto
  have stop1: "takeWhile (\<lambda>c. c \<notin> {47, 63, 35}) (netloc @ path) = netloc"
    using takeWhile_stop [of netloc "\<lambda>c. c \<notin> {47, 63, 35}" path] nl hp by blast
  have stop2: "dropWhile (\<lambda>c. c \<notin> {47, 63, 35}) (netloc @ path) = path"
    using dropWhile_stop [of netloc "\<lambda>c. c \<notin> {47, 63, 35}" path] nl hp by blast
  have path_part: "before 63 (before 35 path) = path" "cut_params path = path"
  proof -
    have "before d path = path" if "d \<in> {35, 63}" for d
      unfolding before_def using path(2) that
      by (intro takeWhile_idem_if_all) (auto simp: list_all_iff plain_url_char_def)
    then show "before 63 (before 35 path) = path" by simp
    show "cut_params path = path"
      using path(2) by (intro cut_params_none) (auto simp: list_all_iff plain_url_char_def)
  qed
  show ?thesis
    unfolding urlparse_def colon append_Cons clean split prod.case Let_def if_P [OF netloc_part(1)]
      netloc_part(2) stop1 stop2 path_part if_P [OF sc(4)] by (rule refl)
qed

text \<open>The metadata document is found where RFC 9728 puts it: for a public URL of a scheme, a host and
  a path without a trailing slash, the challenge names the same scheme and host, with the well-known
  prefix in front of the path.\<close>
theorem metadata_discoverable:
  assumes "scheme = lit ''http'' \<or> scheme = lit ''https''"
    and "list_all (\<lambda>c. plain_url_char c \<and> c \<noteq> 47) netloc" and "netloc \<noteq> []"
    and "path = [] \<or> hd path = 47 \<and> last path \<noteq> 47" "list_all plain_url_char path"
    and "sv_public_url (st_server st) = Some (scheme @ lit ''://'' @ netloc @ path)"
    and "given (ac_oidc_issuer (st_auth st))" and "\<not> ac_disable_auth_for_local_dev (st_auth st)"
  shows "gc_resource_metadata_url (ha_gate (build_http_app st)) =
      Some (scheme @ lit ''://'' @ netloc @ lit ''/.well-known/oauth-protected-resource'' @ path) \<and>
    ts_enabled (ha_security (build_http_app st)) \<and> netloc \<in> set (ts_hosts (ha_security (build_http_app st)))"
proof -
  let ?url = "scheme @ lit ''://'' @ netloc @ path"
  have "last ?url \<noteq> 47"
    using assms(2-4) by (cases "path = []") (auto simp: list_all_iff)
  then have "rstrip_slashes ?url = ?url"
    unfolding rstrip_slashes_def by (cases ?url rule: rev_cases) auto
  moreover have g: "given (Some ?url)" by (simp add: given_def lit_def)
  ultimately have res: "resource_url st = ?url" using assms(6) by (simp add: resource_url_def)
  have "path = [] \<or> hd path = 47" using assms(4) by auto
  from urlparse_http [OF assms(1,2) this assms(5)] res g assms(6-8) show ?thesis
    by (simp add: build_http_app_def metadata_path_def transport_security_of_def Let_def)
qed

section \<open>Concrete requests\<close>

definition sample_request :: http_request where
  "sample_request =
     \<lparr> hr_content_length = Some (str_int 40), hr_authorization = Some (lit ''Bearer'' @ 32 # lit ''good''),
       hr_json = Some (PDict [(lit ''tool'', PStr (lit ''health'')), (lit ''params'', PDict [])]) \<rparr>"

lemma sample_bearer: "parse_bearer (hr_authorization sample_request) = Some (lit ''good'')"
proof -
  have word: "\<forall>c \<in> set (lit ''good''). \<not> is_space c" "\<forall>c \<in> set (lit ''Bearer''). \<not> is_space c" "is_space 32"
    by (simp_all add: lit_def is_space_def)
  then have "split_ws (lit ''Bearer'' @ 32 # lit ''good'') = [lit ''Bearer'', lit ''good'']"
    using split_ws_head(1) [of "lit ''good''"] split_ws_head(2) [of "lit ''Bearer''" 32 "lit ''good''"] by auto
  moreover have "lower (lit ''Bearer'') = lit ''bearer''"
    by (simp add: lit_def lower_def lower_cp_def is_upper_letter_def)
  moreover have "strip (lit ''good'') = lit ''good''"
    by (rule strip_no_space) (auto simp: lit_def is_space_def)
  ultimately show ?thesis by (simp add: sample_request_def parse_bearer_def)
qed

lemma sample_read_call: "read_call sample_request = Inr (lit ''good'', mcp_call_of McpHealth)"
proof -
  have "size_refusal sample_request = None"
    by (simp add: size_refusal_def sample_request_def parse_int_str_int max_body_bytes_def)
  moreover have "hr_json sample_request = Some (PDict [(lit ''tool'', PStr (lit ''health'')), (lit ''params'', PDict [])])"
    by (simp add: sample_request_def)
  moreover obtain c cs where "lit ''health'' = c # cs" by (cases "lit ''health''") auto
  ultimately show ?thesis
    by (simp add: read_call_def sample_bearer param_def)
qed

lemma transports_agree_witness:
  "\<exists>response label v srv' s'. tools_call (pymqi_connector (sample_env [])) sample_process sample_call_env sample_request
      prod_server pymqi_init = (response, Some (lit ''health'', label), srv', s') \<and>
    hs_status response = 200 \<and> hs_body response = v"
proof -
  obtain v srv' s' where d: "sample_dispatch (lit ''health'') [] = (Inr v, srv', s')" using sample_health by blast
  have t: "caller_token None (hr_authorization sample_request) = Some (lit ''good'')"
    by (simp add: caller_token_def sample_bearer)
  with d have "mcp_call (pymqi_connector (sample_env [])) sample_process sample_call_env None
      (hr_authorization sample_request) McpHealth prod_server pymqi_init = (Inr v, srv', s')"
    by (simp add: mcp_call_def)
  from transports_agree [OF sample_read_call t this] show ?thesis by (auto simp: status_of_def)
qed

lemma refused_untouched_witness:
  "\<exists>response. tools_call (pymqi_connector (sample_env [])) sample_process sample_call_env
      (sample_request\<lparr> hr_content_length := Some (str_int 65537) \<rparr>) prod_server pymqi_init =
    (response, None, prod_server, pymqi_init) \<and> hs_status response = 413"
proof -
  let ?req = "sample_request\<lparr> hr_content_length := Some (str_int 65537) \<rparr>"
  have "(\<exists>n. hr_content_length ?req = Some (str_int n) \<and> n > 65536) \<or> parse_bearer (hr_authorization ?req) = None \<or>
    (\<forall>body. hr_json ?req \<noteq> Some (PDict body))" by auto
  from refused_untouched [OF this] show ?thesis by fastforce
qed

lemma gate_requires_token_witness:
  "\<exists>response srv'. mcp_endpoint (pymqi_connector (sample_env [])) sample_process sample_call_env
      (ha_gate (build_http_app prod_settings)) None None McpHealth prod_server pymqi_init =
    (Refused response, srv', pymqi_init) \<and> hs_status response = 401"
proof -
  let ?gc = "ha_gate (build_http_app prod_settings)"
  have gc: "\<not> gc_allow_anonymous ?gc"
    by (simp add: build_http_app_def prod_settings_def default_settings_def Let_def)
  obtain reply srv' s' where e: "mcp_endpoint (pymqi_connector (sample_env [])) sample_process sample_call_env
      ?gc None None McpHealth prod_server pymqi_init = (reply, srv', s')" by (rule prod_cases3)
  have "parse_bearer None = None" by (simp add: parse_bearer_def)
  with gc e obtain response where "reply = Refused response"
    by (auto simp: mcp_endpoint_def bearer_gate_def)
  with gate_requires_token [OF gc e] e show ?thesis by auto
qed

lemma public_list_exact_witness:
  "call_tool (pymqi_connector (sample_env [])) sample_process sample_call_env prod_server (lit ''purge'') qm_params alice
     pymqi_init = (Inl (LookupError (lit ''unknown tool: '' @ lit ''purge'')), pymqi_init)"
proof -
  have "lit ''purge'' \<notin> set (map fst tools_public_list)" by (simp add: tools_public_list_def)
  then show ?thesis by (rule mp [OF conjunct2 [OF conjunct2 [OF public_list_exact]]])
qed

lemma production_http_app_witness: "\<not> gc_allow_anonymous (ha_gate (build_http_app prod_settings))"
proof -
  have "sv_environment (st_server prod_settings) = Prod" by (simp add: prod_settings_def)
  from production_http_app [OF prod_settings_load this prod_server_new] show ?thesis by blast
qed

lemma metadata_discoverable_witness:
  "gc_resource_metadata_url (ha_gate (build_http_app (prod_settings
      \<lparr> st_server := (st_server prod_settings)\<lparr> sv_public_url := Some (lit ''https'' @ lit ''://'' @ lit ''mq.org'' @ lit ''/mcp'') \<rparr> \<rparr>))) =
    Some (lit ''https'' @ lit ''://'' @ lit ''mq.org'' @ lit ''/.well-known/oauth-protected-resource'' @ lit ''/mcp'')"
proof -
  have "gc_resource_metadata_url (ha_gate (build_http_app (prod_settings
      \<lparr> st_server := (st_server prod_settings)\<lparr> sv_public_url := Some (lit ''https'' @ lit ''://'' @ lit ''mq.org'' @ lit ''/mcp'') \<rparr> \<rparr>))) =
    Some (lit ''https'' @ lit ''://'' @ lit ''mq.org'' @ lit ''/.well-known/oauth-protected-resource'' @ lit ''/mcp'') \<and>
    ts_enabled (ha_security (build_http_app (prod_settings
      \<lparr> st_server := (st_server prod_settings)\<lparr> sv_public_url := Some (lit ''https'' @ lit ''://'' @ lit ''mq.org'' @ lit ''/mcp'') \<rparr> \<rparr>))) \<and>
    lit ''mq.org'' \<in> set (ts_hosts (ha_security (build_http_app (prod_settings
      \<lparr> st_server := (st_server prod_settings)\<lparr> sv_public_url := Some (lit ''https'' @ lit ''://'' @ lit ''mq.org'' @ lit ''/mcp'') \<rparr> \<rparr>))))"
  proof (rule metadata_discoverable)
    show "lit ''https'' = lit ''http'' \<or> lit ''https'' = lit ''https''" by simp
    show "list_all (\<lambda>c. plain_url_char c \<and> c \<noteq> 47) (lit ''mq.org'')" by (simp add: lit_def plain_url_char_def)
    show "lit ''/mcp'' = [] \<or> hd (lit ''/mcp'') = 47 \<and> last (lit ''/mcp'') \<noteq> 47" by (simp add: lit_def)
    show "list_all plain_url_char (lit ''/mcp'')" by (simp add: lit_def plain_url_char_def)
  qed (simp_all add: prod_settings_def default_settings_def given_def)
  then show ?thesis by (rule conjunct1)
qed

end
