(* ===== verification/Cli.thy ===== *)
theory Cli
  imports Http
begin

text \<open>
  \<open>cli/main.py\<close>: the commands that decide something. What a command prints is its output text and
  its exit code. The commands that print are in \<open>Doctor\<close>; the command line parser is not modelled.
\<close>

record cli_result =
  cli_exit :: int
  cli_text :: pystr

text \<open>\<open>verify-audit\<close>; an exception of another class than the two that are caught escapes.\<close>

definition caught_by_verify :: "exn \<Rightarrow> bool" where
  "caught_by_verify e = (case e of ValueError _ \<Rightarrow> True | FileNotFoundError _ \<Rightarrow> True | _ \<Rightarrow> False)"

definition verify_audit :: "codec \<Rightarrow> (pystr \<Rightarrow> bytes option) \<Rightarrow> exn + settings \<Rightarrow> exn + cli_result" where
  "verify_audit cd read_file read_settings =
     bind_res (load_settings read_settings) (\<lambda>st.
       case verify_chain cd (read_file (au_log_path (st_audit st))) of
         Inr _ \<Rightarrow> Inr \<lparr> cli_exit = 0, cli_text = lit ''audit chain: OK'' \<rparr>
       | Inl e \<Rightarrow>
           if caught_by_verify e then
             Inr \<lparr> cli_exit = 2, cli_text = lit ''audit chain: FAILED '' @ emdash @ lit '' '' @ exn_message e \<rparr>
           else Inl e)"

text \<open>\<open>health\<close>: one dispatch with a fixed token.\<close>

definition cli_health ::
  "'s connector \<Rightarrow> process_env \<Rightarrow> call_env \<Rightarrow> server \<Rightarrow> 's \<Rightarrow> (exn + pyval) \<times> server \<times> 's" where
  "cli_health C pe ce srv s = dispatch C pe ce (lit ''dev-token'') (lit ''health'') [] srv s"

definition cli_tools :: "(pystr \<times> pystr) list" where
  "cli_tools =
     [(lit ''diagnose_failed_channels'',
       lit ''Channel state + AMQERR analysis (2035, 2009, 2059, INDOUBT, AMQ9202/9208/9503)''),
      (lit ''analyze_dlq_and_suggest_reprocessing'',
       lit ''Dead-letter queue inspection (HEADERS ONLY '' @ emdash @ lit '' bodies never read)''),
      (lit ''check_cluster_health'',
       lit ''Partial repos, stale CLUSQMGR, suspended members, unhealthy cluster channels''),
      (lit ''diagnose_native_ha_issues'', lit ''Replica state, quorum, log replay lag, split-brain, CRR lag''),
      (lit ''diagnose_rdqm_issues'', lit ''Pacemaker quorum, offline nodes, DRBD state, split-brain''),
      (lit ''diagnose_zos_qsg_issues'', lit ''QSG members, CHIN, page sets, buffer pools, CF structures''),
      (lit ''diagnose_multi_instance_issues'',
       lit ''Active/standby state, dual-active split, standby permission, failover''),
      (lit ''full_mq_health_check'',
       lit ''Composite: channels + DLQ + cluster against one QM. '' @ lit ''Executive summary + ranked findings'')]"

definition tools_json :: pyval where
  "tools_json =
     PDict [(lit ''tools'', PList (map (\<lambda>(n, d). PDict [(lit ''name'', PStr n), (lit ''description'', PStr d)]) cli_tools)),
            (lit ''count'', PInt (int (length cli_tools)))]"

text \<open>\<open>tools_count\<close> of \<open>info\<close>.\<close>

definition info_tools_count :: nat where
  "info_tools_count = 8"

datatype serve_choice = ServeStdio | ServeHttp pystr int | UnknownTransport pystr

fun transport_value :: "transport \<Rightarrow> pystr" where
  "transport_value Stdio = lit ''stdio''"
| "transport_value HttpTransport = lit ''http''"

definition serve ::
  "exn + settings \<Rightarrow> pystr option \<Rightarrow> pystr option \<Rightarrow> int option \<Rightarrow> exn + serve_choice" where
  "serve read_settings transport_opt host_opt port_opt =
     bind_res (load_settings read_settings) (\<lambda>st.
       let chosen = lower (if given transport_opt then the transport_opt else transport_value (sv_transport (st_server st))) in
       if chosen = lit ''stdio'' then Inr ServeStdio
       else if chosen = lit ''http'' then
         Inr (ServeHttp (if given host_opt then the host_opt else sv_http_host (st_server st))
                (case port_opt of Some p \<Rightarrow> p | None \<Rightarrow> sv_http_port (st_server st)))
       else Inr (UnknownTransport chosen))"

section \<open>Properties\<close>

text \<open>The command line lists exactly the diagnostic tools that the server dispatches, each once, and
  the number that \<open>info\<close> prints is right.\<close>
theorem cli_tools_match_server:
  "set (map fst cli_tools) = set tool_names \<and> distinct (map fst cli_tools) \<and> length cli_tools = info_tools_count"
proof (intro conjI)
  show "set (map fst cli_tools) = set tool_names"
    unfolding cli_tools_def tool_names_def by (simp only: list.map list.set fst_conv) blast
  show "distinct (map fst cli_tools)" by (simp add: cli_tools_def)
  show "length cli_tools = info_tools_count" by (simp add: cli_tools_def info_tools_count_def)
qed

lemma verify_chain_errors:
  "verify_chain cd file = Inl e \<Longrightarrow> caught_by_verify e \<or> e = not_printable \<or> (\<exists>m. e = AttributeError m)"
proof -
  have lines: "verify_lines cd n prev ls = Inl e \<Longrightarrow>
      caught_by_verify e \<or> e = not_printable \<or> (\<exists>m. e = AttributeError m)" for n prev ls
    by (induction ls arbitrary: n prev)
      (auto simp: Let_def caught_by_verify_def chain_broken_def split: if_splits option.splits pyval.splits)
  assume "verify_chain cd file = Inl e"
  with lines show ?thesis by (auto simp: verify_chain_def split: option.splits)
qed

text \<open>\<open>verify-audit\<close> exits with 0 exactly when the configured log verifies; otherwise it exits with 2, or an
  exception ends it, and that only for a record that is not an object or cannot be printed again.\<close>
theorem verify_audit_exit:
  assumes "load_settings read_settings = Inr st"
  shows "case verify_chain cd (read_file (au_log_path (st_audit st))) of
      Inr _ \<Rightarrow> verify_audit cd read_file read_settings = Inr \<lparr> cli_exit = 0, cli_text = lit ''audit chain: OK'' \<rparr>
    | Inl e \<Rightarrow>
        (\<exists>text_out. verify_audit cd read_file read_settings = Inr \<lparr> cli_exit = 2, cli_text = text_out \<rparr>) \<or>
        verify_audit cd read_file read_settings = Inl e \<and> (e = not_printable \<or> (\<exists>m. e = AttributeError m))"
proof (cases "verify_chain cd (read_file (au_log_path (st_audit st)))")
  case (Inl e)
  with verify_chain_errors [OF Inl] assms show ?thesis
    by (cases "caught_by_verify e") (auto simp: verify_audit_def)
next
  case (Inr u)
  with assms show ?thesis by (simp add: verify_audit_def)
qed

lemma verify_audit_exit_witness:
  "verify_audit sample_codec (\<lambda>_. None) (Inr prod_settings) = Inr \<lparr> cli_exit = 0, cli_text = lit ''audit chain: OK'' \<rparr>"
proof -
  have "verify_chain sample_codec None = Inr ()" by (simp add: verify_chain_def)
  with verify_audit_exit [OF prod_settings_load, of sample_codec "\<lambda>_. None"] show ?thesis by simp
qed

text \<open>A line that is JSON but not an object ends \<open>verify-audit\<close> with an exception, and a server
  that finds it last in its log does not start.\<close>

lemma non_object_line_escapes:
  assumes "\<And>l. cd_parse cd l = Some (PInt 5)"
  shows "verify_chain cd (Some [53]) = Inl (AttributeError (lit ''get''))"
    and "open_log cd (Some [53]) = Inl (AttributeError (lit ''get''))"
  using assms
  by (simp_all add: verify_chain_def file_lines.simps blank_line_def open_log_def load_last_hash_def text_lines_def)

end
