(* ===== verification/Http_App.thy ===== *)
theory Http_App
  imports Http
begin

text \<open>
  The whole HTTP application of \<open>http_app.py\<close>: the routes with their methods, the metrics middleware in
  front of them, and the starts of the two transports. The router of Starlette and the MCP SDK behind
  the gate are functions in a record; the counters of the metrics library are association lists from
  label values to numbers.
\<close>

section \<open>Counters\<close>

type_synonym 'l labelled_counts = "('l \<times> nat) list"

text \<open>\<open>labels\<close> makes the series when it is new; \<open>labels(\<dots>).inc()\<close> and \<open>observe\<close> add one to it.\<close>

fun touch :: "'l \<Rightarrow> 'l labelled_counts \<Rightarrow> 'l labelled_counts" where
  "touch l [] = [(l, 0)]"
| "touch l ((k, n) # c) = (if k = l then (k, n) # c else (k, n) # touch l c)"

fun inc :: "'l \<Rightarrow> 'l labelled_counts \<Rightarrow> 'l labelled_counts" where
  "inc l [] = [(l, 1)]"
| "inc l ((k, n) # c) = (if k = l then (k, Suc n) # c else (k, n) # inc l c)"

definition count_of :: "'l labelled_counts \<Rightarrow> 'l \<Rightarrow> nat" where
  "count_of c l = (case map_of c l of None \<Rightarrow> 0 | Some n \<Rightarrow> n)"

definition total_of :: "'l labelled_counts \<Rightarrow> nat" where
  "total_of c = sum_list (map snd c)"

lemma count_of_Nil [simp]: "count_of [] l = 0"
  by (simp add: count_of_def)

lemma count_of_touch [simp]: "count_of (touch l c) k = count_of c k"
  by (induction c rule: touch.induct) (auto simp: count_of_def)

lemma count_of_inc [simp]: "count_of (inc l c) k = count_of c k + (if k = l then 1 else 0)"
  by (induction c rule: inc.induct) (auto simp: count_of_def)

lemma total_of_inc [simp]: "total_of (inc l c) = Suc (total_of c)"
  by (induction c rule: inc.induct) (auto simp: total_of_def)

lemma series_touch [simp]: "fst ` set (touch l c) = insert l (fst ` set c)"
  by (induction c rule: touch.induct) auto

lemma series_inc [simp]: "fst ` set (inc l c) = insert l (fst ` set c)"
  by (induction c rule: inc.induct) auto

record metrics =
  mt_requests :: "(pystr \<times> pystr \<times> pystr) labelled_counts"
  mt_latency :: "(pystr \<times> pystr) labelled_counts"
  mt_tools :: "(pystr \<times> pystr) labelled_counts"

definition no_metrics :: metrics where
  "no_metrics = \<lparr> mt_requests = [], mt_latency = [], mt_tools = [] \<rparr>"

text \<open>\<open>_MetricsMiddleware.dispatch\<close>: the timer observes also when the request raises, the request
  counter then does not count.\<close>

definition metered ::
  "pystr \<Rightarrow> pystr \<Rightarrow> (metrics \<times> 'w \<Rightarrow> (exn + http_response) \<times> metrics \<times> 'w) \<Rightarrow>
     metrics \<times> 'w \<Rightarrow> (exn + http_response) \<times> metrics \<times> 'w" where
  "metered verb path call_next = (\<lambda>(m, w).
     case call_next (m\<lparr> mt_latency := touch (verb, path) (mt_latency m) \<rparr>, w) of
       (r, m1, w') \<Rightarrow>
         let m2 = m1\<lparr> mt_latency := inc (verb, path) (mt_latency m1) \<rparr>
         in (r, (case r of
                   Inl _ \<Rightarrow> m2
                 | Inr response \<Rightarrow>
                     m2\<lparr> mt_requests := inc (verb, path, str_nat (hs_status response)) (mt_requests m2) \<rparr>), w'))"

section \<open>The endpoints\<close>

text \<open>The methods of each route; \<open>None\<close> is a route to an ASGI application, which takes any.\<close>

fun endpoint_methods :: "endpoint \<Rightarrow> pystr list option" where
  "endpoint_methods McpEndpoint = None"
| "endpoint_methods ToolsCall = Some [lit ''POST'']"
| "endpoint_methods _ = Some [lit ''GET'']"

definition app_routes :: "http_app \<Rightarrow> (pystr \<times> endpoint \<times> pystr list option) list" where
  "app_routes app = map (\<lambda>(path, ep). (path, ep, endpoint_methods ep)) (ha_routes app)"

text \<open>What the libraries do: the router answers itself or selects an endpoint; the SDK answers a
  request itself or calls one tool function, and makes a response of what that returns or raises;
  the metrics library prints the registry.\<close>

record asgi =
  as_route :: "(pystr \<times> endpoint \<times> pystr list option) list \<Rightarrow> pystr \<Rightarrow> pystr \<Rightarrow> http_response + endpoint"
  as_sdk_call :: "http_request \<Rightarrow> http_response + mcp_request"
  as_sdk_reply :: "exn + pyval \<Rightarrow> http_response"
  as_generate_latest :: "metrics \<Rightarrow> pyval"

definition ok_response :: "pyval \<Rightarrow> http_response" where
  "ok_response v = \<lparr> hs_status = 200, hs_body = v, hs_authenticate = None \<rparr>"

definition tools_call_counted ::
  "'s connector \<Rightarrow> process_env \<Rightarrow> call_env \<Rightarrow> http_request \<Rightarrow> metrics \<times> server \<times> 's \<Rightarrow>
     (exn + http_response) \<times> metrics \<times> server \<times> 's" where
  "tools_call_counted C pe ce req = (\<lambda>(m, srv, s).
     case tools_call C pe ce req srv s of
       (response, label, srv', s') \<Rightarrow>
         (Inr response,
          (case label of None \<Rightarrow> m | Some l \<Rightarrow> m\<lparr> mt_tools := inc l (mt_tools m) \<rparr>), srv', s'))"

definition mcp_app ::
  "asgi \<Rightarrow> 's connector \<Rightarrow> process_env \<Rightarrow> call_env \<Rightarrow> http_app \<Rightarrow> http_request \<Rightarrow> server \<times> 's \<Rightarrow>
     (exn + http_response) \<times> server \<times> 's" where
  "mcp_app A C pe ce app req = (\<lambda>(srv, s).
     case bearer_gate pe (ha_gate app) (ce_started ce) True (hr_authorization req) srv of
       (Answered response, srv') \<Rightarrow> (Inr response, srv', s)
     | (Escaped e, srv') \<Rightarrow> (Inl e, srv', s)
     | (PassedOn, srv') \<Rightarrow>
         (case as_sdk_call A req of
            Inl response \<Rightarrow> (Inr response, srv', s)
          | Inr request \<Rightarrow>
              (case mcp_call C pe ce (ha_default_token app) (hr_authorization req) request srv' s of
                 (r, srv'', s') \<Rightarrow> (Inr (as_sdk_reply A r), srv'', s'))))"

fun run_endpoint ::
  "asgi \<Rightarrow> 's connector \<Rightarrow> process_env \<Rightarrow> call_env \<Rightarrow> http_app \<Rightarrow> endpoint \<Rightarrow> http_request \<Rightarrow>
     metrics \<times> server \<times> 's \<Rightarrow> (exn + http_response) \<times> metrics \<times> server \<times> 's" where
  "run_endpoint A C pe ce app McpEndpoint req (m, w) =
     (case mcp_app A C pe ce app req w of (r, w') \<Rightarrow> (r, m, w'))"
| "run_endpoint A C pe ce app ToolsCall req (m, w) = tools_call_counted C pe ce req (m, w)"
| "run_endpoint A C pe ce app Healthz req (m, w) = (Inr (ok_response healthz), m, w)"
| "run_endpoint A C pe ce app Readyz req (m, w) = (Inr (ok_response readyz), m, w)"
| "run_endpoint A C pe ce app Metrics req (m, w) = (Inr (ok_response (as_generate_latest A m)), m, w)"
| "run_endpoint A C pe ce app ToolsList req (m, w) = (Inr (ok_response tools_list), m, w)"
| "run_endpoint A C pe ce app (ResourceMetadata doc) req (m, w) = (Inr (ok_response doc), m, w)"

record web_request =
  wr_method :: pystr
  wr_path :: pystr
  wr_http :: http_request

definition serve_request ::
  "asgi \<Rightarrow> 's connector \<Rightarrow> process_env \<Rightarrow> http_app \<Rightarrow> web_request \<times> call_env \<Rightarrow>
     metrics \<times> server \<times> 's \<Rightarrow> (exn + http_response) \<times> metrics \<times> server \<times> 's" where
  "serve_request A C pe app = (\<lambda>(req, ce).
     metered (wr_method req) (wr_path req) (\<lambda>(m, w).
       case as_route A (app_routes app) (wr_method req) (wr_path req) of
         Inl response \<Rightarrow> (Inr response, m, w)
       | Inr ep \<Rightarrow> run_endpoint A C pe ce app ep (wr_http req) (m, w)))"

fun serve_all ::
  "asgi \<Rightarrow> 's connector \<Rightarrow> process_env \<Rightarrow> http_app \<Rightarrow> (web_request \<times> call_env) list \<Rightarrow>
     metrics \<times> server \<times> 's \<Rightarrow> (exn + http_response) list \<times> metrics \<times> server \<times> 's" where
  "serve_all A C pe app [] w = ([], w)"
| "serve_all A C pe app (req # reqs) w =
     (case serve_request A C pe app req w of
        (r, w') \<Rightarrow> (case serve_all A C pe app reqs w' of (rs, w'') \<Rightarrow> (r # rs, w'')))"

section \<open>Starting the transports\<close>

text \<open>\<open>build_mcp\<close> registers one tool function for each constructor of \<open>mcp_request\<close>; these are their names
  and descriptions, in the order of registration.\<close>

definition mcp_catalogue :: "(pystr \<times> pystr) list" where
  "mcp_catalogue =
     [(lit ''health'',
       lit ''Health probe. Confirms the server is up, says whether it is using live '' @
       lit ''connections or demo fixtures, and lists the queue managers you can diagnose.''),
      (lit ''diagnose_failed_channels'',
       lit ''Scan a Queue Manager's channels and return RCS findings with '' @
       lit ''IBM Knowledge Center references for each detected issue. '' @ lit ''READ-ONLY.''),
      (lit ''analyze_dlq_and_suggest_reprocessing'',
       lit ''Inspect the dead-letter queue (HEADERS ONLY '' @ emdash @ lit '' message bodies '' @
       lit ''are never read). Groups DLQ entries by MQ reason code, surfaces '' @
       lit ''backout-loop offenders, and returns RCS findings with IBM KC '' @ lit ''references. READ-ONLY.''),
      (lit ''check_cluster_health'',
       lit ''Check cluster health: detect partial repositories, unhealthy '' @
       lit ''cluster channels, stale CLUSQMGR entries, suspended members, '' @
       lit ''and orphan QMs. Returns RCS findings with IBM KC references. '' @ lit ''READ-ONLY.''),
      (lit ''full_mq_health_check'',
       lit ''Run the full MQ-Sentinel health check on a Queue Manager: '' @
       lit ''channels + DLQ headers + cluster topology, with auto-detected '' @
       lit ''topology, executive summary (overall status, severity counts, '' @
       lit ''top issues), and a unified RCS findings list ranked by severity. '' @ lit ''READ-ONLY.''),
      (lit ''diagnose_native_ha_issues'',
       lit ''Diagnose Native HA: replica state, quorum, log replay lag, '' @
       lit ''split-brain detection, and Cross-Region Replication lag. '' @
       lit ''Returns RCS findings with IBM KC references. READ-ONLY.''),
      (lit ''diagnose_rdqm_issues'',
       lit ''Diagnose RDQM (Replicated Data Queue Manager): Pacemaker quorum, '' @
       lit ''offline nodes, failed resources, and DRBD replication state '' @
       lit ''(connection, disk states, split-brain). Returns RCS findings '' @ lit ''with IBM KC references. READ-ONLY.''),
      (lit ''diagnose_zos_qsg_issues'',
       lit ''Diagnose z/OS Queue Sharing Group: QSG members, channel '' @
       lit ''initiator (CHIN), page set utilization, buffer pool free '' @
       lit ''pages, and coupling facility structure status. Returns RCS '' @
       lit ''findings with IBM KC references. READ-ONLY.''),
      (lit ''diagnose_multi_instance_issues'',
       lit ''Diagnose Multi-Instance Queue Manager (MIQM): active/standby '' @
       lit ''state, dual-active split detection, standby permission, '' @
       lit ''and recent failover events. Returns RCS findings with IBM '' @ lit ''KC references. READ-ONLY.'')]"

record mcp_server =
  ms_instructions :: pystr
  ms_version :: pystr
  ms_tools :: "(pystr \<times> pystr) list"
  ms_default_token :: "pystr option"

definition instructions :: pystr where
  "instructions =
     lit ''Read-only IBM MQ diagnostics. Call `health` first: it says whether the server is live '' @
     lit ''or on demo fixtures and lists the queue managers you may diagnose. Every tool takes a '' @
     lit ''qm_name and only runs DISPLAY commands. Findings carry evidence and IBM documentation '' @
     lit ''links; keep them attached. Suggested MQSC is for the user to review and run, never '' @
     lit ''something you've done.''"

definition build_mcp :: "pystr option \<Rightarrow> mcp_server" where
  "build_mcp default_token =
     \<lparr> ms_instructions = instructions, ms_version = version, ms_tools = mcp_catalogue,
       ms_default_token = default_token \<rparr>"

text \<open>\<open>server or MQSentinelServer()\<close>.\<close>

definition given_server :: "exn + settings \<Rightarrow> host_env \<Rightarrow> server option \<Rightarrow> exn + server" where
  "given_server read_settings he srv_opt =
     (case srv_opt of
        Some srv \<Rightarrow> Inr srv
      | None \<Rightarrow> bind_res (load_settings read_settings) (\<lambda>st. new_server he st no_replacements))"

definition serve_stdio :: "exn + settings \<Rightarrow> host_env \<Rightarrow> server option \<Rightarrow> exn + server \<times> mcp_server" where
  "serve_stdio read_settings he srv_opt =
     bind_res (given_server read_settings he srv_opt) (\<lambda>srv. Inr (srv, build_mcp (Some (lit ''stdio-local''))))"

record http_process =
  hp_server :: server
  hp_app :: http_app
  hp_host :: pystr
  hp_port :: int

definition serve_http ::
  "bool \<Rightarrow> exn + settings \<Rightarrow> host_env \<Rightarrow> server option \<Rightarrow> pystr \<Rightarrow> int \<Rightarrow> exn + http_process" where
  "serve_http has_uvicorn read_settings he srv_opt host port =
     (if \<not> has_uvicorn then Inl (RuntimeError (lit ''uvicorn not installed''))
      else bind_res (given_server read_settings he srv_opt) (\<lambda>srv.
        Inr \<lparr> hp_server = srv, hp_app = build_http_app (srv_settings srv), hp_host = host, hp_port = port \<rparr>))"

section \<open>The catalogues\<close>

text \<open>The tools of the MCP server are those of the public list and of the dispatcher, each tool function
  is among them, and every diagnostic tool describes itself as read-only.\<close>

lemma catalogues_agree:
  "map fst (ms_tools (build_mcp default_token)) = map fst tools_public_list"
  "map fst (ms_tools (build_mcp default_token)) = lit ''health'' # tool_names"
  "fst (mcp_call_of request) \<in> set (map fst (ms_tools (build_mcp default_token)))"
proof -
  show public: "map fst (ms_tools (build_mcp default_token)) = map fst tools_public_list" for default_token
    by (simp add: build_mcp_def mcp_catalogue_def tools_public_list_def)
  show "map fst (ms_tools (build_mcp default_token)) = lit ''health'' # tool_names"
    by (simp add: build_mcp_def mcp_catalogue_def tool_names_def)
  show "fst (mcp_call_of request) \<in> set (map fst (ms_tools (build_mcp default_token)))"
    by (cases request) (simp_all add: build_mcp_def mcp_catalogue_def)
qed

lemma descriptions_read_only:
  "list_all (\<lambda>(name, desc). name = lit ''health'' \<or> suffix (lit ''READ-ONLY.'') desc) mcp_catalogue"
  by (simp add: mcp_catalogue_def suffix_def)
     (simp add: lit_def)

section \<open>What the middleware counts\<close>

lemma metered_eq:
  assumes "call_next (m\<lparr> mt_latency := touch (verb, path) (mt_latency m) \<rparr>, w) = (r, m1, w')"
  shows "metered verb path call_next (m, w) =
    (r, m1\<lparr> mt_latency := inc (verb, path) (mt_latency m1),
            mt_requests := (case r of
                Inl _ \<Rightarrow> mt_requests m1
              | Inr response \<Rightarrow> inc (verb, path, str_nat (hs_status response)) (mt_requests m1)) \<rparr>, w')"
  using assms by (simp add: metered_def Let_def split: sum.split)

text \<open>Whether a request makes a tool call that reaches the dispatcher of \<open>POST /mcp/tools/call\<close>.\<close>

definition calls_tool :: "asgi \<Rightarrow> http_app \<Rightarrow> web_request \<Rightarrow> bool" where
  "calls_tool A app req \<longleftrightarrow>
     as_route A (app_routes app) (wr_method req) (wr_path req) = Inr ToolsCall \<and> is_ok (read_call (wr_http req))"

definition routed ::
  "asgi \<Rightarrow> 's connector \<Rightarrow> process_env \<Rightarrow> http_app \<Rightarrow> web_request \<times> call_env \<Rightarrow>
     metrics \<times> server \<times> 's \<Rightarrow> (exn + http_response) \<times> metrics \<times> server \<times> 's" where
  "routed A C pe app = (\<lambda>(req, ce) (m, w).
     case as_route A (app_routes app) (wr_method req) (wr_path req) of
       Inl response \<Rightarrow> (Inr response, m, w)
     | Inr ep \<Rightarrow> run_endpoint A C pe ce app ep (wr_http req) (m, w))"

lemma serve_request_routed:
  "serve_request A C pe app (req, ce) = metered (wr_method req) (wr_path req) (routed A C pe app (req, ce))"
  by (simp add: serve_request_def routed_def case_prod_unfold)

lemma tools_call_label:
  assumes "tools_call C pe ce req srv s = (response, label, srv', s')"
  shows "label \<noteq> None \<longleftrightarrow> is_ok (read_call req)"
proof (cases "read_call req")
  case (Inl q)
  with assms show ?thesis by (auto simp: tools_call_def)
next
  case (Inr c)
  obtain token tool params where c: "c = (token, tool, params)" by (rule prod_cases3)
  obtain q srv1 s1 where "dispatch C pe ce token tool params srv s = (q, srv1, s1)" by (rule prod_cases3)
  with assms Inr c show ?thesis
    by (cases q) (auto simp: tools_call_def split: prod.splits)
qed

lemma routed_metrics:
  assumes "routed A C pe app (req, ce) (m, w) = (r, m', w')"
  shows "mt_requests m' = mt_requests m \<and> mt_latency m' = mt_latency m \<and>
    total_of (mt_tools m') = total_of (mt_tools m) + (if calls_tool A app req then 1 else 0)"
proof (cases "as_route A (app_routes app) (wr_method req) (wr_path req)")
  case (Inl q)
  with assms show ?thesis by (auto simp: routed_def calls_tool_def)
next
  case (Inr ep)
  show ?thesis
  proof (cases "ep = ToolsCall")
    case True
    obtain response label srv' s' where
      t: "tools_call C pe ce (wr_http req) (fst w) (snd w) = (response, label, srv', s')" by (rule prod_cases4)
    from assms Inr True t have "m' = (case label of None \<Rightarrow> m | Some l \<Rightarrow> m\<lparr> mt_tools := inc l (mt_tools m) \<rparr>)"
      by (cases w) (auto simp: routed_def tools_call_counted_def)
    with tools_call_label [OF t] Inr True show ?thesis
      by (auto simp: calls_tool_def split: option.splits)
  next
    case False
    with assms Inr have "m' = m" by (cases ep) (auto simp: routed_def split: prod.splits)
    with Inr False show ?thesis by (auto simp: calls_tool_def)
  qed
qed

lemma serve_request_metrics:
  assumes "serve_request A C pe app (req, ce) (m, w) = (r, m', w')"
  shows "count_of (mt_latency m') l = count_of (mt_latency m) l + (if l = (wr_method req, wr_path req) then 1 else 0)"
    and "count_of (mt_requests m') k = count_of (mt_requests m) k +
      (case r of Inl _ \<Rightarrow> 0
       | Inr response \<Rightarrow> if k = (wr_method req, wr_path req, str_nat (hs_status response)) then 1 else 0)"
    and "total_of (mt_tools m') = total_of (mt_tools m) + (if calls_tool A app req then 1 else 0)"
    and "fst ` set (mt_latency m') = insert (wr_method req, wr_path req) (fst ` set (mt_latency m))"
proof -
  let ?m = "m\<lparr> mt_latency := touch (wr_method req, wr_path req) (mt_latency m) \<rparr>"
  obtain q m1 w1 where r: "routed A C pe app (req, ce) (?m, w) = (q, m1, w1)" by (rule prod_cases3)
  note kept = routed_metrics [OF r]
  have eq: "r = q" "m' = m1\<lparr> mt_latency := inc (wr_method req, wr_path req) (mt_latency m1),
            mt_requests := (case q of
                Inl _ \<Rightarrow> mt_requests m1
              | Inr response \<Rightarrow> inc (wr_method req, wr_path req, str_nat (hs_status response)) (mt_requests m1)) \<rparr>"
    using assms [symmetric] metered_eq [where call_next = "routed A C pe app (req, ce)", OF r]
    by (simp_all add: serve_request_routed)
  show "count_of (mt_latency m') l = count_of (mt_latency m) l + (if l = (wr_method req, wr_path req) then 1 else 0)"
    using kept by (simp add: eq)
  show "count_of (mt_requests m') k = count_of (mt_requests m) k +
      (case r of Inl _ \<Rightarrow> 0
       | Inr response \<Rightarrow> if k = (wr_method req, wr_path req, str_nat (hs_status response)) then 1 else 0)"
    using kept by (simp add: eq split: sum.split)
  show "total_of (mt_tools m') = total_of (mt_tools m) + (if calls_tool A app req then 1 else 0)"
    using kept by (simp add: eq)
  show "fst ` set (mt_latency m') = insert (wr_method req, wr_path req) (fst ` set (mt_latency m))"
    using kept by (simp add: eq)
qed

definition request_label :: "web_request \<times> call_env \<Rightarrow> pystr \<times> pystr" where
  "request_label q = (wr_method (fst q), wr_path (fst q))"

definition answered_labels ::
  "(web_request \<times> call_env) list \<Rightarrow> (exn + http_response) list \<Rightarrow> (pystr \<times> pystr \<times> pystr) list" where
  "answered_labels reqs rs =
     List.map_filter (\<lambda>(q, r). case r of
         Inl _ \<Rightarrow> None
       | Inr response \<Rightarrow> Some (wr_method (fst q), wr_path (fst q), str_nat (hs_status response))) (zip reqs rs)"


text \<open>So whoever can send requests decides how many series there are: each new path is one, with or
  without a token, for any path and any router.\<close>

lemma series_per_path:
  assumes "serve_all A C pe app reqs (no_metrics, w) = (rs, m', w')"
  shows "fst ` set (mt_latency m') = set (map request_label reqs)"
proof -
  have "serve_all A C pe app reqs (m, w) = (rs, m', w') \<Longrightarrow>
     fst ` set (mt_latency m') = fst ` set (mt_latency m) \<union> set (map request_label reqs)" for m w m' w' rs
  proof (induction reqs arbitrary: m w rs)
    case (Cons q reqs)
    obtain req ce where q: "q = (req, ce)" by force
    obtain r m1 w1 where s: "serve_request A C pe app (req, ce) (m, w) = (r, m1, w1)" by (rule prod_cases3)
    obtain rs1 m2 w2 where a: "serve_all A C pe app reqs (m1, w1) = (rs1, m2, w2)" by (rule prod_cases3)
    from Cons.prems s a q have eq: "m' = m2" "w' = w2" by simp_all
    from Cons.IH [OF a [folded eq]] serve_request_metrics(4) [OF s] show ?case
      by (simp add: q request_label_def)
  qed simp
  from this [OF assms] show ?thesis by (simp add: no_metrics_def)
qed

section \<open>Requests without a token\<close>

lemma read_call_needs_bearer:
  assumes "parse_bearer (hr_authorization req) = None"
  shows "\<exists>response. read_call req = Inl response \<and> hs_status response \<in> {400, 401, 413}"
  using assms
  by (auto simp: read_call_def size_refusal_def error_response_def split: option.splits)

lemma anonymous_routed:
  assumes "\<not> gc_allow_anonymous (ha_gate app)" and "parse_bearer (hr_authorization (wr_http req)) = None"
  shows "\<exists>response. \<forall>srv s. routed A C pe app (req, ce) (m, srv, s) = (Inr response, m, srv, s)"
proof (cases "as_route A (app_routes app) (wr_method req) (wr_path req)")
  case (Inl q)
  then show ?thesis by (auto simp: routed_def)
next
  case (Inr ep)
  obtain q where q: "read_call (wr_http req) = Inl q" using read_call_needs_bearer [OF assms(2)] by blast
  show ?thesis
  proof (cases ep)
    case McpEndpoint
    with Inr assms show ?thesis by (auto simp: routed_def mcp_app_def bearer_gate_def)
  next
    case ToolsCall
    with Inr q show ?thesis by (auto simp: routed_def tools_call_counted_def tools_call_def)
  qed (use Inr in \<open>auto simp: routed_def\<close>)
qed

lemma anonymous_request:
  assumes "\<not> gc_allow_anonymous (ha_gate app)" and "parse_bearer (hr_authorization (wr_http req)) = None"
  shows "\<exists>response m'. mt_tools m' = mt_tools m \<and>
    (\<forall>srv s. serve_request A C pe app (req, ce) (m, srv, s) = (Inr response, m', srv, s))"
proof -
  let ?m = "m\<lparr> mt_latency := touch (wr_method req, wr_path req) (mt_latency m) \<rparr>"
  obtain response where r: "\<And>srv s. routed A C pe app (req, ce) (?m, srv, s) = (Inr response, ?m, srv, s)"
    using anonymous_routed [OF assms, of A C pe ce ?m] by blast
  note m = metered_eq [where call_next = "routed A C pe app (req, ce)" and m = m and verb = "wr_method req"
      and path = "wr_path req", OF r]
  show ?thesis by (rule exI, rule exI, rule conjI, rule_tac [2] allI, rule_tac [2] allI,
      rule_tac [2] trans [OF fun_cong [OF serve_request_routed] m]) simp
qed

text \<open>C18: Whatever \<open>serve --transport http\<close> starts in production, a stranger learns nothing from it and moves
  nothing in it: to any request without a bearer token, of any method, for any path, whatever its
  body, the answer is the same whatever the state of the server and of the queue manager behind it,
  both are left as they were, and no tool call is counted.\<close>
theorem production_http_closed:
  assumes "load_settings read_settings = Inr st" and "sv_environment (st_server st) = Prod"
    and "serve_http has_uvicorn read_settings he None host port = Inr hp"
    and "parse_bearer (hr_authorization (wr_http req)) = None"
  shows "\<exists>response m'. mt_tools m' = mt_tools m \<and>
    (\<forall>srv s. serve_request A C pe (hp_app hp) (req, ce) (m, srv, s) = (Inr response, m', srv, s))"
proof -
  from assms(1,3) obtain srv where srv: "new_server he st no_replacements = Inr srv"
    and hp: "hp_app hp = build_http_app (srv_settings srv)"
    by (auto simp: serve_http_def given_server_def split: if_splits)
  from srv have "srv_settings srv = st" by (auto simp: new_server_def)
  with production_http_app [OF assms(1,2) srv] hp have "\<not> gc_allow_anonymous (ha_gate (hp_app hp))" by simp
  from anonymous_request [OF this assms(4)] show ?thesis .
qed

section \<open>A concrete router\<close>

definition sample_route ::
  "(pystr \<times> endpoint \<times> pystr list option) list \<Rightarrow> pystr \<Rightarrow> pystr \<Rightarrow> http_response + endpoint" where
  "sample_route routes verb path =
     (case filter (\<lambda>(p, _, _). p = path) routes of
        [] \<Rightarrow> Inl (error_response 404 (lit ''Not Found''))
      | (_, ep, methods) # _ \<Rightarrow>
          (case methods of
             None \<Rightarrow> Inr ep
           | Some ms \<Rightarrow> if verb \<in> set ms then Inr ep else Inl (error_response 405 (lit ''Method Not Allowed''))))"

definition sample_asgi :: asgi where
  "sample_asgi =
     \<lparr> as_route = sample_route, as_sdk_call = (\<lambda>_. Inr McpHealth),
       as_sdk_reply = (\<lambda>r. case r of Inr v \<Rightarrow> ok_response v | Inl e \<Rightarrow> ok_response (PStr (class_name e))),
       as_generate_latest = (\<lambda>_. PDict []) \<rparr>"

definition stranger :: "pystr \<Rightarrow> web_request" where
  "stranger path =
     \<lparr> wr_method = lit ''POST'', wr_path = path,
       wr_http = \<lparr> hr_content_length = None, hr_authorization = None, hr_json = None \<rparr> \<rparr>"

lemma sample_serve_http:
  "serve_http True (Inr prod_settings) sample_host None (lit ''0.0.0.0'') 8080 =
     Inr \<lparr> hp_server = prod_server, hp_app = build_http_app prod_settings, hp_host = lit ''0.0.0.0'', hp_port = 8080 \<rparr>"
proof -
  have "srv_settings prod_server = prod_settings" by (simp add: prod_server_def)
  then show ?thesis by (simp add: serve_http_def given_server_def prod_settings_load prod_server_new)
qed

lemma production_http_closed_witness:
  "\<exists>response m'. serve_request sample_asgi (pymqi_connector (sample_env [])) sample_process (build_http_app prod_settings)
     (stranger (lit ''/mcp/tools/call''), sample_call_env) (no_metrics, prod_server, pymqi_init) =
     (Inr response, m', prod_server, pymqi_init)"
proof -
  have "sv_environment (st_server prod_settings) = Prod" by (simp add: prod_settings_def)
  moreover have "parse_bearer (hr_authorization (wr_http (stranger (lit ''/mcp/tools/call'')))) = None"
    by (simp add: stranger_def parse_bearer_def)
  ultimately have "\<exists>response m'. mt_tools m' = mt_tools no_metrics \<and>
      (\<forall>srv s. serve_request sample_asgi (pymqi_connector (sample_env [])) sample_process (build_http_app prod_settings)
        (stranger (lit ''/mcp/tools/call''), sample_call_env) (no_metrics, srv, s) = (Inr response, m', srv, s))"
    using production_http_closed [OF prod_settings_load _ sample_serve_http] by (simp del: split_paired_Ex)
  then show ?thesis by blast
qed


end
