(* ===== verification/Concurrency.thy ===== *)
theory Concurrency
  imports Server
begin

text \<open>
  Calls in several worker threads of one process. FastMCP and Starlette hand each dispatch to a
  worker thread (\<open>anyio.to_thread.run_sync\<close> in \<open>server.py\<close> and \<open>http_app.py\<close>), so the dispatches of
  different callers interleave. The shared state is behind three locks: the key set cache of the
  verifier, the buckets of the rate limiter, and the audit log. No thread holds one lock while it
  waits for another, so a dispatch is four steps, each atomic: verify the token, ask the rate
  limiter, run the tool on a connector of its own, write the audit record. The clocks are read
  outside the locks (\<open>allow\<close> and \<open>write\<close> both do), so nothing is assumed about their order.
\<close>

section \<open>Threads\<close>

datatype phase =
    Arrived
  | Verified principal
  | Admitted principal
  | Attempted attempt
  | Done attempt "exn + pyval"

record 's thread =
  th_call :: call
  th_conn :: 's
  th_phase :: phase

definition verify_step :: "process_env \<Rightarrow> call \<Rightarrow> server \<Rightarrow> phase \<times> server" where
  "verify_step pe c srv =
     (case authenticate pe (ce_verify_at (cl_env c)) (cl_token c) srv of
        (Inl e, srv') \<Rightarrow> (Attempted \<lparr> at_principal = None, at_outcome = lit ''error'', at_result = Inl e \<rparr>, srv')
      | (Inr p, srv') \<Rightarrow> (Verified p, srv'))"

definition limit_step :: "call \<Rightarrow> principal \<Rightarrow> server \<Rightarrow> phase \<times> server" where
  "limit_step c p srv =
     (case allow (ce_rate_at (cl_env c)) (pr_subject p) 1 (srv_rate srv) of
        (ok, rl) \<Rightarrow>
          (if ok then Admitted p
           else Attempted \<lparr> at_principal = Some p, at_outcome = lit ''denied'',
                  at_result = Inl (PermissionError (lit ''rate limit exceeded'')) \<rparr>,
           srv\<lparr> srv_rate := rl \<rparr>))"

definition tool_step ::
  "'s connector \<Rightarrow> process_env \<Rightarrow> call \<Rightarrow> principal \<Rightarrow> server \<Rightarrow> 's \<Rightarrow> attempt \<times> 's" where
  "tool_step C pe c p srv s =
     (case call_tool C pe (cl_env c) srv (cl_tool c) (cl_params c) p s of
        (r, s') \<Rightarrow>
          (\<lparr> at_principal = Some p, at_outcome = (if is_ok r then lit ''ok'' else lit ''error''), at_result = r \<rparr>, s'))"

fun thread_step :: "'s connector \<Rightarrow> process_env \<Rightarrow> server \<Rightarrow> 's thread \<Rightarrow> 's thread \<times> server" where
  "thread_step C pe srv th =
     (case th_phase th of
        Arrived \<Rightarrow>
          (case verify_step pe (th_call th) srv of (ph, srv') \<Rightarrow> (th\<lparr> th_phase := ph \<rparr>, srv'))
      | Verified p \<Rightarrow>
          (case limit_step (th_call th) p srv of (ph, srv') \<Rightarrow> (th\<lparr> th_phase := ph \<rparr>, srv'))
      | Admitted p \<Rightarrow>
          (case tool_step C pe (th_call th) p srv (th_conn th) of
             (a, s') \<Rightarrow> (th\<lparr> th_conn := s', th_phase := Attempted a \<rparr>, srv))
      | Attempted a \<Rightarrow>
          (case audit_call pe (cl_env (th_call th)) (cl_tool (th_call th)) (cl_params (th_call th)) a srv of
             (r, srv') \<Rightarrow> (th\<lparr> th_phase := Done a r \<rparr>, srv'))
      | Done a r \<Rightarrow> (th, srv))"

declare thread_step.simps [simp del]

section \<open>The process\<close>

text \<open>Requests in the order of their arrival. A turn runs the next step of one of them; a gate turn
  is the HTTP gate verifying the token of some request before any dispatch.\<close>

record 's pool =
  po_server :: server
  po_threads :: "'s thread list"

datatype turn = Turn nat | Gate rat pystr

fun take_turn :: "'s connector \<Rightarrow> process_env \<Rightarrow> turn \<Rightarrow> 's pool \<Rightarrow> 's pool" where
  "take_turn C pe (Turn i) P =
     (if i < length (po_threads P) then
        (case thread_step C pe (po_server P) (po_threads P ! i) of
           (th, srv) \<Rightarrow> \<lparr> po_server = srv, po_threads = (po_threads P)[i := th] \<rparr>)
      else P)"
| "take_turn C pe (Gate now token) P =
     P\<lparr> po_server := snd (authenticate pe now token (po_server P)) \<rparr>"

definition run_turns :: "'s connector \<Rightarrow> process_env \<Rightarrow> turn list \<Rightarrow> 's pool \<Rightarrow> 's pool" where
  "run_turns C pe turns P = fold (take_turn C pe) turns P"

definition start_pool :: "'s \<Rightarrow> server \<Rightarrow> call list \<Rightarrow> 's pool" where
  "start_pool s0 srv cs =
     \<lparr> po_server = srv, po_threads = map (\<lambda>c. \<lparr> th_call = c, th_conn = s0, th_phase = Arrived \<rparr>) cs \<rparr>"

inductive pool_step :: "'s connector \<Rightarrow> process_env \<Rightarrow> 's pool \<Rightarrow> 's pool \<Rightarrow> bool" for C pe where
  step: "i < length (po_threads P) \<Longrightarrow>
    thread_step C pe (po_server P) (po_threads P ! i) = (th, srv) \<Longrightarrow>
    pool_step C pe P \<lparr> po_server = srv, po_threads = (po_threads P)[i := th] \<rparr>"
| gate: "authenticate pe now token (po_server P) = (r, srv) \<Longrightarrow> pool_step C pe P (P\<lparr> po_server := srv \<rparr>)"

inductive_cases pool_stepE: "pool_step C pe P P'"

lemma take_turn_step: "take_turn C pe t P = P \<or> pool_step C pe P (take_turn C pe t P)"
proof (cases t)
  case (Turn i)
  then show ?thesis
    by (cases "thread_step C pe (po_server P) (po_threads P ! i)") (auto intro: pool_step.step)
next
  case (Gate now token)
  then show ?thesis
    by (cases "authenticate pe now token (po_server P)") (auto intro: pool_step.gate)
qed

lemma run_turns_reach: "(pool_step C pe)\<^sup>*\<^sup>* P (run_turns C pe turns P)"
proof (induction turns arbitrary: P)
  case (Cons t turns)
  have "(pool_step C pe)\<^sup>*\<^sup>* P (take_turn C pe t P)" using take_turn_step [of C pe t P] by auto
  with Cons [of "take_turn C pe t P"] show ?case by (simp add: run_turns_def)
qed (simp add: run_turns_def)

section \<open>The cases of a step\<close>

lemma audit_call_log:
  "audit_call pe ce tool params a srv =
     (case hash_params (pe_codec pe) params of
        Inl e \<Rightarrow> (Inl e, srv)
      | Inr h \<Rightarrow>
          (case audit_write (pe_codec pe) (ce_timestamp ce) (audit_event_of ce tool params h a) (srv_audit srv) of
             (w, lg) \<Rightarrow> (case w of Inl e \<Rightarrow> Inl e | Inr _ \<Rightarrow> at_result a, srv\<lparr> srv_audit := lg \<rparr>)))"
  by (simp add: audit_call_def split: sum.split prod.split)

text \<open>What writing the record of a call makes of the log.\<close>

definition log_after :: "process_env \<Rightarrow> call \<Rightarrow> attempt \<Rightarrow> audit_log \<Rightarrow> audit_log" where
  "log_after pe c a lg =
     (case hash_params (pe_codec pe) (cl_params c) of
        Inl _ \<Rightarrow> lg
      | Inr h \<Rightarrow> snd (audit_write (pe_codec pe) (ce_timestamp (cl_env c))
          (audit_event_of (cl_env c) (cl_tool c) (cl_params c) h a) lg))"

lemma audit_call_after:
  assumes "audit_call pe (cl_env c) (cl_tool c) (cl_params c) a srv = (r, srv')"
  shows "srv' = srv\<lparr> srv_audit := log_after pe c a (srv_audit srv) \<rparr>"
  using assms by (auto simp: audit_call_log log_after_def split: sum.splits prod.splits)

lemma thread_step_cases:
  assumes "thread_step C pe srv th = (th', srv')"
  obtains (rejected) e v where "th_phase th = Arrived"
      "verify_token (pe_jose pe) (ce_verify_at (cl_env (th_call th))) (cl_token (th_call th)) (srv_verifier srv) = (Inl e, v)"
      "th' = th\<lparr> th_phase := Attempted \<lparr> at_principal = None, at_outcome = lit ''error'', at_result = Inl e \<rparr> \<rparr>"
      "srv' = srv\<lparr> srv_verifier := v \<rparr>"
    | (verified) p v where "th_phase th = Arrived"
      "verify_token (pe_jose pe) (ce_verify_at (cl_env (th_call th))) (cl_token (th_call th)) (srv_verifier srv) = (Inr p, v)"
      "th' = th\<lparr> th_phase := Verified p \<rparr>" "srv' = srv\<lparr> srv_verifier := v \<rparr>"
    | (limited) p rl where "th_phase th = Verified p"
      "allow (ce_rate_at (cl_env (th_call th))) (pr_subject p) 1 (srv_rate srv) = (False, rl)"
      "th' = th\<lparr> th_phase := Attempted \<lparr> at_principal = Some p, at_outcome = lit ''denied'',
         at_result = Inl (PermissionError (lit ''rate limit exceeded'')) \<rparr> \<rparr>"
      "srv' = srv\<lparr> srv_rate := rl \<rparr>"
    | (admitted) p rl where "th_phase th = Verified p"
      "allow (ce_rate_at (cl_env (th_call th))) (pr_subject p) 1 (srv_rate srv) = (True, rl)"
      "th' = th\<lparr> th_phase := Admitted p \<rparr>" "srv' = srv\<lparr> srv_rate := rl \<rparr>"
    | (run) p a s' where "th_phase th = Admitted p"
      "tool_step C pe (th_call th) p srv (th_conn th) = (a, s')"
      "th' = th\<lparr> th_conn := s', th_phase := Attempted a \<rparr>" "srv' = srv"
    | (audited) a r where "th_phase th = Attempted a"
      "audit_call pe (cl_env (th_call th)) (cl_tool (th_call th)) (cl_params (th_call th)) a srv = (r, srv')"
      "th' = th\<lparr> th_phase := Done a r \<rparr>"
      "srv' = srv\<lparr> srv_audit := log_after pe (th_call th) a (srv_audit srv) \<rparr>"
    | (stays) a r where "th_phase th = Done a r" "th' = th" "srv' = srv"
proof (cases "th_phase th")
  case Arrived
  obtain q v where v: "verify_token (pe_jose pe) (ce_verify_at (cl_env (th_call th))) (cl_token (th_call th))
    (srv_verifier srv) = (q, v)" by force
  show thesis
  proof (cases q)
    case (Inl e)
    with assms [symmetric] Arrived v show thesis
      by (intro that(1) [OF Arrived]) (simp_all add: thread_step.simps verify_step_def authenticate_def)
  next
    case (Inr p)
    with assms [symmetric] Arrived v show thesis
      by (intro that(2) [OF Arrived]) (simp_all add: thread_step.simps verify_step_def authenticate_def)
  qed
next
  case (Verified p)
  obtain ok rl where v: "allow (ce_rate_at (cl_env (th_call th))) (pr_subject p) 1 (srv_rate srv) = (ok, rl)" by force
  show thesis
  proof (cases ok)
    case False
    with assms [symmetric] Verified v show thesis
      by (intro that(3) [OF Verified]) (simp_all add: thread_step.simps limit_step_def)
  next
    case True
    with assms [symmetric] Verified v show thesis
      by (intro that(4) [OF Verified]) (simp_all add: thread_step.simps limit_step_def)
  qed
next
  case (Admitted p)
  obtain a s' where v: "tool_step C pe (th_call th) p srv (th_conn th) = (a, s')" by force
  with assms [symmetric] Admitted show thesis
    by (intro that(5) [OF Admitted]) (simp_all add: thread_step.simps)
next
  case (Attempted a)
  obtain r srv1 where v: "audit_call pe (cl_env (th_call th)) (cl_tool (th_call th)) (cl_params (th_call th)) a srv = (r, srv1)"
    by force
  with assms [symmetric] Attempted show thesis
    using audit_call_after [OF v] by (intro that(6) [OF Attempted]) (simp_all add: thread_step.simps)
next
  case (Done a r)
  with assms [symmetric] show thesis by (intro that(7) [OF Done]) (simp_all add: thread_step.simps)
qed

section \<open>What no step changes\<close>

definition same_config :: "server \<Rightarrow> server \<Rightarrow> bool" where
  "same_config srv srv' \<longleftrightarrow>
     srv_settings srv' = srv_settings srv \<and> srv_inventory srv' = srv_inventory srv \<and>
     srv_secrets srv' = srv_secrets srv \<and> srv_mode srv' = srv_mode srv \<and> srv_factory srv' = srv_factory srv"

lemma same_config_refl [simp]: "same_config srv srv"
  by (simp add: same_config_def)

lemma same_config_updates [simp]:
  "same_config srv (srv'\<lparr> srv_verifier := v \<rparr>) = same_config srv srv'"
  "same_config srv (srv'\<lparr> srv_rate := rl \<rparr>) = same_config srv srv'"
  "same_config srv (srv'\<lparr> srv_audit := lg \<rparr>) = same_config srv srv'"
  by (simp_all add: same_config_def)

text \<open>The tool of a call reads nothing that another thread can change: that is why running it is one
  step, although it may take seconds.\<close>

lemma tool_step_config:
  assumes "same_config srv srv'"
  shows "tool_step C pe c p srv' s = tool_step C pe c p srv s"
proof -
  from assms have eqs: "srv_settings srv' = srv_settings srv" "srv_inventory srv' = srv_inventory srv"
    "srv_secrets srv' = srv_secrets srv" "srv_mode srv' = srv_mode srv"
    by (simp_all add: same_config_def)
  show ?thesis
    unfolding tool_step_def call_tool_def handler_defs with_access_def services_of_def health_def
      health_report_def Let_def eqs
    by (rule refl)
qed

section \<open>Every thread runs its own call\<close>

definition verifier_after :: "process_env \<Rightarrow> (rat \<times> pystr) list \<Rightarrow> verifier \<Rightarrow> verifier" where
  "verifier_after pe tokens = fold (\<lambda>(now, token) v. snd (verify_token (pe_jose pe) now token v)) tokens"

text \<open>The token of a call was accepted, after some tokens of other threads.\<close>

definition token_accepted :: "process_env \<Rightarrow> server \<Rightarrow> call \<Rightarrow> principal \<Rightarrow> bool" where
  "token_accepted pe srv0 c p \<longleftrightarrow>
     (\<exists>tokens. fst (verify_token (pe_jose pe) (ce_verify_at (cl_env c)) (cl_token c)
        (verifier_after pe tokens (srv_verifier srv0))) = Inr p)"

definition own_attempt :: "'s connector \<Rightarrow> process_env \<Rightarrow> server \<Rightarrow> 's \<Rightarrow> call \<Rightarrow> attempt \<Rightarrow> 's \<Rightarrow> bool" where
  "own_attempt C pe srv0 s0 c a s \<longleftrightarrow>
     (case at_principal a of
        None \<Rightarrow> s = s0 \<and> at_outcome a = lit ''error'' \<and> \<not> is_ok (at_result a)
      | Some p \<Rightarrow> token_accepted pe srv0 c p \<and>
          (if at_outcome a = lit ''denied'' then s = s0 \<and> \<not> is_ok (at_result a)
           else tool_step C pe c p srv0 s0 = (a, s)))"

definition own_thread :: "'s connector \<Rightarrow> process_env \<Rightarrow> server \<Rightarrow> 's \<Rightarrow> 's thread \<Rightarrow> bool" where
  "own_thread C pe srv0 s0 th \<longleftrightarrow>
     (case th_phase th of
        Arrived \<Rightarrow> th_conn th = s0
      | Verified p \<Rightarrow> th_conn th = s0 \<and> token_accepted pe srv0 (th_call th) p
      | Admitted p \<Rightarrow> th_conn th = s0 \<and> token_accepted pe srv0 (th_call th) p
      | Attempted a \<Rightarrow> own_attempt C pe srv0 s0 (th_call th) a (th_conn th)
      | Done a r \<Rightarrow> own_attempt C pe srv0 s0 (th_call th) a (th_conn th) \<and> (is_ok r \<longrightarrow> r = at_result a))"

definition pool_ok :: "'s connector \<Rightarrow> process_env \<Rightarrow> server \<Rightarrow> 's \<Rightarrow> call list \<Rightarrow> 's pool \<Rightarrow> bool" where
  "pool_ok C pe srv0 s0 cs P \<longleftrightarrow>
     map th_call (po_threads P) = cs \<and> same_config srv0 (po_server P) \<and>
     (\<exists>tokens. srv_verifier (po_server P) = verifier_after pe tokens (srv_verifier srv0)) \<and>
     list_all (own_thread C pe srv0 s0) (po_threads P)"

lemma verifier_after_snoc:
  "verify_token (pe_jose pe) now token (verifier_after pe tokens v0) = (r, v) \<Longrightarrow>
     v = verifier_after pe (tokens @ [(now, token)]) v0"
  by (simp add: verifier_after_def)

lemma outcomes_differ: "lit ''error'' \<noteq> lit ''denied''" "lit ''ok'' \<noteq> lit ''denied''"
  by (simp_all add: lit_def)

lemma tool_step_outcome: "tool_step C pe c p srv s = (a, s') \<Longrightarrow> at_principal a = Some p \<and> at_outcome a \<noteq> lit ''denied''"
  by (auto simp: tool_step_def outcomes_differ split: prod.splits if_splits)

lemma audit_call_result: "audit_call pe ce tool params a srv = (r, srv') \<Longrightarrow> is_ok r \<Longrightarrow> r = at_result a"
  by (auto simp: audit_call_log split: sum.splits prod.splits)

text \<open>Preservation by a step of one thread: what becomes of the thread, and of the server.\<close>

lemma thread_step_own:
  assumes "thread_step C pe srv th = (th', srv')" and "own_thread C pe srv0 s0 th"
    and "same_config srv0 srv" and "srv_verifier srv = verifier_after pe tokens (srv_verifier srv0)"
  shows "own_thread C pe srv0 s0 th'" "th_call th' = th_call th" "same_config srv0 srv'"
    "\<exists>tokens. srv_verifier srv' = verifier_after pe tokens (srv_verifier srv0)"
proof -
  have new: "\<exists>tokens. v = verifier_after pe tokens (srv_verifier srv0)"
    if "verify_token (pe_jose pe) now token (srv_verifier srv) = (r, v)" for now token r v
    using verifier_after_snoc [of pe now token tokens "srv_verifier srv0" r v] that assms(4) by auto
  have acc: "token_accepted pe srv0 (th_call th) p"
    if "verify_token (pe_jose pe) (ce_verify_at (cl_env (th_call th))) (cl_token (th_call th)) (srv_verifier srv) = (Inr p, v)"
    for p v
    using that assms(4) unfolding token_accepted_def by (intro exI [of _ tokens]) simp
  note [simp] = own_thread_def own_attempt_def
  have "own_thread C pe srv0 s0 th' \<and> th_call th' = th_call th \<and> same_config srv0 srv' \<and>
    (\<exists>tokens. srv_verifier srv' = verifier_after pe tokens (srv_verifier srv0))"
    using assms(1)
  proof (cases rule: thread_step_cases)
    case (rejected e v)
    with assms(2,3) new show ?thesis by simp
  next
    case (verified p v)
    with assms(2,3) new acc show ?thesis by simp
  next
    case (limited p rl)
    with assms(2-4) show ?thesis by auto
  next
    case (admitted p rl)
    with assms(2-4) show ?thesis by auto
  next
    case (run p a s')
    then have "tool_step C pe (th_call th) p srv0 s0 = (a, s')"
      using assms(2) tool_step_config [OF assms(3), of C pe "th_call th" p s0] by simp
    with run tool_step_outcome [OF this] assms(2-4) show ?thesis by auto
  next
    case (audited a r)
    with audit_call_result [OF audited(2)] assms(2-4) show ?thesis by auto
  next
    case (stays a r)
    with assms(2-4) show ?thesis by auto
  qed
  then show "own_thread C pe srv0 s0 th'" "th_call th' = th_call th" "same_config srv0 srv'"
    "\<exists>tokens. srv_verifier srv' = verifier_after pe tokens (srv_verifier srv0)" by blast+
qed

lemma pool_ok_start: "pool_ok C pe srv s0 cs (start_pool s0 srv cs)"
  by (auto simp: pool_ok_def start_pool_def own_thread_def list_all_iff comp_def verifier_after_def intro: exI [of _ "[]"])

lemma pool_ok_step:
  assumes "pool_step C pe P P'" and "pool_ok C pe srv0 s0 cs P"
  shows "pool_ok C pe srv0 s0 cs P'"
  using assms(1)
proof cases
  case (step i th srv)
  from assms(2) obtain tokens where ok: "map th_call (po_threads P) = cs" "same_config srv0 (po_server P)"
    "srv_verifier (po_server P) = verifier_after pe tokens (srv_verifier srv0)"
    and own: "list_all (own_thread C pe srv0 s0) (po_threads P)" by (auto simp: pool_ok_def)
  from own step(2) have "own_thread C pe srv0 s0 (po_threads P ! i)" by (simp add: list_all_length)
  note facts = thread_step_own [OF step(3) this ok(2,3)]
  have "map th_call ((po_threads P)[i := th]) = cs"
    using ok(1) facts(2) step(2) by (simp add: map_update) (metis list_update_id nth_map)
  moreover have "list_all (own_thread C pe srv0 s0) ((po_threads P)[i := th])"
    using own facts(1) step(2) by (auto simp: list_all_length nth_list_update)
  ultimately show ?thesis using facts(3,4) by (simp add: pool_ok_def step(1))
next
  case (gate now token r srv)
  from assms(2) obtain tokens where
    v: "srv_verifier (po_server P) = verifier_after pe tokens (srv_verifier srv0)" by (auto simp: pool_ok_def)
  obtain v where "verify_token (pe_jose pe) now token (srv_verifier (po_server P)) = (r, v)"
    "srv = (po_server P)\<lparr> srv_verifier := v \<rparr>"
    using gate(2) by (auto simp: authenticate_def split: prod.splits)
  with verifier_after_snoc [of pe now token tokens "srv_verifier srv0" r v] v assms(2) show ?thesis
    by (auto simp: pool_ok_def gate(1))
qed

lemma pool_ok_reach:
  assumes "(pool_step C pe)\<^sup>*\<^sup>* (start_pool s0 srv cs) P"
  shows "pool_ok C pe srv s0 cs P"
  using assms by (induction rule: rtranclp_induct) (auto intro: pool_ok_start pool_ok_step)

section \<open>The rate limit under interleaving\<close>

definition served_for :: "pystr \<Rightarrow> 's thread \<Rightarrow> bool" where
  "served_for subject th \<longleftrightarrow>
     (let served = (\<lambda>a. at_outcome a \<noteq> lit ''denied'' \<and> map_option pr_subject (at_principal a) = Some subject) in
      case th_phase th of
        Admitted p \<Rightarrow> pr_subject p = subject
      | Attempted a \<Rightarrow> served a
      | Done a _ \<Rightarrow> served a
      | _ \<Rightarrow> False)"

definition served_count :: "'s pool \<Rightarrow> pystr \<Rightarrow> nat" where
  "served_count P subject = length (filter (served_for subject) (po_threads P))"

lemma filter_length_update:
  "i < length xs \<Longrightarrow>
     length (filter Q (xs[i := y])) + (if Q (xs ! i) then 1 else 0) = length (filter Q xs) + (if Q y then 1 else 0)"
proof (induction xs arbitrary: i)
  case (Cons x xs)
  with Cons.IH [of "i - 1"] show ?case by (cases i) auto
qed simp

text \<open>A step changes the limiter exactly when it asks it, and then serves its subject exactly when
  the limiter says so.\<close>

lemma thread_step_rate:
  assumes "thread_step C pe srv th = (th', srv')"
  shows "(srv_rate srv' = srv_rate srv \<and> (\<forall>subject. served_for subject th' = served_for subject th)) \<or>
    (\<exists>subject ok. allow (rate_time (th_call th)) subject 1 (srv_rate srv) = (ok, srv_rate srv') \<and>
       (\<forall>x. served_for x th' = (ok \<and> x = subject)) \<and> (\<forall>x. \<not> served_for x th))"
  using assms
proof (cases rule: thread_step_cases)
  case (run p a s')
  with tool_step_outcome [OF run(2)] show ?thesis by (auto simp: served_for_def Let_def)
next
  case (limited p rl)
  then show ?thesis by (auto simp: served_for_def Let_def rate_time_def)
next
  case (admitted p rl)
  then show ?thesis by (auto simp: served_for_def Let_def rate_time_def)
qed (auto simp: served_for_def Let_def)

definition rate_ok :: "rat \<Rightarrow> rat \<Rightarrow> call list \<Rightarrow> nat \<Rightarrow> 's pool \<Rightarrow> bool" where
  "rate_ok start finish cs n P \<longleftrightarrow>
     map th_call (po_threads P) = cs \<and> within_budget start finish (served_count P) (srv_rate (po_server P)) \<and>
     rl_rate_per_minute (srv_rate (po_server P)) = n \<and> rl_burst (srv_rate (po_server P)) = n"

lemma rate_ok_step:
  assumes "pool_step C pe P P'" and "rate_ok start finish cs n P"
    and "list_all (\<lambda>c. start \<le> rate_time c \<and> rate_time c \<le> finish) cs"
  shows "rate_ok start finish cs n P'"
  using assms(1)
proof cases
  case (step i th srv)
  let ?th = "po_threads P ! i"
  from assms(2) have P: "map th_call (po_threads P) = cs"
    "within_budget start finish (served_count P) (srv_rate (po_server P))"
    "rl_rate_per_minute (srv_rate (po_server P)) = n" "rl_burst (srv_rate (po_server P)) = n"
    by (simp_all add: rate_ok_def)
  have same: "th_call th = th_call ?th"
    using step(3) by (cases rule: thread_step_cases) simp_all
  then have calls: "map th_call ((po_threads P)[i := th]) = cs"
    using P(1) step(2) by (simp add: map_update) (metis list_update_id nth_map)
  have "th_call ?th \<in> set cs" using P(1) step(2) by auto
  then have time: "start \<le> rate_time (th_call ?th)" "rate_time (th_call ?th) \<le> finish"
    using assms(3) by (auto simp: list_all_iff)
  have count: "served_count P' x + (if served_for x ?th then 1 else 0) =
      served_count P x + (if served_for x th then 1 else 0)" for x
    unfolding served_count_def step(1) by (simp add: filter_length_update [OF step(2)])
  from thread_step_rate [OF step(3)] show ?thesis
  proof (elim disjE exE conjE)
    assume "srv_rate srv = srv_rate (po_server P)" "\<forall>x. served_for x th = served_for x ?th"
    moreover have "served_count P' = served_count P"
    proof
      show "served_count P' x = served_count P x" for x
        using count [of x] calculation(2) by simp
    qed
    ultimately show ?thesis using P calls by (simp add: rate_ok_def step(1))
  next
    fix subject ok
    assume al: "allow (rate_time (th_call ?th)) subject 1 (srv_rate (po_server P)) = (ok, srv_rate srv)"
      and "\<forall>x. served_for x th = (ok \<and> x = subject)" "\<forall>x. \<not> served_for x ?th"
    then have "served_count P' =
        (if ok then (served_count P)(subject := Suc (served_count P subject)) else served_count P)"
      using count by (intro ext) auto
    moreover have "rl_rate_per_minute (srv_rate srv) = n" "rl_burst (srv_rate srv) = n"
      using allow_parameters(1,2) [of "rate_time (th_call ?th)" subject 1 "srv_rate (po_server P)"] al P(3,4) by simp_all
    ultimately show ?thesis
      using allow_budget [OF P(2) time al] calls by (simp add: rate_ok_def step(1))
  qed
next
  case (gate now token r srv)
  then have "srv_rate srv = srv_rate (po_server P)"
    by (auto simp: authenticate_def split: prod.splits)
  moreover have "served_count (P\<lparr> po_server := srv \<rparr>) = served_count P"
    by (simp add: fun_eq_iff served_count_def)
  ultimately show ?thesis using assms(2) by (simp add: rate_ok_def gate(1))
qed

section \<open>The log under interleaving\<close>

text \<open>The record that a finished thread wrote, added to a log.\<close>

definition write_of :: "process_env \<Rightarrow> 's thread \<Rightarrow> audit_log \<Rightarrow> audit_log" where
  "write_of pe th lg = (case th_phase th of Done a r \<Rightarrow> log_after pe (th_call th) a lg | _ \<Rightarrow> lg)"

definition finished :: "'s thread \<Rightarrow> bool" where
  "finished th = (case th_phase th of Done a r \<Rightarrow> True | _ \<Rightarrow> False)"

definition writes_in :: "process_env \<Rightarrow> 's thread list \<Rightarrow> nat list \<Rightarrow> audit_log \<Rightarrow> audit_log" where
  "writes_in pe ths order lg = fold (\<lambda>i. write_of pe (ths ! i)) order lg"

text \<open>The log is the one before, with the record of each finished call, each once, in some order.\<close>

definition log_linear :: "process_env \<Rightarrow> audit_log \<Rightarrow> 's pool \<Rightarrow> bool" where
  "log_linear pe lg0 P \<longleftrightarrow>
     (\<exists>order. distinct order \<and> set order = {i. i < length (po_threads P) \<and> finished (po_threads P ! i)} \<and>
        srv_audit (po_server P) = writes_in pe (po_threads P) order lg0)"

lemma thread_step_log:
  assumes "thread_step C pe srv th = (th', srv')"
  shows "(finished th \<and> th' = th \<and> srv_audit srv' = srv_audit srv) \<or>
    (\<not> finished th \<and> \<not> finished th' \<and> srv_audit srv' = srv_audit srv) \<or>
    (\<not> finished th \<and> finished th' \<and> srv_audit srv' = write_of pe th' (srv_audit srv))"
  using assms by (cases rule: thread_step_cases) (simp_all add: finished_def write_of_def)

lemma writes_in_update:
  "i \<notin> set order \<Longrightarrow> writes_in pe (ths[i := th]) order lg = writes_in pe ths order lg"
  unfolding writes_in_def by (intro fold_cong) (simp_all, metis nth_list_update_neq)

lemma log_linear_step:
  assumes "pool_step C pe P P'" and "log_linear pe lg0 P"
  shows "log_linear pe lg0 P'"
  using assms(1)
proof cases
  case (step i th srv)
  let ?ths = "po_threads P"
  from assms(2) obtain order where order: "distinct order" "set order = {i. i < length ?ths \<and> finished (?ths ! i)}"
    and log: "srv_audit (po_server P) = writes_in pe ?ths order lg0" by (auto simp: log_linear_def)
  from thread_step_log [OF step(3)] show ?thesis
  proof (elim disjE conjE)
    assume "th = ?ths ! i" "srv_audit srv = srv_audit (po_server P)"
    with order log show ?thesis by (auto simp: log_linear_def step(1))
  next
    assume new: "\<not> finished (?ths ! i)" "\<not> finished th" and same: "srv_audit srv = srv_audit (po_server P)"
    then have "i \<notin> set order" using order(2) by simp
    moreover have "set order = {j. j < length ?ths \<and> finished (?ths[i := th] ! j)}"
      using order(2) new step(2) by (auto simp: nth_list_update)
    ultimately show ?thesis
      using order(1) log same by (auto simp: log_linear_def step(1) writes_in_update)
  next
    assume new: "\<not> finished (?ths ! i)" "finished th" and wr: "srv_audit srv = write_of pe th (srv_audit (po_server P))"
    then have i: "i \<notin> set order" using order(2) by simp
    have "set (order @ [i]) = {j. j < length ?ths \<and> finished (?ths[i := th] ! j)}"
      using order(2) new step(2) by (auto simp: nth_list_update)
    moreover have "writes_in pe (?ths[i := th]) (order @ [i]) lg0 = srv_audit srv"
      using writes_in_update [OF i, of pe ?ths th lg0] step(2) wr log by (simp add: writes_in_def)
    ultimately show ?thesis
      using order(1) i unfolding log_linear_def step(1) by (intro exI [of _ "order @ [i]"]) simp
  qed
next
  case (gate now token r srv)
  then have "srv_audit srv = srv_audit (po_server P)"
    by (auto simp: authenticate_def split: prod.splits)
  with assms(2) show ?thesis by (simp add: log_linear_def gate(1))
qed

lemma log_after_ok: "codec_ok (pe_codec pe) \<Longrightarrow> log_ok (pe_codec pe) lg \<Longrightarrow> log_ok (pe_codec pe) (log_after pe c a lg)"
  by (auto simp: log_after_def split: sum.split intro: audit_write_ok)

lemma writes_ok: "codec_ok (pe_codec pe) \<Longrightarrow> log_ok (pe_codec pe) lg \<Longrightarrow> log_ok (pe_codec pe) (writes_in pe ths order lg)"
  unfolding writes_in_def
  by (induction order arbitrary: lg) (auto simp: write_of_def log_after_ok split: phase.split)

section \<open>Progress\<close>

fun steps_left :: "phase \<Rightarrow> nat" where
  "steps_left Arrived = 4"
| "steps_left (Verified p) = 3"
| "steps_left (Admitted p) = 2"
| "steps_left (Attempted a) = 1"
| "steps_left (Done a r) = 0"

lemma steps_left_finished: "steps_left (th_phase th) = 0 \<longleftrightarrow> finished th"
  by (cases "th_phase th") (simp_all add: finished_def)

lemma thread_step_left:
  "thread_step C pe srv th = (th', srv') \<Longrightarrow> steps_left (th_phase th') \<le> steps_left (th_phase th) - 1"
  by (erule thread_step_cases) simp_all

definition pool_left :: "'s pool \<Rightarrow> nat \<Rightarrow> nat" where
  "pool_left P i = steps_left (th_phase (po_threads P ! i))"

lemma take_turn_length [simp]: "length (po_threads (take_turn C pe t P)) = length (po_threads P)"
  by (cases t) (auto split: prod.split)

lemma take_turn_left:
  assumes "i < length (po_threads P)"
  shows "pool_left (take_turn C pe t P) i \<le> pool_left P i - (if t = Turn i then 1 else 0)"
proof (cases t)
  case (Turn j)
  obtain th srv where "thread_step C pe (po_server P) (po_threads P ! j) = (th, srv)" by force
  with thread_step_left [OF this] Turn assms show ?thesis
    by (auto simp: pool_left_def nth_list_update)
next
  case (Gate now token)
  then show ?thesis by (simp add: pool_left_def)
qed

lemma run_turns_left:
  assumes "i < length (po_threads P)"
  shows "pool_left (run_turns C pe turns P) i \<le> pool_left P i - count_list turns (Turn i)"
  using assms
proof (induction turns arbitrary: P)
  case (Cons t turns)
  have "pool_left (run_turns C pe turns (take_turn C pe t P)) i \<le>
      pool_left (take_turn C pe t P) i - count_list turns (Turn i)"
    by (rule Cons.IH) (simp add: Cons.prems)
  with take_turn_left [OF Cons.prems, of C pe t] show ?case by (auto simp: run_turns_def)
qed (simp add: run_turns_def)

lemma run_turns_length [simp]: "length (po_threads (run_turns C pe turns P)) = length (po_threads P)"
  unfolding run_turns_def by (induction turns arbitrary: P) simp_all

section \<open>One call after the other\<close>

text \<open>The calls as \<open>dispatch\<close> handles them, each on the server that the one before left.\<close>

fun dispatch_all ::
  "'s connector \<Rightarrow> 's \<Rightarrow> process_env \<Rightarrow> call list \<Rightarrow> server \<Rightarrow> (exn + pyval) list \<times> server" where
  "dispatch_all C s0 pe [] srv = ([], srv)"
| "dispatch_all C s0 pe (c # cs) srv =
     (case dispatch C pe (cl_env c) (cl_token c) (cl_tool c) (cl_params c) srv s0 of
        (r, srv', _) \<Rightarrow> (case dispatch_all C s0 pe cs srv' of (rs, srv'') \<Rightarrow> (r # rs, srv'')))"

text \<open>The schedule in which every call finishes before the next one starts.\<close>

definition serial_turns :: "nat \<Rightarrow> nat \<Rightarrow> turn list" where
  "serial_turns k n = concat (map (\<lambda>i. replicate 4 (Turn i)) [k..<n])"

fun thread_run :: "'s connector \<Rightarrow> process_env \<Rightarrow> nat \<Rightarrow> server \<Rightarrow> 's thread \<Rightarrow> 's thread \<times> server" where
  "thread_run C pe 0 srv th = (th, srv)"
| "thread_run C pe (Suc n) srv th =
     (case thread_step C pe srv th of (th', srv') \<Rightarrow> thread_run C pe n srv' th')"

lemma run_turns_append: "run_turns C pe (ts @ us) P = run_turns C pe us (run_turns C pe ts P)"
  by (simp add: run_turns_def)

lemma run_turns_replicate:
  "i < length ths \<Longrightarrow>
     run_turns C pe (replicate n (Turn i)) \<lparr> po_server = srv, po_threads = ths \<rparr> =
       (case thread_run C pe n srv (ths ! i) of (th, srv') \<Rightarrow> \<lparr> po_server = srv', po_threads = ths[i := th] \<rparr>)"
proof (induction n arbitrary: srv ths)
  case (Suc n)
  obtain th srv1 where st: "thread_step C pe srv (ths ! i) = (th, srv1)" by force
  have "run_turns C pe (replicate (Suc n) (Turn i)) \<lparr> po_server = srv, po_threads = ths \<rparr> =
      run_turns C pe (replicate n (Turn i)) \<lparr> po_server = srv1, po_threads = ths[i := th] \<rparr>"
    using Suc.prems st by (simp add: run_turns_def)
  also have "\<dots> = (case thread_run C pe n srv1 th of (th', srv') \<Rightarrow> \<lparr> po_server = srv', po_threads = ths[i := th'] \<rparr>)"
    using Suc.IH [of "ths[i := th]" srv1] Suc.prems by simp
  finally show ?case using st by simp
qed (simp add: run_turns_def)

lemma thread_run_dispatch:
  assumes "th_phase th = Arrived"
    and "dispatch C pe (cl_env (th_call th)) (cl_token (th_call th)) (cl_tool (th_call th)) (cl_params (th_call th))
      srv (th_conn th) = (r, srv', s')"
  shows "\<exists>a. thread_run C pe 4 srv th = (th\<lparr> th_conn := s', th_phase := Done a r \<rparr>, srv')"
proof -
  let ?c = "th_call th"
  obtain a srv1 where at: "attempt_call C pe (cl_env ?c) (cl_token ?c) (cl_tool ?c) (cl_params ?c) srv (th_conn th) = (a, srv1, s')"
    and au: "audit_call pe (cl_env ?c) (cl_tool ?c) (cl_params ?c) a srv1 = (r, srv')"
    using dispatch_parts [OF assms(2)] .
  have four: "4 = Suc (Suc (Suc (Suc 0)))" by simp
  from at show ?thesis
  proof (cases rule: attempt_cases)
    case (unverified e v)
    with assms(1) au show ?thesis
      unfolding four by (intro exI [of _ a]) (simp add: thread_step.simps verify_step_def authenticate_def)
  next
    case (limited p v rl)
    with assms(1) au show ?thesis
      unfolding four by (intro exI [of _ a]) (simp add: thread_step.simps verify_step_def limit_step_def authenticate_def)
  next
    case (run p v rl q)
    with assms(1) au show ?thesis
      unfolding four by (intro exI [of _ a]) (simp add: thread_step.simps verify_step_def limit_step_def tool_step_def authenticate_def)
  qed
qed

definition answer :: "'s thread \<Rightarrow> (exn + pyval) option" where
  "answer th = (case th_phase th of Done a r \<Rightarrow> Some r | _ \<Rightarrow> None)"

lemma serial_run:
  assumes "length ths = k"
  shows "\<exists>ends. run_turns C pe (serial_turns k (k + length cs))
      \<lparr> po_server = srv, po_threads = ths @ po_threads (start_pool s0 srv0 cs) \<rparr> =
      \<lparr> po_server = snd (dispatch_all C s0 pe cs srv), po_threads = ths @ ends \<rparr> \<and>
    map answer ends = map Some (fst (dispatch_all C s0 pe cs srv))"
  using assms
proof (induction cs arbitrary: k ths srv)
  case Nil
  then show ?case by (simp add: serial_turns_def run_turns_def start_pool_def)
next
  case (Cons c cs)
  let ?th = "\<lparr> th_call = c, th_conn = s0, th_phase = Arrived \<rparr>"
  let ?rest = "po_threads (start_pool s0 srv0 cs)"
  obtain r srv1 s' where d: "dispatch C pe (cl_env c) (cl_token c) (cl_tool c) (cl_params c) srv s0 = (r, srv1, s')"
    by (rule prod_cases3)
  with thread_run_dispatch [of ?th C pe srv r srv1 s'] obtain a
    where run: "thread_run C pe 4 srv ?th = (\<lparr> th_call = c, th_conn = s', th_phase = Done a r \<rparr>, srv1)" by auto
  let ?done = "\<lparr> th_call = c, th_conn = s', th_phase = Done a r \<rparr>"
  have ths: "po_threads (start_pool s0 srv0 (c # cs)) = ?th # ?rest" by (simp add: start_pool_def)
  have first: "run_turns C pe (replicate 4 (Turn k)) \<lparr> po_server = srv, po_threads = ths @ ?th # ?rest \<rparr> =
      \<lparr> po_server = srv1, po_threads = (ths @ [?done]) @ ?rest \<rparr>"
    using run_turns_replicate [of k "ths @ ?th # ?rest" C pe 4 srv] Cons.prems run by (simp add: list_update_append nth_append)
  have turns: "serial_turns k (k + length (c # cs)) = replicate 4 (Turn k) @ serial_turns (Suc k) (Suc k + length cs)"
    by (simp add: serial_turns_def upt_conv_Cons del: upt_Suc)
  from Cons.IH [of "ths @ [?done]" "Suc k" srv1] Cons.prems obtain ends where
    "run_turns C pe (serial_turns (Suc k) (Suc k + length cs))
        \<lparr> po_server = srv1, po_threads = (ths @ [?done]) @ ?rest \<rparr> =
      \<lparr> po_server = snd (dispatch_all C s0 pe cs srv1), po_threads = (ths @ [?done]) @ ends \<rparr>"
    "map answer ends = map Some (fst (dispatch_all C s0 pe cs srv1))" by auto
  moreover have ans: "answer ?done = Some r" by (simp add: answer_def)
  ultimately show ?case
    unfolding ths turns run_turns_append first using d
    by (intro exI [of _ "?done # ends"]) (simp add: ans case_prod_beta)
qed

section \<open>Properties\<close>

text \<open>C7: Whatever other threads do in between, a caller gets the answer to its own call: a response
  that a thread returns is what the tool gives on the server as it was started, with a connector of
  its own, for the principal of its own token.\<close>
theorem concurrent_calls_own:
  assumes "(pool_step C pe)\<^sup>*\<^sup>* (start_pool s0 srv cs) P"
    and "i < length cs" and "th_phase (po_threads P ! i) = Done a (Inr v)"
  shows "\<exists>p. token_accepted pe srv (cs ! i) p \<and>
    call_tool C pe (cl_env (cs ! i)) srv (cl_tool (cs ! i)) (cl_params (cs ! i)) p s0 = (Inr v, th_conn (po_threads P ! i))"
proof -
  let ?th = "po_threads P ! i"
  from pool_ok_reach [OF assms(1)] have calls: "map th_call (po_threads P) = cs"
    and own: "list_all (own_thread C pe srv s0) (po_threads P)" by (simp_all add: pool_ok_def)
  from calls assms(2) have i: "i < length (po_threads P)" "th_call ?th = cs ! i" by auto
  with own assms(3) have att: "own_attempt C pe srv s0 (cs ! i) a (th_conn ?th)" and res: "at_result a = Inr v"
    by (auto simp: list_all_length own_thread_def)
  then obtain p where p: "at_principal a = Some p" "token_accepted pe srv (cs ! i) p"
    "tool_step C pe (cs ! i) p srv s0 = (a, th_conn ?th)"
    by (auto simp: own_attempt_def split: option.splits if_splits)
  from p(3) res have "call_tool C pe (cl_env (cs ! i)) srv (cl_tool (cs ! i)) (cl_params (cs ! i)) p s0 =
      (Inr v, th_conn ?th)" by (auto simp: tool_step_def split: prod.splits)
  with p(2) show ?thesis by blast
qed



text \<open>C6: The limit holds under interleaving, also when threads ask the limiter in another order than
  they read the clock: in every reachable state of a fresh server, with readings in a window, at most
  the configured burst plus the configured rate times the window has been served to a subject.\<close>
theorem concurrent_rate_bound:
  assumes "new_server he st rp = Inr srv" and "(pool_step C pe)\<^sup>*\<^sup>* (start_pool s0 srv cs) P"
    and "list_all (\<lambda>c. start \<le> rate_time c \<and> rate_time c \<le> finish) cs" and "start \<le> finish"
  shows "of_nat (served_count P subject) \<le>
    of_nat (sc_rate_limit_per_minute (st_security st)) * (1 + (finish - start) / 60 :: rat)"
proof -
  let ?n = "sc_rate_limit_per_minute (st_security st)"
  have rl: "srv_rate srv = new_rate_limiter ?n ?n" using assms(1) by (auto simp: new_server_def)
  have "rate_ok start finish cs ?n (start_pool s0 srv cs)"
    using assms(4) by (simp add: rate_ok_def start_pool_def comp_def rl new_rate_limiter_def within_budget_def
        served_count_def served_for_def Let_def refill_rate_def)
  with assms(2) have "rate_ok start finish cs ?n P"
    by (induction rule: rtranclp_induct) (auto intro: rate_ok_step [OF _ _ assms(3)])
  then have "of_nat (served_count P subject) \<le> of_nat ?n + (finish - start) * (of_nat ?n / 60 :: rat)"
    by (auto simp: rate_ok_def within_budget_def refill_rate_def)
  then show ?thesis by (simp add: field_simps)
qed



text \<open>The longest turn is a verification that fetches the key set, as it does so while it holds the lock.
  When the fetch fails the state does not change, so the next caller fetches again: while the
  provider is down, the callers wait for one time-out after the other.\<close>

lemma failed_fetch_repeated:
  assumes "os_jwks st = Some jwks" and "oc_ttl oc \<le> now - os_cached_at st"
    and "oc_jwks_url oc = Some url" and "url \<noteq> []" and "je_fetch je now url = Inl e"
  shows "get_jwks je oc now st = (Inr jwks, st)"
  using assms by (simp add: get_jwks_def)

section \<open>Concrete threads\<close>

abbreviation sample_pool :: "call list \<Rightarrow> pymqi_state pool" where
  "sample_pool cs \<equiv> start_pool pymqi_init prod_server cs"

abbreviation sample_reach :: "pymqi_state pool \<Rightarrow> pymqi_state pool \<Rightarrow> bool" where
  "sample_reach \<equiv> (pool_step (pymqi_connector (sample_env [])) sample_process)\<^sup>*\<^sup>*"

definition tool_call :: "pystr \<Rightarrow> dict \<Rightarrow> call" where
  "tool_call tool params = \<lparr> cl_env = sample_call_env, cl_token = lit ''good'', cl_tool = tool, cl_params = params \<rparr>"

text \<open>A second call that has arrived and waits.\<close>

lemma sample_ends:
  assumes "sample_dispatch tool params = (r, srv', s')"
  shows "\<exists>P a. sample_reach (sample_pool [tool_call tool params, sample_call]) P \<and>
    po_threads P ! 0 = \<lparr> th_call = tool_call tool params, th_conn = s', th_phase = Done a r \<rparr> \<and> length (po_threads P) = 2"
proof -
  let ?C = "pymqi_connector (sample_env [])" and ?c = "tool_call tool params"
  let ?th = "\<lparr> th_call = ?c, th_conn = pymqi_init, th_phase = Arrived \<rparr>"
  obtain a where "thread_run ?C sample_process 4 prod_server ?th =
      (\<lparr> th_call = ?c, th_conn = s', th_phase = Done a r \<rparr>, srv')"
    using thread_run_dispatch [of ?th ?C sample_process prod_server r srv' s'] assms by (auto simp: tool_call_def)
  with run_turns_replicate [of 0 "po_threads (sample_pool [?c, sample_call])" ?C sample_process 4 prod_server]
  have "po_threads (run_turns ?C sample_process (replicate 4 (Turn 0)) (sample_pool [?c, sample_call])) ! 0 =
      \<lparr> th_call = ?c, th_conn = s', th_phase = Done a r \<rparr>"
    by (simp add: start_pool_def)
  then show ?thesis
    using run_turns_reach [of ?C sample_process "sample_pool [?c, sample_call]" "replicate 4 (Turn 0)"]
    by (intro exI [of _ "run_turns ?C sample_process (replicate 4 (Turn 0)) (sample_pool [?c, sample_call])"] exI [of _ a])
      (simp add: start_pool_def)
qed

lemma concurrent_calls_own_witness:
  "\<exists>p v s'. token_accepted sample_process prod_server (tool_call (lit ''health'') []) p \<and>
     call_tool (pymqi_connector (sample_env [])) sample_process sample_call_env prod_server (lit ''health'') [] p
       pymqi_init = (Inr v, s')"
proof -
  obtain v srv' s' where d: "sample_dispatch (lit ''health'') [] = (Inr v, srv', s')" using sample_health by blast
  from sample_ends [OF d] obtain P a where
    P: "sample_reach (sample_pool [tool_call (lit ''health'') [], sample_call]) P"
    "th_phase (po_threads P ! 0) = Done a (Inr v)" by auto
  from concurrent_calls_own [OF P(1) _ P(2)] show ?thesis
    by (auto simp: tool_call_def)
qed



lemma concurrent_rate_bound_witness:
  "\<exists>P :: pymqi_state pool. of_nat (served_count P (lit ''alice'')) \<le> (60 :: rat) \<and> length (po_threads P) = 2"
proof -
  obtain v srv' s' where d: "sample_dispatch (lit ''health'') [] = (Inr v, srv', s')" using sample_health by blast
  from sample_ends [OF d] obtain P where
    P: "sample_reach (sample_pool [tool_call (lit ''health'') [], sample_call]) P" "length (po_threads P) = 2" by blast
  have "list_all (\<lambda>c. 5 \<le> rate_time c \<and> rate_time c \<le> 5) [tool_call (lit ''health'') [], sample_call]"
    by (simp add: rate_time_def tool_call_def sample_call_def sample_call_env_def)
  from concurrent_rate_bound [OF prod_server_new P(1) this, of "lit ''alice''"] P(2)
  show ?thesis by (intro exI [of _ P]) (simp add: prod_settings_def default_settings_def)
qed


end
