(* ===== verification/Credentials.thy ===== *)
theory Credentials
  imports Server
begin

text \<open>
  Which credential reaches which queue manager. The tools are clients of the \<open>SecretsBackend\<close> protocol
  (\<open>secrets_backend_contract\<close>): here it is interpreted on every backend of the server, and the
  tools, the handlers and the dispatcher are shown to connect only with the credential that the
  backend answers for, for the entry of the queue manager that the call names. That a connection
  with another credential never happens is stated by a connector that refuses it: putting it in
  place of the connector changes nothing.
\<close>

section \<open>Everything but connecting ignores how connecting is done\<close>

abbreviation connecting :: "(qm_entry \<Rightarrow> mq_credential \<Rightarrow> ('s, unit) act) \<Rightarrow> 's connector \<Rightarrow> 's connector" where
  "connecting f C \<equiv> C\<lparr> op_connect := f \<rparr>"

lemma queries_connecting [simp]:
  "safe_attr (connecting f C) c a = safe_attr C c a"
  "safe_raw (connecting f C) c = safe_raw C c"
  "safe_rows (connecting f C) c = safe_rows C c"
  "safe_shell (connecting f C) argv = safe_shell C argv"
  "shell_indicates_rdqm (connecting f C) = shell_indicates_rdqm C"
  "dspmq_indicates_standby (connecting f C) = dspmq_indicates_standby C"
  "collect_channel_status (connecting f C) = collect_channel_status C"
  "read_error_log_tail (connecting f C) = read_error_log_tail C"
  "resolve_dlq_name (connecting f C) = resolve_dlq_name C"
  by (simp_all add: safe_attr_def safe_raw_def safe_rows_def safe_shell_def shell_indicates_rdqm_def
      dspmq_indicates_standby_def collect_channel_status_def read_error_log_tail_def resolve_dlq_name_def)

lemma detect_connecting [simp]: "detect (connecting f C) = detect C"
  by (simp add: detect_def)

lemma checks_connecting [simp]:
  "run_channel_checks (connecting f C) = run_channel_checks C"
  "run_dlq_checks (connecting f C) = run_dlq_checks C"
  "run_cluster_checks (connecting f C) = run_cluster_checks C"
  "run_native_ha_checks (connecting f C) = run_native_ha_checks C"
  "run_rdqm_checks (connecting f C) = run_rdqm_checks C"
  "run_miqm_checks (connecting f C) = run_miqm_checks C"
  "run_zos_checks (connecting f C) = run_zos_checks C"
  by (intro ext; simp add: run_channel_checks_def run_dlq_checks_def run_cluster_checks_def run_native_ha_checks_def
      run_rdqm_checks_def run_miqm_checks_def run_zos_checks_def)+

lemma categories_connecting [simp]: "run_categories (connecting f C) = run_categories C"
  by (intro ext) (simp add: run_categories_def run_channels_def run_dlq_def run_cluster_def)

section \<open>The tools, over any backend\<close>

definition refusing :: "(qm_entry \<Rightarrow> mq_credential \<Rightarrow> bool) \<Rightarrow> 's connector \<Rightarrow> 's connector" where
  "refusing ok C =
     C\<lparr> op_connect := (\<lambda>entry credential.
         if ok entry credential then op_connect C entry credential
         else raise (PermissionError (lit ''credential of another queue manager''))) \<rparr>"

lemma open_qm_refusing:
  assumes "\<And>entry credential. inv_get (sv_inventory sv) qm = Inr entry \<Longrightarrow>
      sv_resolve sv (secret_ref entry) = Inr credential \<Longrightarrow> ok entry credential"
  shows "open_qm (refusing ok C) sv qm body = open_qm C sv qm body"
proof (cases "inv_get (sv_inventory sv) qm")
  case (Inl e)
  then show ?thesis by (simp add: open_qm_def bind_act_def lift_res_def fun_eq_iff)
next
  case (Inr entry)
  show ?thesis
  proof (cases "sv_resolve sv (secret_ref entry)")
    case (Inl e)
    with Inr show ?thesis by (simp add: open_qm_def bind_act_def lift_res_def fun_eq_iff)
  next
    case (Inr credential)
    with assms [OF \<open>inv_get (sv_inventory sv) qm = Inr entry\<close> Inr] \<open>inv_get (sv_inventory sv) qm = Inr entry\<close>
    show ?thesis by (simp add: open_qm_def refusing_def bind_act_def lift_res_def fun_eq_iff)
  qed
qed

context secrets_backend_contract
begin

lemma open_qm_vouched:
  assumes "sv_resolve sv = resolve"
  shows "open_qm (refusing (\<lambda>entry cred. inv_get (sv_inventory sv) qm = Inr entry \<and> vouched (secret_ref entry) cred) C)
      sv qm body = open_qm C sv qm body"
  using assms by (intro open_qm_refusing) (auto intro: resolved)

lemma tools_vouched:
  assumes "sv_resolve sv = resolve"
  shows "all_tools (refusing (\<lambda>entry cred. inv_get (sv_inventory sv) qm = Inr entry \<and> vouched (secret_ref entry) cred) C)
      rt sv n d qm = all_tools C rt sv n d qm"
proof -
  have checks: "\<And>g. run_channel_checks (refusing g C) = run_channel_checks C"
    "\<And>g. run_dlq_checks (refusing g C) = run_dlq_checks C"
    "\<And>g. run_cluster_checks (refusing g C) = run_cluster_checks C"
    "\<And>g. run_native_ha_checks (refusing g C) = run_native_ha_checks C"
    "\<And>g. run_rdqm_checks (refusing g C) = run_rdqm_checks C"
    "\<And>g. run_miqm_checks (refusing g C) = run_miqm_checks C"
    "\<And>g. run_zos_checks (refusing g C) = run_zos_checks C"
    "\<And>g. run_categories (refusing g C) = run_categories C"
    by (simp_all add: refusing_def)
  show ?thesis
    by (simp add: all_tools_def single_tool_defs full_mq_health_check_def run_tool_def checks open_qm_vouched [OF assms])
qed

end

section \<open>The backends of the server\<close>

fun vouched_by :: "file_system \<Rightarrow> secrets_backend \<Rightarrow> pystr \<Rightarrow> mq_credential \<Rightarrow> bool" where
  "vouched_by fs NullSecrets ref cred \<longleftrightarrow>
     cred = \<lparr> cred_user = lit ''fixture'', cred_password = lit ''fixture'', keystore_path = None,
              keystore_password = None, cert_label = None \<rparr>"
| "vouched_by fs UnconfiguredSecrets ref cred \<longleftrightarrow> False"
| "vouched_by fs (MountedSecrets mount) ref cred \<longleftrightarrow> confined fs mount ref cred"
| "vouched_by fs (CallerSecrets f) ref cred \<longleftrightarrow> f ref = Inr cred"

interpretation server_secrets: secrets_backend_contract "resolve_with fs backend" "vouched_by fs backend" for fs backend
proof
  fix ref cred
  assume "resolve_with fs backend ref = Inr cred"
  then show "vouched_by fs backend ref cred"
    by (cases backend) (auto simp: resolve_with_def intro: mounted.resolved)
qed

text \<open>The connector of a call that refuses every connection but the one of the queue manager that the
  parameters name, with a credential that the backend of the server answers for.\<close>

definition own_connections :: "process_env \<Rightarrow> server \<Rightarrow> dict \<Rightarrow> 's connector \<Rightarrow> 's connector" where
  "own_connections pe srv params C =
     refusing (\<lambda>entry cred.
       (case map_of params (lit ''qm_name'') of
          Some (PStr qm) \<Rightarrow>
            inv_get (srv_inventory srv) qm = Inr entry \<and> vouched_by (pe_fs pe) (srv_secrets srv) (secret_ref entry) cred
        | _ \<Rightarrow> False)) C"

lemma server_tools_own:
  assumes "map_of params (lit ''qm_name'') = Some (PStr qm)"
  shows "all_tools (own_connections pe srv params C) rt (services_of pe srv) n d qm =
    all_tools C rt (services_of pe srv) n d qm"
  using server_secrets.tools_vouched [of "services_of pe srv" "pe_fs pe" "srv_secrets srv" qm C rt n d] assms
  by (simp add: own_connections_def services_of_def)

lemma need_qm_cong:
  "(\<And>qm. target = Some (PStr qm) \<Longrightarrow> f qm = g qm) \<Longrightarrow> need_qm target f = need_qm target g"
  by (auto simp: need_qm_def split: option.split pyval.split)

lemma call_tool_own:
  "call_tool (own_connections pe srv params C) pe ce srv tool params p = call_tool C pe ce srv tool params p"
proof -
  let ?D = "own_connections pe srv params C" and ?sv = "services_of pe srv"
  note same = server_tools_own [of params _ pe srv C, unfolded all_tools_def list.inject]
  show ?thesis
    unfolding call_tool_def Let_def handler_defs
    by (intro if_cong refl need_qm_cong) (simp_all add: same)
qed

text \<open>C13: Credentials stay apart: whatever a client sends, the dispatcher opens no connection but one to the
  queue manager that the call names, as it is in the inventory, with a credential that the configured
  backend answers for: for a mounted directory, one that was read from below its root, for the
  reference of that very queue manager, from files that nobody else can change. Refusing all other
  connections changes neither the answer, nor the server, nor the connector.\<close>
theorem own_credential_only:
  "dispatch (own_connections pe srv params C) pe ce token tool params srv s = dispatch C pe ce token tool params srv s"
proof -
  have own: "own_connections pe srv params C = own_connections pe srv' params C"
    if "srv_inventory srv' = srv_inventory srv" "srv_secrets srv' = srv_secrets srv" for srv'
    unfolding own_connections_def that by (rule refl)
  have step: "call_tool (own_connections pe srv params C) pe ce srv' tool params p = call_tool C pe ce srv' tool params p"
    if "srv_inventory srv' = srv_inventory srv" "srv_secrets srv' = srv_secrets srv" for srv' p
    unfolding own [OF that] by (rule call_tool_own)
  have "attempt_call (own_connections pe srv params C) pe ce token tool params srv s =
      attempt_call C pe ce token tool params srv s"
    by (auto simp: attempt_call_def authenticate_def Let_def step split: prod.split sum.split)
  then show ?thesis by (simp add: dispatch_def)
qed

end
