(* ===== verification/Telemetry.thy ===== *)
theory Telemetry
  imports Server_Setup
begin

text \<open>
  \<open>telemetry/setup.py\<close>: the set-up of logging and tracing, behind a flag of the module. The state is
  the flag and what the libraries were told, in order; the OTLP exporter is a third-party class, its
  constructor a function that can raise. At the end, the constructor of the server with its first
  step, which is this set-up.
\<close>

datatype telemetry_call =
    BasicConfig pystr
  | StructlogConfigure "pystr list"
  | TracerProvider pystr "pystr option"

record telemetry =
  tm_initialized :: bool
  tm_calls :: "telemetry_call list"

definition telemetry_start :: telemetry where
  "telemetry_start = \<lparr> tm_initialized = False, tm_calls = [] \<rparr>"

definition structlog_processors :: "pystr list" where
  "structlog_processors =
     [lit ''merge_contextvars'', lit ''add_log_level'', lit ''TimeStamper'', lit ''StackInfoRenderer'',
      lit ''format_exc_info'', lit ''JSONRenderer'']"

definition configure_telemetry ::
  "(pystr \<Rightarrow> exn + unit) \<Rightarrow> telemetry_config \<Rightarrow> telemetry \<Rightarrow> (exn + unit) \<times> telemetry" where
  "configure_telemetry new_exporter cfg tm =
     (if tm_initialized tm then (Inr (), tm)
      else
        let tm1 = tm\<lparr> tm_calls := tm_calls tm @ [BasicConfig (lit ''%(message)s''),
                        StructlogConfigure structlog_processors] \<rparr>
        in (case (if given (tc_otlp_endpoint cfg) then new_exporter (the (tc_otlp_endpoint cfg)) else Inr ()) of
              Inl e \<Rightarrow> (Inl e, tm1)
            | Inr _ \<Rightarrow>
                (Inr (), \<lparr> tm_initialized = True,
                   tm_calls = tm_calls tm1 @ [TracerProvider (tc_service_name cfg)
                     (if given (tc_otlp_endpoint cfg) then tc_otlp_endpoint cfg else None)] \<rparr>)))"

text \<open>\<open>MQSentinelServer.__init__\<close>: the set-up comes before everything else of the constructor.\<close>

definition start_server ::
  "(pystr \<Rightarrow> exn + unit) \<Rightarrow> host_env \<Rightarrow> settings \<Rightarrow> replacements \<Rightarrow> telemetry \<Rightarrow> (exn + server) \<times> telemetry" where
  "start_server new_exporter he st rp tm =
     (case configure_telemetry new_exporter (st_telemetry st) tm of
        (Inl e, tm') \<Rightarrow> (Inl e, tm')
      | (Inr _, tm') \<Rightarrow> (new_server he st rp, tm'))"

section \<open>At most one tracer provider\<close>

fun provider_of :: "telemetry_call \<Rightarrow> (pystr \<times> pystr option) option" where
  "provider_of (TracerProvider name endpoint) = Some (name, endpoint)"
| "provider_of _ = None"

definition providers :: "telemetry \<Rightarrow> (pystr \<times> pystr option) list" where
  "providers tm = List.map_filter provider_of (tm_calls tm)"

text \<open>Servers that are constructed in one process, one after the other, some with errors.\<close>

fun start_servers ::
  "(pystr \<Rightarrow> exn + unit) \<Rightarrow> (host_env \<times> settings \<times> replacements) list \<Rightarrow> telemetry \<Rightarrow> (exn + server) list \<times> telemetry" where
  "start_servers new_exporter [] tm = ([], tm)"
| "start_servers new_exporter ((he, st, rp) # rest) tm =
     (case start_server new_exporter he st rp tm of
        (r, tm') \<Rightarrow> (case start_servers new_exporter rest tm' of (rs, tm'') \<Rightarrow> (r # rs, tm'')))"

definition telemetry_ok :: "telemetry \<Rightarrow> bool" where
  "telemetry_ok tm \<longleftrightarrow> length (providers tm) = (if tm_initialized tm then 1 else 0)"

lemma providers_append [simp]:
  "providers (tm\<lparr> tm_calls := tm_calls tm @ cs \<rparr>) = providers tm @ List.map_filter provider_of cs"
  by (simp add: providers_def map_filter_def)

lemma configure_ok:
  assumes "configure_telemetry new_exporter cfg tm = (r, tm')" and "telemetry_ok tm"
  shows "telemetry_ok tm' \<and> (tm_initialized tm' \<longleftrightarrow> is_ok r) \<and> (tm_initialized tm \<longrightarrow> tm' = tm)"
proof -
  have len: "length (providers tm) = (if tm_initialized tm then 1 else 0)" using assms(2) by (simp add: telemetry_ok_def)
  show ?thesis
  proof (cases "tm_initialized tm")
    case True
    with assms show ?thesis by (auto simp: configure_telemetry_def)
  next
    case False
    with len have none: "filter (\<lambda>x. provider_of x \<noteq> None) (tm_calls tm) = []"
      by (simp add: providers_def map_filter_def)
    obtain q where q: "(if given (tc_otlp_endpoint cfg) then new_exporter (the (tc_otlp_endpoint cfg)) else Inr ()) = q"
      by blast
    from assms(1) False show ?thesis
      unfolding configure_telemetry_def Let_def q
      by (cases q) (use none in \<open>auto simp: telemetry_ok_def providers_def map_filter_def\<close>)
  qed
qed

lemma start_server_telemetry:
  "snd (start_server new_exporter he st rp tm) = snd (configure_telemetry new_exporter (st_telemetry st) tm)"
  by (auto simp: start_server_def split: prod.split sum.split)

lemma start_servers_fixed:
  "tm_initialized tm \<Longrightarrow> snd (start_servers new_exporter starts tm) = tm"
proof (induction starts)
  case (Cons x starts)
  obtain he st rp where x: "x = (he, st, rp)" by (rule prod_cases3)
  from Cons show ?case by (simp add: x start_server_def configure_telemetry_def case_prod_beta)
qed simp

text \<open>However many servers a process constructs, with whatever settings and failures, at most one
  tracer provider is installed, and exactly one once a set-up has succeeded: the first one, which no
  later server changes.\<close>
theorem one_tracer_provider:
  "telemetry_ok (snd (start_servers new_exporter starts telemetry_start)) \<and>
   (tm_initialized (snd (start_servers new_exporter starts telemetry_start)) \<longrightarrow>
      snd (start_servers new_exporter (starts @ later) telemetry_start) =
      snd (start_servers new_exporter starts telemetry_start))"
proof -
  have ok: "telemetry_ok tm \<Longrightarrow> telemetry_ok (snd (start_servers new_exporter starts tm))" for tm
  proof (induction starts arbitrary: tm)
    case (Cons x starts)
    obtain he st rp where x: "x = (he, st, rp)" by (rule prod_cases3)
    obtain r tm' where c: "configure_telemetry new_exporter (st_telemetry st) tm = (r, tm')" by force
    have "telemetry_ok (snd (start_server new_exporter he st rp tm))"
      using configure_ok [OF c Cons.prems] by (simp add: start_server_telemetry c)
    from Cons.IH [OF this] show ?case by (simp add: x case_prod_beta)
  qed simp
  have app: "snd (start_servers new_exporter (starts @ later) tm) =
      snd (start_servers new_exporter later (snd (start_servers new_exporter starts tm)))" for tm
    by (induction starts arbitrary: tm) (auto simp: case_prod_beta)
  have "telemetry_ok telemetry_start" by (simp add: telemetry_ok_def telemetry_start_def providers_def map_filter_def)
  from ok [OF this] show ?thesis by (simp add: app start_servers_fixed)
qed

text \<open>A server comes up exactly when the telemetry does and its own constructor succeeds; an exporter
  that cannot be built stops the first server of the process, before the audit log is opened.\<close>

lemma start_server_iff:
  "fst (start_server new_exporter he st rp tm) = Inr srv \<longleftrightarrow>
     is_ok (fst (configure_telemetry new_exporter (st_telemetry st) tm)) \<and> new_server he st rp = Inr srv"
  by (auto simp: start_server_def split: prod.split sum.split)

lemma bad_exporter_stops_start:
  assumes "new_exporter endpoint = Inl e" and "tc_otlp_endpoint (st_telemetry st) = Some endpoint" and "endpoint \<noteq> []"
    and "\<not> tm_initialized tm"
  shows "fst (start_server new_exporter he st rp tm) = Inl e"
  using assms by (simp add: start_server_def configure_telemetry_def given_def)

lemma one_tracer_provider_witness:
  "snd (start_servers (\<lambda>_. Inr ()) [(sample_host, prod_settings, no_replacements), (sample_host, default_settings, no_replacements)]
     telemetry_start) =
   snd (start_server (\<lambda>_. Inr ()) sample_host prod_settings no_replacements telemetry_start)"
proof -
  have one: "snd (start_servers (\<lambda>_. Inr ()) [(sample_host, prod_settings, no_replacements)] telemetry_start) =
      snd (start_server (\<lambda>_. Inr ()) sample_host prod_settings no_replacements telemetry_start)"
    by (simp add: case_prod_beta)
  have "tm_initialized (snd (start_servers (\<lambda>_. Inr ()) [(sample_host, prod_settings, no_replacements)] telemetry_start))"
    by (simp only: one start_server_telemetry)
      (simp add: configure_telemetry_def telemetry_start_def given_def Let_def split: sum.split)
  with one_tracer_provider [of "\<lambda>_. Inr ()" "[(sample_host, prod_settings, no_replacements)]"
      "[(sample_host, default_settings, no_replacements)]"] show ?thesis
    by (simp only: one append.simps simp_thms)
qed

end
