(* ===== verification/Doctor.thy ===== *)
theory Doctor
  imports Cli
begin

text \<open>
  The commands of \<open>cli/main.py\<close> that print: \<open>version\<close>, \<open>tools\<close>, \<open>info\<close> and \<open>doctor\<close>. A command is the
  list of the lines that it prints; \<open>doctor\<close> also has an exit code and touches the directory of the
  audit log, so it takes and returns the files it can see.
\<close>

section \<open>Static texts\<close>

abbreviation tick_mark :: pystr where "tick_mark \<equiv> [0x2713]"
abbreviation cross_mark :: pystr where "cross_mark \<equiv> [0x2717]"
abbreviation bullet_mark :: pystr where "bullet_mark \<equiv> [0x2022]"

definition rule_line :: pystr where
  "rule_line = replicate 40 61"

definition version_lines :: "pystr list" where
  "version_lines = [version]"

definition tool_lines :: "(pystr \<times> pystr) list \<Rightarrow> pystr list" where
  "tool_lines tools =
     [lit ''MQ-Sentinel Diagnostic Tools'', rule_line] @
     concat (map (\<lambda>(name, desc). [bullet_mark @ lit '' '' @ name, lit ''  '' @ desc, []]) tools) @
     [lit ''All tools are strictly read-only.'',
      lit ''Use via any MCP client (Claude Desktop, Cursor, etc.) or the HTTP API.'',
      lit ''Tip: mq-sentinel tools --json'']"

datatype tools_output = ToolsJson pyval | ToolsText "pystr list"

definition list_tools :: "bool \<Rightarrow> tools_output" where
  "list_tools json_output = (if json_output then ToolsJson tools_json else ToolsText (tool_lines cli_tools))"

definition info_lines :: "pystr list" where
  "info_lines =
     [lit ''MQ-Sentinel'', rule_line,
      lit ''Version: '' @ version,
      lit ''Tools:   '' @ str_nat info_tools_count @ lit '' diagnostic tools (all read-only)'',
      lit ''Flavors: '' @ lit ''Standalone, Multi-Instance, RDQM, Native HA (+CRR), Uniform/Traditional Cluster, '' @
        lit ''z/OS QSG, Appliance, Containerized'',
      [], lit ''Security highlights:'',
      lit ''  '' @ bullet_mark @ lit '' 3-layer read-only enforcement'',
      lit ''  '' @ bullet_mark @ lit '' Prompt-injection firewall + output sanitizer'',
      lit ''  '' @ bullet_mark @ lit '' Verified IBM Knowledge Center citations (CI-checked daily)'',
      lit ''  '' @ bullet_mark @ lit '' OIDC + RBAC with prod/nonprod scoping'',
      lit ''  '' @ bullet_mark @ lit '' Hash-chained tamper-evident audit'',
      lit ''  '' @ bullet_mark @ lit '' Distroless + signed images + SBOM'',
      [], lit ''Try:'', lit ''  mq-sentinel tools'', lit ''  mq-sentinel doctor'', lit ''  mq-sentinel serve'',
      [], lit ''Docs: https://github.com/pramodreddyboddu/mq-sentinel'']"

section \<open>The doctor\<close>

text \<open>
  What the interpreter and the operating system answer: the platform texts, the version of \<open>pymqi\<close>
  when it can be imported, and whether the directory of a path can be made, the path looked up,
  touched and removed.
\<close>

record doctor_env =
  de_python :: pystr
  de_executable :: pystr
  de_platform :: pystr
  de_pymqi :: "pystr option"
  de_make_parent :: "pystr \<Rightarrow> exn + unit"
  de_lookup :: "pystr \<Rightarrow> exn + unit"
  de_touch :: "pystr \<Rightarrow> exn + unit"
  de_unlink :: "pystr \<Rightarrow> exn + unit"

type_synonym files = "pystr \<Rightarrow> bytes option"

definition py_bool :: "bool \<Rightarrow> pystr" where
  "py_bool b = (if b then lit ''True'' else lit ''False'')"

definition pymqi_lines :: "pystr option \<Rightarrow> pystr list" where
  "pymqi_lines found =
     (case found of
        Some v \<Rightarrow>
          [tick_mark @ lit '' pymqi available (version '' @ v @ lit '')'',
           lit ''  Real MQ connections should work if client libraries are installed.'']
      | None \<Rightarrow>
          [cross_mark @ lit '' pymqi NOT installed'', lit ''  Real MQ connections will not work.'',
           lit ''  For development/demo use the built-in fixtures (make demo).'',
           lit ''  To use against real QMs: see docs/byom.md''])"

definition settings_lines :: "settings \<Rightarrow> pystr list" where
  "settings_lines st =
     [tick_mark @ lit '' Configuration loaded successfully'',
      lit ''  Environment: '' @ deployment_value (sv_environment (st_server st)),
      lit ''  Transport default: '' @ transport_value (sv_transport (st_server st)),
      lit ''  Auth disabled for local dev: '' @ py_bool (ac_disable_auth_for_local_dev (st_auth st)),
      lit ''  Audit log: '' @ au_log_path (st_audit st),
      lit ''  Read-only enforcement: '' @ py_bool (sc_enforce_readonly (st_security st))]"

text \<open>The check of the audit path: a file that exists is not opened, another is made and removed again.\<close>

definition audit_path_check :: "doctor_env \<Rightarrow> pystr \<Rightarrow> files \<Rightarrow> (exn + pystr) \<times> files" where
  "audit_path_check de path fs =
     (case de_make_parent de path of
        Inl e \<Rightarrow> (Inl e, fs)
      | Inr _ \<Rightarrow>
          (case de_lookup de path of
             Inl e \<Rightarrow> (Inl e, fs)
           | Inr _ \<Rightarrow>
               if fs path \<noteq> None then (Inr (tick_mark @ lit '' Audit log path is writable (file exists)''), fs)
               else (case de_touch de path of
                       Inl e \<Rightarrow> (Inl e, fs)
                     | Inr _ \<Rightarrow>
                         (case de_unlink de path of
                            Inl e \<Rightarrow> (Inl e, fs(path \<mapsto> []))
                          | Inr _ \<Rightarrow> (Inr (tick_mark @ lit '' Audit log path is writable''), (fs(path \<mapsto> []))(path := None))))))"

definition audit_path_lines :: "exn + pystr \<Rightarrow> pystr list" where
  "audit_path_lines r =
     (case r of Inr line \<Rightarrow> [line] | Inl e \<Rightarrow> [cross_mark @ lit '' Audit log path problem: '' @ exn_message e])"

definition doctor_head :: "doctor_env \<Rightarrow> pystr list" where
  "doctor_head de =
     [lit ''MQ-Sentinel Doctor'', rule_line, lit ''Version: '' @ version,
      lit ''Python:  '' @ de_python de @ lit '' ('' @ de_executable de @ lit '')'',
      lit ''Platform: '' @ de_platform de, []] @ pymqi_lines (de_pymqi de) @ [[]]"

definition doctor_tail :: "pystr list" where
  "doctor_tail =
     [[], lit ''Doctor complete. Most issues are fixed by:'', lit ''  - uv sync --extra dev'',
      lit ''  - Setting the right MQS_* environment variables'',
      lit ''  - Running inside the official container image'']"

definition doctor :: "doctor_env \<Rightarrow> exn + settings \<Rightarrow> files \<Rightarrow> int \<times> pystr list \<times> files" where
  "doctor de read_settings fs =
     (case load_settings read_settings of
        Inl e \<Rightarrow> (2, doctor_head de @ [cross_mark @ lit '' Failed to load configuration: '' @ exn_message e], fs)
      | Inr st \<Rightarrow>
          (case audit_path_check de (au_log_path (st_audit st)) fs of
             (r, fs') \<Rightarrow> (0, doctor_head de @ settings_lines st @ [[]] @ audit_path_lines r @ doctor_tail, fs')))"

section \<open>Properties\<close>

lemma audit_path_files:
  assumes "audit_path_check de path fs = (r, fs')"
  shows "fs' = fs \<or> fs path = None \<and> fs' = fs(path \<mapsto> []) \<and> (\<exists>e. de_unlink de path = Inl e \<and> r = Inl e)"
  using assms
  by (auto simp: audit_path_check_def fun_upd_idem split: sum.splits if_splits)

text \<open>The doctor diagnoses without treating: it exits with 0 exactly when the settings load, it never
  changes a file that exists, the audit log above all, and it leaves no file behind unless the
  operating system refuses to remove the one it made; a setting that is unsafe in production is
  reported, not used.\<close>
theorem doctor_changes_nothing:
  assumes "doctor de read_settings fs = (code, lines, fs')"
  shows "(code = 0 \<longleftrightarrow> is_ok (load_settings read_settings)) \<and> (code \<noteq> 0 \<longrightarrow> code = 2 \<and> fs' = fs) \<and>
    (\<forall>path b. fs path = Some b \<longrightarrow> fs' path = Some b) \<and>
    ((\<forall>path. is_ok (de_unlink de path)) \<longrightarrow> fs' = fs)"
proof (cases "load_settings read_settings")
  case (Inl e)
  with assms show ?thesis by (auto simp: doctor_def)
next
  case (Inr st)
  obtain r fs1 where c: "audit_path_check de (au_log_path (st_audit st)) fs = (r, fs1)" by force
  with assms Inr have fs': "fs' = fs1" "code = 0" by (auto simp: doctor_def)
  from audit_path_files [OF c] show ?thesis
  proof (elim disjE conjE exE)
    assume "fs1 = fs"
    with fs' Inr show ?thesis by simp
  next
    fix e
    assume new: "fs (au_log_path (st_audit st)) = None" "fs1 = fs(au_log_path (st_audit st) \<mapsto> [])"
      and "de_unlink de (au_log_path (st_audit st)) = Inl e"
    then have "\<not> is_ok (de_unlink de (au_log_path (st_audit st)))" by simp
    with new fs' Inr show ?thesis by auto
  qed
qed

definition sample_doctor :: doctor_env where
  "sample_doctor =
     \<lparr> de_python = lit ''3.12.3'', de_executable = lit ''python'', de_platform = lit ''Linux'', de_pymqi = None,
       de_make_parent = (\<lambda>_. Inr ()), de_lookup = (\<lambda>_. Inr ()), de_touch = (\<lambda>_. Inr ()), de_unlink = (\<lambda>_. Inr ()) \<rparr>"

lemma doctor_changes_nothing_witness:
  "\<exists>lines. doctor sample_doctor (Inr prod_settings) (\<lambda>_. None) = (0, lines, \<lambda>_. None)"
proof -
  obtain code lines fs' where d: "doctor sample_doctor (Inr prod_settings) (\<lambda>_. None) = (code, lines, fs')"
    by (rule prod_cases3)
  from doctor_changes_nothing [OF d] have "code = 0" "fs' = (\<lambda>_. None)"
    by (simp_all add: prod_settings_load sample_doctor_def)
  with d show ?thesis by simp
qed

text \<open>The tools that the command lists are in both of its outputs, by the same names in the same order.\<close>

lemma rule_line_head: "rule_line = 61 # replicate 39 61"
  using replicate_Suc [of 39 "61 :: nat"] by (simp add: rule_line_def)

lemma tools_outputs_agree:
  "map (\<lambda>(name, _). bullet_mark @ lit '' '' @ name) cli_tools =
     filter (\<lambda>l. prefix (bullet_mark @ lit '' '') l) (tool_lines cli_tools) \<and>
   info_tools_count = length cli_tools"
  by (simp add: tool_lines_def cli_tools_def info_tools_count_def rule_line_head) (simp add: lit_def)

end
