(* ===== verification/Link_Check.thy ===== *)
theory Link_Check
  imports KCRegistry Values "HOL-Library.Multiset" "HOL-Library.Product_Lexorder"
begin

text \<open>
  \<open>scripts/verify_kc_links.py\<close>: the daily check that every IBM page of the registry resolves. The HTTP
  client is a function from a URL to the class of the exception it raised or to the status and text
  of the answer; the thread pool gives the results in an order of its own.
\<close>

record link_result =
  lk_url :: pystr
  lk_title :: pystr
  lk_status :: "int option"
  lk_ok :: bool
  lk_note :: pystr

definition pass_statuses :: "int list" where
  "pass_statuses = [200]"

definition review_statuses :: "int list" where
  "review_statuses = [403, 429, 503]"

definition soft_404 :: "pystr \<Rightarrow> bool" where
  "soft_404 page =
     (let body = lower (take 8000 page) in
      sublist (lit ''the page you requested cannot be found'') body \<or> sublist (lit ''error 404'') body)"

definition check_one :: "(pystr \<Rightarrow> pystr + int \<times> pystr) \<Rightarrow> kc_doc_ref \<Rightarrow> link_result" where
  "check_one http_get ref =
     (let result = (\<lambda>status ok note. \<lparr> lk_url = doc_url ref, lk_title = doc_title ref, lk_status = status,
                      lk_ok = ok, lk_note = note \<rparr>) in
      case http_get (doc_url ref) of
        Inl cls \<Rightarrow> result None False (lit ''request_error: '' @ cls)
      | Inr (status, page) \<Rightarrow>
          if status \<in> set pass_statuses then
            if soft_404 page then result (Some status) False (lit ''soft_404_in_body'')
            else result (Some status) True (lit ''ok'')
          else if status \<in> set review_statuses then
            result (Some status) True (lit ''review:'' @ str_int status @ lit '' (IBM rate-limit/soft-block, not a 404)'')
          else result (Some status) False (lit ''bad_status:'' @ str_int status))"

text \<open>\<open>results.sort(key=lambda r: (r.ok, r.url))\<close>.\<close>

definition link_key :: "link_result \<Rightarrow> bool \<times> pystr" where
  "link_key r = (lk_ok r, lk_url r)"

definition sorted_results :: "link_result list \<Rightarrow> link_result list" where
  "sorted_results results = sort_key link_key results"

definition failures :: "link_result list \<Rightarrow> link_result list" where
  "failures results = filter (\<lambda>r. \<not> lk_ok r) results"

definition link_dict :: "link_result \<Rightarrow> pyval" where
  "link_dict r =
     PDict [(lit ''url'', PStr (lk_url r)), (lit ''title'', PStr (lk_title r)), (lit ''status'', of_opt_int (lk_status r)),
            (lit ''ok'', PBool (lk_ok r)), (lit ''note'', PStr (lk_note r))]"

definition link_lines :: "link_result \<Rightarrow> pystr list" where
  "link_lines r =
     ((if lk_ok r then [0x2705] else [0x274C]) @ lit '' ['' @
        (case lk_status r of Some s \<Rightarrow> str_int s | None \<Rightarrow> lit ''ERR'') @ lit ''] '' @ lk_title r) #
     (if \<not> lk_ok r \<or> prefix (lit ''review'') (lk_note r)
      then [lit ''     '' @ lk_url r @ lit ''  ('' @ lk_note r @ lit '')''] else [])"

text \<open>What the program prints: the JSON report or the lines of the text report.\<close>

datatype link_report = JsonReport pyval | TextReport "pystr list"

definition verify_links :: "bool \<Rightarrow> link_result list \<Rightarrow> link_report \<times> int" where
  "verify_links json completed =
     (let results = sorted_results completed; failed = failures results in
      (if json then JsonReport (PList (map link_dict results))
       else TextReport (concat (map link_lines results) @
         [[], lit ''Checked '' @ str_nat (length results) @ lit '' KC URLs '' @ emdash @ lit '' '' @
            str_nat (length failed) @ lit '' failed.'']),
       if failed \<noteq> [] then 1 else 0))"

section \<open>The order of completion\<close>

text \<open>Sorting by a key that tells the elements apart does not depend on their order.\<close>

lemma sort_key_unique:
  assumes "mset xs = mset ys" and "inj_on k (set xs)"
  shows "sort_key k xs = sort_key k ys"
proof (rule properties_for_sort_key)
  show "mset (sort_key k ys) = mset xs" using assms(1) by simp
  have eq: "set ys = set xs" using assms(1) by (metis mset_eq_setD)
  have one: "filter (\<lambda>y. k a = k y) zs = replicate (count_list zs a) a"
    if "a \<in> set xs" "set zs \<subseteq> set xs" for a zs
    using that(2)
  proof (induction zs)
    case (Cons z zs)
    then show ?case using inj_onD [OF assms(2), of a z] that(1) by auto
  qed simp
  show "filter (\<lambda>y. k a = k y) (sort_key k ys) = filter (\<lambda>y. k a = k y) xs" if "a \<in> set (sort_key k ys)" for a
  proof -
    have "count_list (sort_key k ys) a = count_list xs a"
      using assms(1) by (metis count_mset mset_sort)
    with that eq show ?thesis using one [of a "sort_key k ys"] one [of a xs] by simp
  qed
  show "sorted (map k (sort_key k ys))" by simp
qed

lemma check_one_url [simp]: "lk_url (check_one http_get ref) = doc_url ref"
  by (simp add: check_one_def Let_def split: sum.split prod.split)

lemma failures_sorted: "failures (sorted_results rs) = [] \<longleftrightarrow> (\<forall>r \<in> set rs. lk_ok r)"
  by (auto simp: failures_def sorted_results_def filter_empty_conv)

lemma exit_code: "snd (verify_links json rs) = (if \<forall>r \<in> set rs. lk_ok r then 0 else 1)"
  using failures_sorted [of rs] by (auto simp: verify_links_def Let_def)

text \<open>A page that resolves: any answer but an error, another status, or a page that says it is missing.\<close>

definition resolves :: "(pystr \<Rightarrow> pystr + int \<times> pystr) \<Rightarrow> pystr \<Rightarrow> bool" where
  "resolves http_get url =
     (case http_get url of
        Inl _ \<Rightarrow> False
      | Inr (status, page) \<Rightarrow> status = 200 \<and> \<not> soft_404 page \<or> status = 403 \<or> status = 429 \<or> status = 503)"

lemma check_one_ok: "lk_ok (check_one http_get ref) \<longleftrightarrow> resolves http_get (doc_url ref)"
  by (auto simp: check_one_def Let_def resolves_def pass_statuses_def review_statuses_def split: sum.split prod.split)



end
