(* ===== verification/Skill_Build.thy ===== *)
theory Skill_Build
  imports KCRegistry Inventory Values
begin

text \<open>
  \<open>packaging/agensi/build_skill.py\<close>: the build of the skill archive. A directory tree is a list of
  relative paths with what they lead to; a path is the list of its parts, and a file whose bytes are
  not UTF-8 has no text. The YAML, TOML and JSON readers are arguments.
\<close>

section \<open>Trees\<close>

type_synonym tree_path = "pystr list"

datatype tree_node = Directory | RegularFile "pystr option" | SymbolicLink

datatype skill_error = SystemExit pystr | Raised exn

text \<open>The parts of the environment: \<open>yaml.safe_load\<close> of the front matter, the entries under \<open>qms\<close> of
  the inventory template, and whether \<open>json.loads\<close> accepts a text.\<close>

record skill_env =
  se_yaml :: "pystr \<Rightarrow> exn + pyval"
  se_template_qms :: "pystr \<Rightarrow> exn + qm_entry list"
  se_json_ok :: "pystr \<Rightarrow> bool"

definition skill_name :: pystr where
  "skill_name = lit ''ibm-mq-diagnostics''"

definition placeholder :: pystr where
  "placeholder = lit ''{{VERSION}}''"

definition forbidden_names :: "pystr list" where
  "forbidden_names = [lit ''.DS_Store'', lit ''Thumbs.db'']"

definition token_char :: "nat \<Rightarrow> bool" where
  "token_char c \<longleftrightarrow> is_upper_letter c \<or> is_lower_letter c \<or> is_digit c \<or> c = 95"

definition at_least :: "nat \<Rightarrow> rx \<Rightarrow> rx" where
  "at_least n r = RSeq (RRep n r) (RStar r)"

definition secret_patterns :: "rx list" where
  "secret_patterns =
     [RSeq (RLit (lit ''-----BEGIN '')) (RSeq (RStar (RCls (\<lambda>c. is_upper_letter c \<or> c = 32)))
        (RLit (lit ''PRIVATE KEY-----''))),
      RSeq RWordB (RSeq (RLit (lit ''eyJ'')) (RSeq (at_least 20 (RCls (\<lambda>c. token_char c \<or> c = 45)))
        (RSeq (RLit (lit ''.'')) (at_least 10 (RCls (\<lambda>c. token_char c \<or> c = 45)))))),
      RSeq RWordB (RSeq
        (RAlt (RLit (lit ''AKIA'')) (RAlt (RLit (lit ''ghp_'')) (RAlt (RLit (lit ''gho_''))
          (RAlt (RLit (lit ''github_pat_'')) (RLit (lit ''sk-''))))))
        (at_least 16 (RCls token_char)))]"

definition path_text :: "pystr \<Rightarrow> tree_path \<Rightarrow> pystr" where
  "path_text root p = join (lit ''/'') (root # p)"

text \<open>\<open>path.suffix\<close>: from the last dot of the name, unless the dot comes first or last.\<close>

definition path_suffix :: "pystr \<Rightarrow> pystr" where
  "path_suffix name =
     (let ext = takeWhile (\<lambda>c. c \<noteq> 46) (rev name); stem = drop (Suc (length ext)) (rev name)
      in if ext \<noteq> [] \<and> stem \<noteq> [] then 46 # rev ext else [])"

text \<open>\<open>s.replace(old, new)\<close> for a non-empty \<open>old\<close>.\<close>

function replace_sub :: "pystr \<Rightarrow> pystr \<Rightarrow> pystr \<Rightarrow> pystr" where
  "replace_sub old new s =
     (case s of
        [] \<Rightarrow> []
      | c # rest \<Rightarrow>
          if old \<noteq> [] \<and> prefix old s then new @ replace_sub old new (drop (length old) s)
          else c # replace_sub old new rest)"
  by pat_completeness auto
termination
  by (relation "measure (\<lambda>(old, new, s). length s)") (auto simp: Suc_le_eq)

declare replace_sub.simps [simp del]

section \<open>The reference page\<close>

definition ref_row :: "pystr \<Rightarrow> kc_doc_ref \<Rightarrow> pystr" where
  "ref_row label r = lit ''| '' @ label @ lit '' | ['' @ doc_title r @ lit '']('' @ doc_url r @ lit '') |''"

definition reason_codes_lines :: "kc_registry \<Rightarrow> pystr list" where
  "reason_codes_lines reg =
     [lit ''# Reason codes, AMQ messages and topics MQ-Sentinel cites'', [],
      lit ''Generated from MQ-Sentinel'' @ [39] @ lit ''s documentation registry. Every link is an IBM'',
      lit ''Documentation page, checked daily in MQ-Sentinel'' @ [39] @ lit ''s CI. Findings carry these'',
      lit ''links in `doc_refs`: quote them as returned.'', [], lit ''## MQ reason codes (MQRC)'', [],
      lit ''| Code | IBM documentation |'', lit ''|---|---|''] @
     concat (map (\<lambda>code. map (ref_row (str_int code)) (lookup_reason reg code None)) (reason_codes reg)) @
     [[], lit ''## AMQ messages'', [], lit ''| Message | IBM documentation |'', lit ''|---|---|''] @
     concat (map (\<lambda>code. map (ref_row code) (lookup_amq reg code None)) (amq_codes reg)) @
     [[], lit ''## Topics'', [], lit ''| Topic | IBM documentation |'', lit ''|---|---|''] @
     concat (map (\<lambda>topic. map (ref_row (lit ''`'' @ topic @ lit ''`'')) (lookup_topic reg topic None))
       (sort (map fst (by_topic reg)))) @
     [[], lit ''## Connection errors you may see from MQ-Sentinel itself'', [], lit ''| Message | Meaning |'',
      lit ''|---|---|'',
      lit ''| `failed to connect ... (MQRC 2035)` '' @
        lit ''| MQ-Sentinel'' @ [39] @ lit ''s MQ user or CHLAUTH rule doesn'' @ [39] @ lit ''t allow it in |'',
      lit ''| `(MQRC 2059)` / `(MQRC 2538)` '' @
        lit ''| Queue manager or listener unreachable (host, port, firewall, listener) |'',
      lit ''| `(MQRC 2393)` / `(MQRC 2397)` '' @
        lit ''| TLS problem: CipherSpec mismatch, key repository or certificate label |'',
      []]"

definition reason_codes_markdown :: pystr where
  "reason_codes_markdown = join newline (reason_codes_lines default_registry)"

section \<open>Staging\<close>

text \<open>Reading the source follows links, so its tree lists what a link leads to; a link that is left in
  it leads nowhere.\<close>

definition page_path :: tree_path where
  "page_path = [lit ''references'', lit ''reason-codes.md'']"

definition stage_file :: "pystr \<Rightarrow> tree_path \<times> tree_node \<Rightarrow> (tree_path \<times> pystr) list \<Rightarrow> skill_error + (tree_path \<times> pystr) list" where
  "stage_file version entry staged =
     (case entry of (p, node) \<Rightarrow>
        if node = Directory \<or> last p \<in> set forbidden_names then Inr staged
        else (case node of
                RegularFile (Some s) \<Rightarrow> Inr (dict_set p (replace_sub placeholder version s) staged)
              | RegularFile None \<Rightarrow> Inl (Raised (ValueError (lit ''UnicodeDecodeError'')))
              | _ \<Rightarrow> Inl (Raised (FileNotFoundError (last p)))))"

fun stage_files :: "pystr \<Rightarrow> (tree_path \<times> tree_node) list \<Rightarrow> (tree_path \<times> pystr) list \<Rightarrow> skill_error + (tree_path \<times> pystr) list" where
  "stage_files version [] staged = Inr staged"
| "stage_files version (e # es) staged = bind_res (stage_file version e staged) (stage_files version es)"

text \<open>The page is written last; its directory exists when a file was staged below it.\<close>

definition stage :: "(tree_path \<times> tree_node) list \<Rightarrow> pystr \<Rightarrow> skill_error + (tree_path \<times> pystr) list" where
  "stage source_tree version =
     bind_res (stage_files version (sort_key fst source_tree) []) (\<lambda>staged.
       if list_ex (\<lambda>(p, _). length p > 1 \<and> hd p = lit ''references'') staged then
         Inr (dict_set page_path reason_codes_markdown staged)
       else Inl (Raised (FileNotFoundError (lit ''reason-codes.md''))))"

section \<open>Checking\<close>

definition any_char :: rx where
  "any_char = RCls (\<lambda>_. True)"

definition frontmatter :: rx where
  "frontmatter =
     RSeq RBos (RSeq (RLit (lit ''---'' @ newline)) (RSeq (RGrp 1 (RLazy any_char))
       (RSeq (RLit (newline @ lit ''---'' @ newline)) (RGrp 2 (RPlus any_char)))))"

text \<open>\<open>str(v).startswith("Use when")\<close>: the text of no other value starts so.\<close>

definition front_ok :: "pyval \<Rightarrow> skill_error + unit" where
  "front_ok front =
     (case front of
        PDict d \<Rightarrow>
          if map_of d (lit ''name'') \<noteq> Some (PStr skill_name) \<or>
             (case map_of d (lit ''description'') of Some (PStr s) \<Rightarrow> \<not> prefix (lit ''Use when'') s | _ \<Rightarrow> True)
          then Inl (SystemExit (lit ''frontmatter needs name == folder and a '' @ [39] @ lit ''Use when ...'' @ [39] @
            lit '' description''))
          else Inr ()
      | _ \<Rightarrow> Inl (Raised (AttributeError (lit ''get''))))"

definition read_file :: "(tree_path \<times> tree_node) list \<Rightarrow> tree_path \<Rightarrow> skill_error + pystr" where
  "read_file tree p =
     (case map_of tree p of
        Some (RegularFile (Some s)) \<Rightarrow> Inr s
      | Some (RegularFile None) \<Rightarrow> Inl (Raised (ValueError (lit ''UnicodeDecodeError'')))
      | _ \<Rightarrow> Inl (Raised (FileNotFoundError (last p))))"

definition check_node :: "skill_env \<Rightarrow> pystr \<Rightarrow> tree_path \<times> tree_node \<Rightarrow> skill_error + unit" where
  "check_node env root entry =
     (case entry of
        (p, SymbolicLink) \<Rightarrow> Inl (SystemExit (lit ''symlink not allowed: '' @ path_text root p))
      | (p, Directory) \<Rightarrow> Inr ()
      | (p, RegularFile None) \<Rightarrow> Inl (Raised (ValueError (lit ''UnicodeDecodeError'')))
      | (p, RegularFile (Some s)) \<Rightarrow>
          if sublist placeholder s then Inl (SystemExit (lit ''unfilled placeholder in '' @ path_text root p))
          else if list_ex (\<lambda>r. re_search r s \<noteq> None) secret_patterns then
            Inl (SystemExit (lit ''possible secret in '' @ path_text root p))
          else if path_suffix (last p) = lit ''.json'' \<and> \<not> se_json_ok env s then
            Inl (Raised (ValueError (lit ''JSONDecodeError'')))
          else Inr ())"

fun or_raise :: "exn + 'a \<Rightarrow> skill_error + 'a" where
  "or_raise (Inl e) = Inl (Raised e)"
| "or_raise (Inr x) = Inr x"

definition check :: "skill_env \<Rightarrow> pystr \<Rightarrow> (tree_path \<times> tree_node) list \<Rightarrow> skill_error + unit" where
  "check env root tree =
     bind_res (read_file tree [lit ''SKILL.md'']) (\<lambda>skill_md.
     bind_res (case re_match frontmatter skill_md of
                 None \<Rightarrow> Inl (SystemExit (lit ''SKILL.md needs YAML frontmatter followed by instructions''))
               | Some m \<Rightarrow> or_raise (se_yaml env (case m_group 1 m of Some g \<Rightarrow> g | None \<Rightarrow> [])))
       (\<lambda>front.
     bind_res (front_ok front) (\<lambda>_.
     bind_res (traverse (check_node env root) tree) (\<lambda>_.
     bind_res (read_file tree [lit ''templates'', lit ''inventory.yaml'']) (\<lambda>template.
     bind_res (or_raise (bind_res (se_template_qms env template) (traverse QMEntry))) (\<lambda>_.
     Inr ()))))))"

section \<open>Building\<close>

definition staged_tree :: "(tree_path \<times> pystr) list \<Rightarrow> (tree_path \<times> tree_node) list" where
  "staged_tree staged = map (\<lambda>(p, s). (p, RegularFile (Some s))) staged"

definition archive_name :: "pystr \<Rightarrow> bool \<Rightarrow> pystr" where
  "archive_name version flat = skill_name @ lit ''-'' @ version @ (if flat then lit ''-flat'' else []) @ lit ''.zip''"

definition build ::
  "skill_env \<Rightarrow> (tree_path \<times> tree_node) list \<Rightarrow> pystr \<Rightarrow> bool \<Rightarrow> skill_error + pystr \<times> (pystr \<times> pystr) list" where
  "build env source_tree version flat =
     bind_res (stage source_tree version) (\<lambda>staged.
     bind_res (check env skill_name (staged_tree staged)) (\<lambda>_.
       Inr (archive_name version flat,
            map (\<lambda>(p, s). (join (lit ''/'') (if flat then p else skill_name # p), s)) (sort_key fst staged))))"

section \<open>Filling in the version\<close>

lemma replace_sub_Nil [simp]: "replace_sub old new [] = []"
  by (simp add: replace_sub.simps)

lemma replace_sub_Cons:
  "replace_sub old new (c # rest) =
     (if old \<noteq> [] \<and> prefix old (c # rest) then new @ replace_sub old new (drop (length old) (c # rest))
      else c # replace_sub old new rest)"
  by (simp add: replace_sub.simps [of old new "c # rest"])

lemma replace_sub_prefix:
  "prefix q (replace_sub old new s) \<Longrightarrow> new \<noteq> [] \<Longrightarrow> set q \<inter> set new = {} \<Longrightarrow> prefix q s"
proof (induction old new s arbitrary: q rule: replace_sub.induct)
  case (1 old new s)
  show ?case
  proof (cases s)
    case Nil
    with 1(3) show ?thesis by simp
  next
    case (Cons c rest)
    show ?thesis
    proof (cases "old \<noteq> [] \<and> prefix old s")
      case True
      with 1(3) Cons have "prefix q (new @ replace_sub old new (drop (length old) s))"
        by (simp add: replace_sub_Cons)
      with 1(4,5) have "q = []" by (cases q; cases new) auto
      then show ?thesis by simp
    next
      case False
      with 1(3) Cons have pre: "prefix q (c # replace_sub old new rest)"
        by (auto simp: replace_sub_Cons)
      show ?thesis
      proof (cases q)
        case (Cons d q')
        with pre have "d = c" "prefix q' (replace_sub old new rest)" by auto
        moreover from this(2) have "prefix q' rest"
          using 1(2) [OF \<open>s = c # rest\<close> False] 1(4,5) Cons by auto
        ultimately show ?thesis using Cons \<open>s = c # rest\<close> by simp
      qed simp
    qed
  qed
qed

lemma sublist_skip: "sublist q (new @ t) \<Longrightarrow> q \<noteq> [] \<Longrightarrow> set q \<inter> set new = {} \<Longrightarrow> sublist q t"
proof (induction new)
  case (Cons c new)
  then have "\<not> prefix q (c # new @ t)" by (cases q) auto
  with Cons show ?case by (auto simp: sublist_Cons_right)
qed simp

text \<open>Filling a placeholder with a text that shares no character with it leaves none behind.\<close>

lemma replace_sub_clean:
  "new \<noteq> [] \<Longrightarrow> old \<noteq> [] \<Longrightarrow> set old \<inter> set new = {} \<Longrightarrow> \<not> sublist old (replace_sub old new s)"
proof (induction old new s rule: replace_sub.induct)
  case (1 old new s)
  show ?case
  proof (cases s)
    case Nil
    with 1 show ?thesis by simp
  next
    case (Cons c rest)
    show ?thesis
    proof (cases "prefix old s")
      case True
      with 1(3-5) 1(1) Cons have "\<not> sublist old (replace_sub old new (drop (length old) s))" by auto
      with sublist_skip [of old new] 1(4,5) True Cons show ?thesis
        by (auto simp: replace_sub_Cons)
    next
      case False
      with 1(3-5) 1(2) Cons have "\<not> sublist old (replace_sub old new rest)" by auto
      moreover have "\<not> prefix old (replace_sub old new s)"
        using replace_sub_prefix [of old old new s] False 1(3,5) by blast
      ultimately show ?thesis
        using False Cons by (auto simp: replace_sub_Cons sublist_Cons_right)
    qed
  qed
qed

section \<open>The page\<close>

lemma sublist_join: "w \<in> set ws \<Longrightarrow> sublist w (join sep ws)"
proof (induction sep ws rule: join.induct)
  case (3 sep w' v ws)
  have "sublist (join sep (v # ws)) ((w' @ sep) @ join sep (v # ws))" by (rule sublist_append_leftI)
  with 3 show ?case by (auto intro: sublist_order.order.trans)
qed auto

lemma amq_keys_upper: "list_all (\<lambda>k. upper k = k) (map fst amq_table)"
  by (simp add: amq_table_def upper_def upper_cp_def is_lower_letter_def upper_specials_def lit_def)

lemma refs_at_key: "r \<in> set (refs_at t k) \<Longrightarrow> k \<in> fst ` set t"
  by (cases "map_of t k") (auto simp: refs_at_def dest: map_of_SomeD intro: rev_image_eqI)

lemma braceless_tables:
  "list_all (\<lambda>r. 123 \<notin> set (doc_title r) \<and> 123 \<notin> set (doc_url r)) (bucket_refs reason_table)"
  "list_all (\<lambda>r. 123 \<notin> set (doc_title r) \<and> 123 \<notin> set (doc_url r)) (bucket_refs amq_table)"
  "list_all (\<lambda>r. 123 \<notin> set (doc_title r) \<and> 123 \<notin> set (doc_url r)) (bucket_refs topic_table)"
  "list_all (\<lambda>k. 123 \<notin> set k) (map fst amq_table)"
  "list_all (\<lambda>k. 123 \<notin> set k) (map fst topic_table)"
  by (simp_all add: bucket_refs_def reason_table_def amq_table_def topic_table_def lit_def)

lemma no_brace_join: "(\<And>w. w \<in> set ws \<Longrightarrow> c \<notin> set w) \<Longrightarrow> c \<notin> set sep \<Longrightarrow> c \<notin> set (join sep ws)"
  using set_join [of sep ws] by blast

lemma ref_row_brace:
  "123 \<in> set (ref_row label r) \<longleftrightarrow> 123 \<in> set label \<or> 123 \<in> set (doc_title r) \<or> 123 \<in> set (doc_url r)"
  by (simp add: ref_row_def) (simp add: lit_def)

lemma digits_no_brace: "123 \<notin> set (str_int i)"
  using set_str_int [of 123 i] by (auto simp: is_digit_def)

lemma lookup_brace:
  assumes "list_all (\<lambda>r. 123 \<notin> set (doc_title r) \<and> 123 \<notin> set (doc_url r)) (bucket_refs t)"
    and "r \<in> set (filter_version (refs_at t k) v)"
  shows "123 \<notin> set (doc_title r) \<and> 123 \<notin> set (doc_url r)"
  using assms filter_version_sub refs_at_sub by (fastforce simp: list_all_iff)

lemma page_braces:
  "list_all (\<lambda>w. 123 \<notin> set w)
     (concat (map (\<lambda>code. map (ref_row (str_int code)) (lookup_reason default_registry code None)) codes))"
  "list_all (\<lambda>w. 123 \<notin> set w)
     (concat (map (\<lambda>code. map (ref_row code) (lookup_amq default_registry code None)) (amq_codes default_registry)))"
  "list_all (\<lambda>w. 123 \<notin> set w)
     (concat (map (\<lambda>topic. map (ref_row (lit ''`'' @ topic @ lit ''`'')) (lookup_topic default_registry topic None))
       (sort (map fst (by_topic default_registry)))))"
proof -
  note look = lookup_brace [OF braceless_tables(1)] lookup_brace [OF braceless_tables(2)] lookup_brace [OF braceless_tables(3)]
  have keys: "123 \<notin> set k" if "k \<in> set (map fst amq_table) \<union> set (map fst topic_table)" for k
    using that braceless_tables(4,5) by (auto simp: list_all_iff)
  have tick: "123 \<notin> set (lit ''`'')" by (simp add: lit_def)
  show "list_all (\<lambda>w. 123 \<notin> set w)
     (concat (map (\<lambda>code. map (ref_row (str_int code)) (lookup_reason default_registry code None)) codes))"
    unfolding list_all_iff using look(1) digits_no_brace
    by (auto simp: lookup_reason_def default_registry_def ref_row_brace)
  show "list_all (\<lambda>w. 123 \<notin> set w)
     (concat (map (\<lambda>code. map (ref_row code) (lookup_amq default_registry code None)) (amq_codes default_registry)))"
    unfolding list_all_iff using look(2) keys
    by (auto simp: lookup_amq_def amq_codes_def default_registry_def ref_row_brace)
  show "list_all (\<lambda>w. 123 \<notin> set w)
     (concat (map (\<lambda>topic. map (ref_row (lit ''`'' @ topic @ lit ''`'')) (lookup_topic default_registry topic None))
       (sort (map fst (by_topic default_registry)))))"
    unfolding list_all_iff using look(3) keys tick
    by (auto simp: lookup_topic_def default_registry_def ref_row_brace)
qed

lemma markdown_brace: "123 \<notin> set reason_codes_markdown"
proof -
  have "list_all (\<lambda>w. 123 \<notin> set w) (reason_codes_lines default_registry)"
    unfolding reason_codes_lines_def list_all_append
    by (intro conjI page_braces) (simp_all add: lit_def)
  then show ?thesis
    unfolding reason_codes_markdown_def by (intro no_brace_join) (auto simp: list_all_iff)
qed

section \<open>Staging and building\<close>

lemma stage_files_clean:
  assumes "stage_files version es staged = Inr out"
    and "version \<noteq> []" "set placeholder \<inter> set version = {}"
    and "list_all (\<lambda>(p, s). \<not> sublist placeholder s) staged"
  shows "list_all (\<lambda>(p, s). \<not> sublist placeholder s) out"
  using assms(1,4)
proof (induction es arbitrary: staged)
  case (Cons e es)
  obtain p node where e: "e = (p, node)" by force
  have ne: "placeholder \<noteq> []" by (simp add: placeholder_def)
  from Cons.prems(1) obtain mid where mid: "stage_file version e staged = Inr mid" "stage_files version es mid = Inr out"
    by auto
  have upd: "list_all (\<lambda>(p, s). \<not> sublist placeholder s) (dict_set p t d)"
    if "\<not> sublist placeholder t" "list_all (\<lambda>(p, s). \<not> sublist placeholder s) d" for p t and d :: "(tree_path \<times> pystr) list"
    using that by (induction p t d rule: dict_set.induct) auto
  have "list_all (\<lambda>(p, s). \<not> sublist placeholder s) mid"
    using mid(1) Cons.prems(2) upd replace_sub_clean [OF assms(2) ne assms(3)]
    by (auto simp: stage_file_def e split: if_splits tree_node.splits option.splits)
  with Cons.IH [OF mid(2)] show ?case by blast
qed simp

text \<open>Whatever the source holds, no staged file keeps the placeholder, when the version shares no
  character with it: so the check never refuses a build for it.\<close>

lemma staged_placeholder_free:
  assumes "stage source_tree version = Inr staged" and "version \<noteq> []" and "set placeholder \<inter> set version = {}"
  shows "list_all (\<lambda>(p, s). \<not> sublist placeholder s) staged"
proof -
  from assms(1) obtain files where f: "stage_files version (sort_key fst source_tree) [] = Inr files"
    "staged = dict_set page_path reason_codes_markdown files"
    by (auto simp: stage_def split: if_splits)
  have files: "list_all (\<lambda>(p, s). \<not> sublist placeholder s) files"
    by (rule stage_files_clean [OF f(1) assms(2,3)]) simp
  have "123 \<in> set placeholder" by (simp add: placeholder_def lit_def)
  then have "\<not> sublist placeholder reason_codes_markdown"
    using markdown_brace set_mono_sublist by blast
  with files show ?thesis
    unfolding f(2) by (induction page_path reason_codes_markdown files rule: dict_set.induct) auto
qed

lemma stage_files_paths:
  "stage_files version es staged = Inr out \<Longrightarrow> fst ` set out \<subseteq> fst ` set staged \<union> fst ` set es"
proof (induction es arbitrary: staged)
  case (Cons e es)
  obtain p node where e: "e = (p, node)" by force
  from Cons.prems obtain mid where mid: "stage_file version e staged = Inr mid" "stage_files version es mid = Inr out"
    by auto
  from mid(1) have "mid = staged \<or> (\<exists>t. mid = dict_set p t staged)"
    by (auto simp: stage_file_def e split: if_splits tree_node.splits option.splits)
  then have "fst ` set mid \<subseteq> insert p (fst ` set staged)" by (elim disjE exE) (simp_all only: key_set_dict_set, blast+)
  with Cons.IH [OF mid(2)] show ?case unfolding e by (simp only: list.set image_insert fst_conv) blast
qed simp

lemma stage_paths: "stage source_tree version = Inr staged \<Longrightarrow> fst ` set staged \<subseteq> insert page_path (fst ` set source_tree)"
proof -
  assume "stage source_tree version = Inr staged"
  then obtain files where files: "stage_files version (sort_key fst source_tree) [] = Inr files"
    and staged: "staged = dict_set page_path reason_codes_markdown files" by (auto simp: stage_def split: if_splits)
  have "fst ` set files \<subseteq> fst ` set source_tree" using stage_files_paths [OF files] by simp
  then show ?thesis unfolding staged key_set_dict_set by blast
qed

lemma traverse_ok: "traverse f xs = Inr ys \<Longrightarrow> x \<in> set xs \<Longrightarrow> \<exists>y. f x = Inr y"
  by (induction xs arbitrary: ys) auto

lemma map_of_staged: "map_of (staged_tree staged) p = map_option (\<lambda>s. RegularFile (Some s)) (map_of staged p)"
  by (induction staged) (auto simp: staged_tree_def)

lemma read_staged: "read_file (staged_tree staged) p = Inr s \<longleftrightarrow> map_of staged p = Some s"
  by (cases "map_of staged p") (simp_all add: read_file_def map_of_staged)

lemma or_raise_Inr [simp]: "or_raise r = Inr x \<longleftrightarrow> r = Inr x"
  by (cases r) auto

text \<open>C36: What is built can be submitted: the archive holds exactly the staged files, below one folder of
  the name of the skill unless it is flat; no file has an unfilled placeholder or a text that looks
  like a key or a token; the page of reason codes is the one of the registry; and the template loads
  into an inventory of valid entries.\<close>
theorem skill_archive_clean:
  assumes "build env source_tree version flat = Inr (name, entries)" and "[] \<notin> fst ` set source_tree"
  shows "\<exists>staged. stage source_tree version = Inr staged \<and>
    set entries = (\<lambda>(p, s). (join (lit ''/'') (if flat then p else skill_name # p), s)) ` set staged \<and>
    map_of staged page_path = Some reason_codes_markdown \<and> map_of staged [lit ''SKILL.md''] \<noteq> None \<and>
    (\<forall>(n, s) \<in> set entries. \<not> sublist placeholder s \<and> (\<forall>r \<in> set secret_patterns. re_search r s = None) \<and>
      (flat \<or> prefix (skill_name @ lit ''/'') n)) \<and>
    (\<exists>template es. map_of staged [lit ''templates'', lit ''inventory.yaml''] = Some template \<and>
      se_template_qms env template = Inr es \<and> list_all valid_entry es)"
proof -
  from assms(1) obtain staged where st: "stage source_tree version = Inr staged"
    and ch: "check env skill_name (staged_tree staged) = Inr ()"
    and en: "entries = map (\<lambda>(p, s). (join (lit ''/'') (if flat then p else skill_name # p), s)) (sort_key fst staged)"
    by (auto simp: build_def)
  from st have page: "map_of staged page_path = Some reason_codes_markdown"
    by (auto simp: stage_def map_of_dict_set split: if_splits)
  from ch obtain skill_md nodes template xs es where
    md: "map_of staged [lit ''SKILL.md''] = Some skill_md"
    and nodes: "traverse (check_node env skill_name) (staged_tree staged) = Inr nodes"
    and te: "map_of staged [lit ''templates'', lit ''inventory.yaml''] = Some template"
      "se_template_qms env template = Inr xs" "traverse QMEntry xs = Inr es"
    by (auto simp: check_def read_staged)
  have clean: "\<not> sublist placeholder s \<and> (\<forall>r \<in> set secret_patterns. re_search r s = None)"
    if "(p, s) \<in> set staged" for p s
  proof -
    have "(p, RegularFile (Some s)) \<in> set (staged_tree staged)" using that by (force simp: staged_tree_def)
    from traverse_ok [OF nodes this] show ?thesis
      by (auto simp: check_node_def list_ex_iff split: if_splits)
  qed
  have folder: "prefix (skill_name @ lit ''/'') (join (lit ''/'') (skill_name # p))" if "(p, s) \<in> set staged" for p s
  proof -
    have "p \<in> fst ` set staged" using that by (force intro: rev_image_eqI)
    with stage_paths [OF st] have "p = page_path \<or> p \<in> fst ` set source_tree" by blast
    with assms(2) have "p \<noteq> []" by (cases "p = []") (simp_all add: page_path_def)
    then show ?thesis by (cases p) (simp_all add: prefix_def)
  qed
  have valid: "list_all valid_entry xs" using traverse_QMEntry [OF te(3)] by auto
  show ?thesis
    using st page md te(1,2) valid clean folder
    by (intro exI [of _ staged]) (cases flat; auto simp: en)
qed

text \<open>C37: The skill documents what the server cites: every page that a finding can refer to, for whatever
  reason code, message or topic and whatever version, is in a row of the generated page.\<close>
theorem skill_cites_findings:
  assumes "r \<in> set (lookup_reason default_registry c v) \<or> r \<in> set (lookup_amq default_registry a v) \<or>
    r \<in> set (lookup_topic default_registry t v)"
  shows "\<exists>label. sublist (ref_row label r) reason_codes_markdown"
proof -
  have none: "filter_version refs None = refs" for refs by (simp add: filter_version_def)
  have row: "\<exists>label. ref_row label r \<in> set (reason_codes_lines default_registry)"
    using assms
  proof (elim disjE)
    assume "r \<in> set (lookup_reason default_registry c v)"
    then have r: "r \<in> set (refs_at reason_table c)"
      using filter_version_sub by (auto simp: lookup_reason_def default_registry_def)
    then have "ref_row (str_int c) r \<in> set (reason_codes_lines default_registry)"
      using refs_at_key [OF r] unfolding reason_codes_lines_def
      by (force simp: lookup_reason_def none default_registry_def reason_codes_def)
    then show ?thesis by blast
  next
    assume "r \<in> set (lookup_amq default_registry a v)"
    then have r: "r \<in> set (refs_at amq_table (upper a))"
      using filter_version_sub by (auto simp: lookup_amq_def default_registry_def)
    then have key: "upper a \<in> set (map fst amq_table)" using refs_at_key [OF r] by simp
    with amq_keys_upper have "upper (upper a) = upper a" unfolding list_all_iff by blast
    with r key have "ref_row (upper a) r \<in> set (reason_codes_lines default_registry)"
      unfolding reason_codes_lines_def
      by (force simp: lookup_amq_def none default_registry_def amq_codes_def)
    then show ?thesis by blast
  next
    assume "r \<in> set (lookup_topic default_registry t v)"
    then have r: "r \<in> set (refs_at topic_table t)"
      using filter_version_sub by (auto simp: lookup_topic_def default_registry_def)
    then have "ref_row (lit ''`'' @ t @ lit ''`'') r \<in> set (reason_codes_lines default_registry)"
      using refs_at_key [OF r] unfolding reason_codes_lines_def
      by (force simp: lookup_topic_def none default_registry_def)
    then show ?thesis by blast
  qed
  then show ?thesis unfolding reason_codes_markdown_def using sublist_join by blast
qed

section \<open>The page has no secrets\<close>

text \<open>A literal that every match of a pattern contains; the page of the registry has none of them.\<close>

definition secret_markers :: "pystr list" where
  "secret_markers = [lit ''BEGIN'', lit ''eyJ'', lit ''AKIA'', lit ''ghp_'', lit ''gho_'', lit ''github_pat_'', lit ''sk-'']"

definition marker_free :: "pystr \<Rightarrow> bool" where
  "marker_free s \<longleftrightarrow> list_all (\<lambda>m. \<not> sublist m s) secret_markers"

lemmas marker_eval = bucket_refs_def marker_free_def secret_markers_def lit_def sublist_Cons_right

lemma marker_reasons: "list_all (\<lambda>r. marker_free (doc_title r) \<and> marker_free (doc_url r)) (bucket_refs reason_table)"
  by (simp add: reason_table_def marker_eval)

lemma marker_amqs:
  "list_all (\<lambda>r. marker_free (doc_title r) \<and> marker_free (doc_url r)) (bucket_refs amq_table)"
  "list_all marker_free (map fst amq_table)"
  by (simp_all add: amq_table_def marker_eval)

lemma marker_topics:
  "list_all (\<lambda>r. marker_free (doc_title r) \<and> marker_free (doc_url r)) (bucket_refs topic_table)"
  "list_all marker_free (map fst topic_table)"
  by (simp_all add: topic_table_def marker_eval)

lemma sublist_at_sep:
  assumes "sublist w (xs @ c # ys)" and "c \<notin> set w"
  shows "sublist w xs \<or> sublist w ys"
proof -
  from assms(1) consider "sublist w xs" | "sublist w (c # ys)"
    | us vs where "w = us @ vs" "suffix us xs" "prefix vs (c # ys)"
    unfolding sublist_append by blast
  then show ?thesis
  proof cases
    case 1
    then show ?thesis ..
  next
    case 2
    with assms(2) show ?thesis by (cases w) (auto simp: sublist_Cons_right)
  next
    case 3
    with assms(2) have "vs = []" by (cases vs) auto
    with 3 show ?thesis by (simp add: suffix_imp_sublist)
  qed
qed

lemma markers_letters: "m \<in> set secret_markers \<Longrightarrow> set m \<inter> {10, 32, 40, 41, 91, 93, 96, 124} = {} \<and> m \<noteq> []"
  by (auto simp: secret_markers_def lit_def)

lemma marker_free_sep:
  assumes "c \<in> {10, 32, 40, 41, 91, 93, 96, 124}" and "marker_free xs" and "marker_free ys"
  shows "marker_free (xs @ c # ys)"
  unfolding marker_free_def list_all_iff
proof (intro ballI notI)
  fix m
  assume m: "m \<in> set secret_markers" and sub: "sublist m (xs @ c # ys)"
  have "c \<notin> set m" using markers_letters [OF m] assms(1) by blast
  from sublist_at_sep [OF sub this] m assms(2,3) show False by (auto simp: marker_free_def list_all_iff)
qed

lemma marker_free_Nil [simp]: "marker_free []"
  using markers_letters by (auto simp: marker_free_def list_all_iff)

lemma marker_free_Cons: "c \<in> {10, 32, 40, 41, 91, 93, 96, 124} \<Longrightarrow> marker_free ys \<Longrightarrow> marker_free (c # ys)"
  using marker_free_sep [of c "[]" ys] by simp

lemma marker_free_digits: "(\<And>c. c \<in> set s \<Longrightarrow> is_digit c \<or> c = 45) \<Longrightarrow> marker_free s"
proof -
  assume digits: "\<And>c. c \<in> set s \<Longrightarrow> is_digit c \<or> c = 45"
  have "\<exists>c \<in> set m. \<not> is_digit c \<and> c \<noteq> 45" if "m \<in> set secret_markers" for m
    using that by (auto simp: secret_markers_def lit_def is_digit_def)
  with digits set_mono_sublist show ?thesis unfolding marker_free_def list_all_iff by blast
qed

lemma marker_free_row:
  assumes "marker_free label" "marker_free (doc_title r)" "marker_free (doc_url r)"
  shows "marker_free (ref_row label r)"
proof -
  have "ref_row label r =
      124 # 32 # label @ 32 # 124 # 32 # 91 # doc_title r @ 93 # 40 # doc_url r @ 41 # 32 # 124 # []"
    by (simp add: ref_row_def) (simp add: lit_def)
  also have "marker_free \<dots>"
    by (intro marker_free_Cons marker_free_sep assms) simp_all
  finally show ?thesis .
qed

lemma marker_free_join: "(\<And>w. w \<in> set ws \<Longrightarrow> marker_free w) \<Longrightarrow> marker_free (join newline ws)"
proof (induction newline ws rule: join.induct)
  case (3 w v ws)
  then show ?case using marker_free_sep [of 10 w "join newline (v # ws)"] by simp
qed simp_all

lemma marker_lookup:
  assumes "list_all (\<lambda>r. marker_free (doc_title r) \<and> marker_free (doc_url r)) (bucket_refs t)"
    and "r \<in> set (filter_version (refs_at t k) v)"
  shows "marker_free (doc_title r) \<and> marker_free (doc_url r)"
  using assms filter_version_sub refs_at_sub by (fastforce simp: list_all_iff)

lemma page_markers:
  "list_all marker_free
     (concat (map (\<lambda>code. map (ref_row (str_int code)) (lookup_reason default_registry code None)) codes))"
  "list_all marker_free
     (concat (map (\<lambda>code. map (ref_row code) (lookup_amq default_registry code None)) (amq_codes default_registry)))"
  "list_all marker_free
     (concat (map (\<lambda>topic. map (ref_row (lit ''`'' @ topic @ lit ''`'')) (lookup_topic default_registry topic None))
       (sort (map fst (by_topic default_registry)))))"
proof -
  have digits: "marker_free (str_int i)" for i
    using set_str_int by (intro marker_free_digits) blast
  have tick: "marker_free (lit ''`'' @ k @ lit ''`'')" if "marker_free k" for k
    using marker_free_Cons [of 96 "k @ [96]"] marker_free_sep [of 96 k "[]"] that by (simp add: lit_def)
  show "list_all marker_free
     (concat (map (\<lambda>code. map (ref_row (str_int code)) (lookup_reason default_registry code None)) codes))"
    unfolding list_all_iff using marker_lookup [OF marker_reasons] digits
    by (auto simp: lookup_reason_def default_registry_def intro!: marker_free_row)
  show "list_all marker_free
     (concat (map (\<lambda>code. map (ref_row code) (lookup_amq default_registry code None)) (amq_codes default_registry)))"
    unfolding list_all_iff using marker_lookup [OF marker_amqs(1)] marker_amqs(2)
    by (auto simp: lookup_amq_def amq_codes_def default_registry_def list_all_iff intro!: marker_free_row)
  show "list_all marker_free
     (concat (map (\<lambda>topic. map (ref_row (lit ''`'' @ topic @ lit ''`'')) (lookup_topic default_registry topic None))
       (sort (map fst (by_topic default_registry)))))"
    unfolding list_all_iff using marker_lookup [OF marker_topics(1)] marker_topics(2) tick
    by (auto simp: lookup_topic_def default_registry_def list_all_iff intro!: marker_free_row)
qed

lemma page_marker_free: "marker_free reason_codes_markdown"
proof -
  have "list_all marker_free (reason_codes_lines default_registry)"
    unfolding reason_codes_lines_def list_all_append
    by (intro conjI page_markers) (simp_all add: marker_eval)
  then show ?thesis
    unfolding reason_codes_markdown_def by (intro marker_free_join) (auto simp: list_all_iff)
qed

text \<open>A search that succeeds has found a match of the declarative meaning.\<close>

lemma search_from_Some:
  "search_from r b a = Some m \<Longrightarrow> \<exists>u w v. a = u @ w @ v \<and> rx_rel r (rev u @ b) w v"
proof (induction a arbitrary: b)
  case Nil
  then have "first_match r b [] \<noteq> None" by (auto simp: search_from.simps [of r b "[]"] split: option.splits)
  then show ?case unfolding first_match_None by auto
next
  case (Cons c a)
  show ?case
  proof (cases "first_match r b (c # a)")
    case None
    with Cons.prems have "search_from r (c # b) a = Some m" by (simp add: search_from.simps [of r b "c # a"])
    from Cons.IH [OF this] obtain u w v where "a = u @ w @ v" "rx_rel r (rev u @ c # b) w v" by blast
    then show ?thesis by (intro exI [of _ "c # u"] exI [of _ w] exI [of _ v]) simp
  next
    case (Some t)
    then have "\<not> (\<forall>w v. c # a = w @ v \<longrightarrow> \<not> rx_rel r b w v)" using first_match_None [of r b "c # a"] by auto
    then obtain w v where "c # a = w @ v" "rx_rel r b w v" by blast
    then show ?thesis by (intro exI [of _ "[]"] exI [of _ w] exI [of _ v]) simp
  qed
qed

lemma rel_RLit_iff: "rx_rel (RLit l) b w a \<longleftrightarrow> w = l"
  by (induction l arbitrary: b w) (auto simp: rel_seq_iff)

lemma secret_has_marker:
  assumes "r \<in> set secret_patterns" and "rx_rel r b w a"
  shows "\<exists>m \<in> set secret_markers. sublist m w"
proof -
  have head: "sublist l (l @ t)" for l t :: pystr by (rule sublist_append_rightI)
  have begins: "sublist (lit ''BEGIN'') (lit ''-----BEGIN '' @ t)" for t
  proof -
    have "lit ''-----BEGIN '' @ t = lit ''-----'' @ lit ''BEGIN'' @ (lit '' '' @ t)" by (simp add: lit_def)
    then show ?thesis unfolding sublist_def by blast
  qed
  from assms show ?thesis
    unfolding secret_patterns_def secret_markers_def
    by (auto simp: rel_seq_iff rel_alt_iff rel_RLit_iff intro: begins head)
qed

lemma marker_free_search: "marker_free s \<Longrightarrow> r \<in> set secret_patterns \<Longrightarrow> re_search r s = None"
proof (rule ccontr)
  assume s: "marker_free s" and r: "r \<in> set secret_patterns" and "re_search r s \<noteq> None"
  then obtain m where "search_from r [] s = Some m" by (auto simp: re_search_def)
  from search_from_Some [OF this] obtain u w v
    where page: "s = u @ w @ v" and rel: "rx_rel r (rev u @ []) w v" by blast
  from secret_has_marker [OF r rel] obtain k where k: "k \<in> set secret_markers" "sublist k w" by blast
  have "sublist w s" unfolding page sublist_def by blast
  with k(2) have "sublist k s" by (rule sublist_order.order.trans)
  with s k(1) show False by (auto simp: marker_free_def list_all_iff)
qed

lemmas page_has_no_secret = marker_free_search [OF page_marker_free]

section \<open>A concrete build\<close>

definition sample_skill_md :: pystr where
  "sample_skill_md = lit ''---'' @ newline @ lit ''n'' @ newline @ lit ''---'' @ newline @ lit ''v''"

definition sample_source :: "(tree_path \<times> tree_node) list" where
  "sample_source =
     [([lit ''SKILL.md''], RegularFile (Some sample_skill_md)),
      ([lit ''references''], Directory),
      ([lit ''references'', lit ''tools.md''], RegularFile (Some (lit ''t''))),
      ([lit ''templates''], Directory),
      ([lit ''templates'', lit ''inventory.yaml''], RegularFile (Some (lit ''q'')))]"

definition sample_skill_env :: skill_env where
  "sample_skill_env =
     \<lparr> se_yaml = (\<lambda>_. Inr (PDict [(lit ''name'', PStr skill_name), (lit ''description'', PStr (lit ''Use when''))])),
       se_template_qms = (\<lambda>_. Inr [sample_entry]), se_json_ok = (\<lambda>_. True) \<rparr>"

definition sample_staged :: "(tree_path \<times> pystr) list" where
  "sample_staged =
     [([lit ''SKILL.md''], sample_skill_md), ([lit ''references'', lit ''tools.md''], lit ''t''),
      ([lit ''templates'', lit ''inventory.yaml''], lit ''q''), (page_path, reason_codes_markdown)]"

lemma sample_stage: "stage sample_source (lit ''1'') = Inr sample_staged"
proof -
  have sorted: "sort_key fst sample_source = sample_source"
    by (simp add: sample_source_def) (simp add: lit_def)
  have subst: "replace_sub placeholder (lit ''1'') t = t" if "t \<in> {sample_skill_md, lit ''t'', lit ''q''}" for t
    using that by (auto simp: sample_skill_md_def placeholder_def lit_def replace_sub_Cons)
  have "stage_files (lit ''1'') sample_source [] = Inr
      [([lit ''SKILL.md''], sample_skill_md), ([lit ''references'', lit ''tools.md''], lit ''t''),
       ([lit ''templates'', lit ''inventory.yaml''], lit ''q'')]"
    by (simp add: sample_source_def stage_file_def forbidden_names_def subst)
  then show ?thesis
    unfolding stage_def sorted by (simp add: sample_staged_def page_path_def)
qed

lemma sample_check: "check sample_skill_env skill_name (staged_tree sample_staged) = Inr ()"
proof -
  have md: "\<exists>m g. re_match frontmatter sample_skill_md = Some m \<and> m_group 1 m = Some g"
    by (simp add: frontmatter_def any_char_def sample_skill_md_def rx_eval m_group_def RPlus_def)
  have clean: "\<not> sublist placeholder s \<and> marker_free s" if "s \<in> {sample_skill_md, lit ''t'', lit ''q'', reason_codes_markdown}" for s
  proof -
    have "123 \<in> set placeholder" by (simp add: placeholder_def lit_def)
    moreover have "123 \<notin> set s" "marker_free s"
      using that markdown_brace page_marker_free by (auto simp: sample_skill_md_def marker_eval)
    ultimately show ?thesis using set_mono_sublist by blast
  qed
  have node: "check_node sample_skill_env skill_name (p, RegularFile (Some s)) = Inr ()"
    if "s \<in> {sample_skill_md, lit ''t'', lit ''q'', reason_codes_markdown}" for p s
    using clean [OF that] marker_free_search by (auto simp: check_node_def list_ex_iff sample_skill_env_def)
  have nodes: "traverse (check_node sample_skill_env skill_name) (staged_tree sample_staged) = Inr [(), (), (), ()]"
    by (simp add: staged_tree_def sample_staged_def node)
  have files: "read_file (staged_tree sample_staged) [lit ''SKILL.md''] = Inr sample_skill_md"
    "read_file (staged_tree sample_staged) [lit ''templates'', lit ''inventory.yaml''] = Inr (lit ''q'')"
    by (simp_all add: read_staged sample_staged_def page_path_def)
  from md nodes files show ?thesis
    by (auto simp: check_def front_ok_def sample_skill_env_def QMEntry_def sample_entry_valid)
qed

lemma skill_archive_clean_witness:
  "\<exists>entries. build sample_skill_env sample_source (lit ''1'') False = Inr (archive_name (lit ''1'') False, entries) \<and>
     (\<forall>(n, s) \<in> set entries. \<not> sublist placeholder s) \<and> length entries = 4"
proof -
  obtain entries where b: "build sample_skill_env sample_source (lit ''1'') False = Inr (archive_name (lit ''1'') False, entries)"
    and len: "length entries = 4"
    by (simp add: build_def sample_stage sample_check) (simp add: sample_staged_def)
  have "[] \<notin> fst ` set sample_source" by (simp add: sample_source_def)
  from skill_archive_clean [OF b this] b len show ?thesis by fastforce
qed

lemma skill_cites_findings_witness:
  "\<exists>label. sublist (ref_row label (hd (lookup_reason default_registry 2035 (Some (lit ''9.4''))))) reason_codes_markdown"
proof -
  have "lookup_reason default_registry 2035 (Some (lit ''9.4'')) \<noteq> []"
    by (simp add: lookup_reason_def filter_version_ne refs_at_def default_registry_def reason_table_def)
  then show ?thesis
    using skill_cites_findings [of "hd (lookup_reason default_registry 2035 (Some (lit ''9.4'')))"
        2035 "Some (lit ''9.4'')"] by simp
qed

end
