(* ===== verification/Spec2Isabelle.thy ===== *)
theory Spec2Isabelle
  imports Match_Channels Match_Dlq Match_Cluster Match_NativeHA Match_Rdqm Match_Zos Match_Miqm Tools Cli
    Http_App Concurrency Credentials Telemetry Doctor Link_Check Skill_Build
begin

text \<open>
  MQ Sentinel (\<open>src/src/mq_sentinel\<close>): a diagnostics server for IBM MQ that AI agents call. It takes
  a tool name and a queue manager name from a client, checks who is asking, runs display commands on
  the queue manager, matches the replies against known failure patterns, and returns findings with
  documentation links. What makes it correct is mostly what it must not do: send a command that
  changes a queue manager, act for a caller without a token or a role, hand out text that steers the
  model behind the client, or leave a call out of the audit log.

  \<^bold>\<open>How a call runs.\<close> A transport (\<open>Http\<close>, \<open>Cli\<close>) hands token, tool and parameters to
  \<open>Server.dispatch\<close>: the verifier (\<open>Auth\<close>), the rate limiter (\<open>RateLimit\<close>), the role check of the
  handler, the tool (\<open>Tools_Mqsc\<close>, \<open>Tools_Shell\<close>, \<open>HealthCheck\<close>), and, whatever happened, the audit
  record (\<open>Audit_Log\<close>). A tool opens a connection (\<open>Tools_Base.open_qm\<close>) with an entry of the inventory
  (\<open>Inventory\<close>) and a credential (\<open>Secrets\<close>), asks what kind of queue manager it is (\<open>Topology\<close>),
  runs its queries on the connector (\<open>Connectors\<close>), where every command passes the allowlist
  (\<open>Allowlist\<close>) and every reply the parser (\<open>MqscParser\<close>), gives the rows to a matcher
  (\<open>Match_*\<close>, with \<open>Engine\<close> and \<open>KCRegistry\<close>), and sanitises the response (\<open>Sanitizer\<close>).

  \<^bold>\<open>Theories and sources.\<close>
  \<^item> \<open>Prelude\<close>, \<open>PyText\<close>, \<open>Regex\<close>, \<open>Values\<close>: what the source takes from Python. Text is a list of code
    points; dictionaries are association lists in insertion order; exceptions are values of \<open>exn\<close>; \<open>re\<close>
    is a backtracking matcher over regular expressions as data; JSON values are \<open>pyval\<close>.
  \<^item> \<open>Allowlist\<close>: \<open>security/allowlist.py\<close>. The two gates, exact and on every branch.
  \<^item> \<open>Sanitizer\<close>: \<open>security/sanitizer.py\<close>. \<open>RateLimit\<close>: \<open>security/ratelimit.py\<close>.
  \<^item> \<open>Inventory\<close>: \<open>inventory/models.py\<close>, \<open>inventory/registry.py\<close>. \<open>Secrets\<close>: \<open>secrets/*.py\<close>.
  \<^item> \<open>Connector_Base\<close>: \<open>connectors/base.py\<close>, computations on a connector, traces of effects, and the
    locale \<open>mq_connector\<close>, the contract between connectors and tools. \<open>MqscParser\<close>:
    \<open>connectors/mqsc_parser.py\<close>. \<open>Connectors\<close>: \<open>connectors/fixture.py\<close>, \<open>connectors/pymqi_connector.py\<close>,
    the two interpretations of the locale.
  \<^item> \<open>Topology\<close>: \<open>topology/detect.py\<close>. \<open>Engine\<close>: \<open>rcs/engine.py\<close>. \<open>KCRegistry\<close>: \<open>rcs/kc_registry.py\<close>.
  \<^item> \<open>Match_Channels\<close>, \<open>Match_Dlq\<close>, \<open>Match_Cluster\<close>, \<open>Match_NativeHA\<close>, \<open>Match_Rdqm\<close>, \<open>Match_Zos\<close>,
    \<open>Match_Miqm\<close>: the files of \<open>rcs/matchers\<close>, one each.
  \<^item> \<open>Tools_Base\<close>, \<open>Tools_Mqsc\<close>, \<open>Tools_Shell\<close>, \<open>HealthCheck\<close>: \<open>tools/*.py\<close>. \<open>Tools\<close>: what the eight tools
    have in common.
  \<^item> \<open>Auth\<close>: \<open>auth/oidc.py\<close>, \<open>auth/rbac.py\<close>. \<open>Audit_Log\<close>: \<open>audit/logger.py\<close>. \<open>Config\<close>: \<open>config.py\<close>.
  \<^item> \<open>Server_Setup\<close>: the constructor of \<open>server.py\<close>. \<open>Server\<close>: its handlers and \<open>dispatch\<close>. \<open>Concurrency\<close>: the
    dispatches of several worker threads. \<open>Credentials\<close>: which credential a call can use. \<open>Telemetry\<close>: \<open>telemetry/setup.py\<close>, and the server that starts with it.
  \<^item> \<open>Http\<close>: the tool functions of \<open>build_mcp\<close> and the endpoints of \<open>http_app.py\<close>. \<open>Http_App\<close>: the routes, the
    metrics middleware, \<open>build_mcp\<close> and the starts of both transports. \<open>Cli\<close>, \<open>Doctor\<close>: \<open>cli/main.py\<close>.
  \<^item> Around the server: \<open>Link_Check\<close> is \<open>scripts/verify_kc_links.py\<close>, the check of the pages that findings cite;
    \<open>Skill_Build\<close> is \<open>packaging/agensi/build_skill.py\<close>, the build of the skill archive.

  \<^bold>\<open>State and operations.\<close> The state of the process is the record \<open>server\<close>: settings, audit log, buckets
  of the rate limiter, key set cache, inventory, credentials backend. The state of a connector is its own
  record with a trace of the effects it had outside the process; a computation on it is a function from the
  state to a result (\<open>exn + 'a\<close>) and the new state. \<open>try\<close>, \<open>except\<close> and \<open>finally\<close> are the combinators of
  \<open>Connector_Base\<close>, so that every raise, early return and replaced exception of the source is a
  branch. The step relations \<open>conn_step\<close>, \<open>log_step\<close>, \<open>oidc_step\<close> and \<open>server_step\<close> give the histories
  over which the invariants are stated. \<open>pool_step\<close> is the process with its threads: a thread goes through the
  phases of \<open>dispatch\<close> (verify the token, ask the limiter, run the tool, write the record), each of which is
  atomic because of the lock of the one component that it uses, and steps of all threads interleave;
  \<open>run_turns\<close> runs a given schedule.

  \<^bold>\<open>Interfaces.\<close> The four protocols of the source are locales, interpreted on every class that implements
  them: \<open>mq_connector\<close> on both connectors (the tools are proved over it), \<open>inventory_registry\<close> on the
  inventory in memory, \<open>token_verifier\<close> on both verifiers and on the one the server holds,
  \<open>secrets_backend_contract\<close> on the mounted directory and on whichever backend the server holds (the tools
  are its clients in \<open>Credentials\<close>).

  \<^bold>\<open>What the lemmas show.\<close>
  \<^item> Read-only: the gates accept exactly the commands they should (\<open>mqsc_gate_exact\<close>,
    \<open>shell_gate_safe\<close>), both connectors keep to them in every session
    (\<open>live_session_read_only\<close>), and so does every dispatch (\<open>server_read_only\<close>); the commands in the
    findings pass the gate as well (\<open>live_findings_read_only\<close>).
  \<^item> Access: effects need a verified token, an admitted subject and a role (\<open>effects_need_access\<close>,
    \<open>denied_without_access\<close>, \<open>health_lists_readable\<close>), tokens are accepted only as \<open>accepted_token\<close> says,
    no credential reaches another queue manager (\<open>own_credential_only\<close>), the
    MCP endpoint is closed without a token (\<open>gate_requires_token\<close>), the whole HTTP application tells a stranger
    nothing in production (\<open>production_http_closed\<close>), both transports make the same call
    (\<open>transports_agree\<close>, \<open>mcp_tools_reach_handlers\<close>), and a production server has none of the development
    defaults (\<open>production_server\<close>, \<open>production_fails_closed\<close>).
  \<^item> Audit and limits: one record per call (\<open>every_call_audited\<close>), a chain that verifies over any history
    (\<open>server_log_verifies\<close>) and shows edits (\<open>edits_detected\<close>), a rate that holds over every window
    (\<open>server_rate_bound\<close>); the counters count what happened (\<open>metrics_exact\<close>).
  \<^item> Threads: all of this under any interleaving (\<open>concurrent_access\<close>, \<open>concurrent_log_linear\<close>,
    \<open>concurrent_rate_bound\<close>, \<open>concurrent_calls_own\<close>), a call needs turns of its own thread only (\<open>every_call_finishes\<close>), and
    without interleaving the threads are the dispatcher (\<open>serial_turns_dispatch\<close>).
  \<^item> Answers: sanitised responses (\<open>responses_sanitized\<close>), connections that are closed (\<open>tools_disconnect\<close>),
    tools that answer whatever fails behind them (\<open>tools_respond\<close>, \<open>categories_accounted\<close>), the parser's round
    trip (\<open>reply_round_trip\<close>), and for each matcher which findings it gives.
  \<^item> Around the server: one tracer provider per process (\<open>one_tracer_provider\<close>), a doctor that changes nothing
    (\<open>doctor_changes_nothing\<close>), a link check that does not depend on the order of its answers
    (\<open>link_check_deterministic\<close>), and an archive that is clean and lists what findings cite
    (\<open>skill_archive_clean\<close>, \<open>skill_cites_findings\<close>).
  \<^item> Where the code does something else than it says, a lemma shows it on a concrete input
    (\<open>oversized_number_hides_call\<close>, \<open>malformed_key_set_escapes\<close>, \<open>header_leaks_body\<close> and others).

  \<^bold>\<open>Hypotheses.\<close> Libraries and the operating system are records of functions: \<open>mq_env\<close> (IBM client,
  subprocess), \<open>file_system\<close>, \<open>jose_env\<close> (JOSE and HTTP client), \<open>codec\<close> (orjson and SHA-256), \<open>runtime\<close>
  (NFKC, set order, clock), \<open>host_env\<close>, \<open>asgi\<close> (router, MCP SDK, printing of the metrics), \<open>doctor_env\<close>,
  \<open>skill_env\<close> (YAML and JSON readers). Only \<open>codec_ok\<close> states laws of one, and \<open>sample_codec\<close> satisfies them.

  \<^bold>\<open>Bounds and fuel.\<close> Every loop of the source is structural recursion or has a measure on the rest of the text;
  the matcher of \<open>Regex\<close> bounds a repetition by the length of the rest of the text, and the lemmas on it show
  that this is enough.

  \<^bold>\<open>What is not modelled.\<close> Inside the four steps of a dispatch there is no interleaving: the locks are taken as
  given, and so is that a tool reads nothing another thread writes, which \<open>tool_step_config\<close> shows for the
  record \<open>server\<close>. Floats of the rate limiter are rationals. Log lines have no effect on results. pydantic,
  FastMCP, Starlette, typer and uvicorn are left out: the models start at the values they hand over, and the
  parsing of the command line is theirs. The printing of JSON responses and of the metrics, the compression of the
  archive, the readers of YAML, TOML and JSON, and failures of the file system while the audit log is written
  are left out. Package files that only re-export names hold nothing to model.
\<close>

section \<open>One set of tools\<close>

text \<open>The four lists of tools in the source name the same tools: the command line, the public list of the
  HTTP application, the catalogue of the MCP server, and the names that the dispatcher knows; a name
  outside them is an unknown tool on every path.\<close>

lemma tool_lists_agree:
  "map fst (ms_tools (build_mcp default_token)) = map fst tools_public_list"
  "set (map fst tools_public_list) = insert (lit ''health'') (set (map fst cli_tools))"
  "tool \<notin> set (map fst tools_public_list) \<Longrightarrow>
     call_tool C pe ce srv tool params p s = (Inl (LookupError (lit ''unknown tool: '' @ tool)), s)"
proof -
  show "map fst (ms_tools (build_mcp default_token)) = map fst tools_public_list" by (rule catalogues_agree(1))
  have "map fst tools_public_list = lit ''health'' # tool_names"
    by (rule conjunct1 [OF public_list_exact])
  then show "set (map fst tools_public_list) = insert (lit ''health'') (set (map fst cli_tools))"
    by (simp only: list.set conjunct1 [OF cli_tools_match_server])
  show "tool \<notin> set (map fst tools_public_list) \<Longrightarrow>
     call_tool C pe ce srv tool params p s = (Inl (LookupError (lit ''unknown tool: '' @ tool)), s)"
    by (rule mp [OF conjunct2 [OF conjunct2 [OF public_list_exact]]])
qed

end
